theory Spec2Isabelle
  imports Complex_Main "HOL-Library.Multiset" "HOL-Library.Word" "HOL-Library.Char_ord"
    "HOL-Library.List_Lexorder"
begin

section \<open>Python exceptions\<close>

text \<open>
  The notebooks are Python. An exception that leaves a cell is a value of the model:
  the built-in exceptions that the modelled operations raise themselves, and
  \<open>LibraryError e\<close> for an exception \<open>e\<close> raised inside a third-party call
  (the SOMA store iterator, the hash library, the tensor library).
\<close>

datatype 'e pyerr = ZeroDivisionError | KeyError | IndexError | ValueError | LibraryError 'e

section \<open>The PyTorch tutorial notebook: \<open>train_epoch\<close>\<close>

text \<open>
  \<^verbatim>\<open>
  def train_epoch(model, train_dataloader, loss_fn, optimizer, device):
      model.train()
      train_loss = 0
      train_correct = 0
      train_total = 0
      for batch in train_dataloader:
          optimizer.zero_grad()
          X_batch, y_batch = batch
          X_batch = X_batch.float().to(device)
          outputs = model(X_batch)
          probabilities = torch.nn.functional.softmax(outputs, 1)
          predictions = torch.argmax(probabilities, axis=1).cpu()
          y_batch = y_batch[:, 1]
          y_batch = y_batch.to(device).cpu()
          train_correct += (predictions == y_batch).sum().item()
          train_total += len(predictions)
          loss = loss_fn(outputs, y_batch.long())
          train_loss += loss.item()
          loss.backward()
          optimizer.step()
      train_loss /= train_total
      train_accuracy = train_correct / train_total
      return train_loss, train_accuracy
  \<close>
  What the data loader yields is a pair \<open>(X_batch, y_batch)\<close> of tensors. The notebook
  describes its two forms. With a \<open>batch_size\<close> above 1 (the notebook sets 16) the
  tensors have rank 2 and one row per cell: row \<open>i\<close> of \<open>X_batch\<close> holds the
  expression values of a cell and row \<open>i\<close> of \<open>y_batch\<close> is
  \<open>[soma_joinid, cell_type]\<close>; the model keeps the two rows of a cell together, as
  one \<open>sample\<close>, and the batch may have zero rows. With \<open>batch_size=1\<close> the tensors
  have rank 1: the values of one cell, and its \<open>[soma_joinid, cell_type]\<close>.
\<close>

record 'x sample =
  x_row :: 'x
  y_soma_joinid :: int
  y_cell_type :: int

datatype 'x batch = Rank2 "'x sample list" | Rank1 "'x sample"

text \<open>
  The tensor library is a parameter, and each of its calls that works on the data either
  returns or raises an exception \<open>e\<close> (\<open>Inl e\<close>):
  \<^item> \<open>train_mode\<close> is \<open>model.train()\<close> and \<open>zero_grad\<close> is
    \<open>optimizer.zero_grad()\<close>; the state \<open>'m\<close> is that of the model and of the
    optimizer that holds its parameters.
  \<^item> \<open>forward\<close> is \<open>model(X_batch.float().to(device))\<close> on one row of values. The
    notebook's model is a linear layer followed by a sigmoid, which maps a tensor of
    rank 2 row by row and a tensor of rank 1 to a tensor of rank 1.
  \<^item> \<open>argmax_softmax\<close> is \<open>torch.argmax(softmax(outputs, 1), axis=1).cpu()\<close> on one
    row of a rank-2 \<open>outputs\<close>: the predicted label of that row.
  \<^item> \<open>loss_fn\<close> is \<open>loss_fn(outputs, y_batch.long())\<close> followed by \<open>loss.item()\<close>:
    the loss of a batch as a Python float. The notebook passes a cross-entropy loss,
    which raises when a label is not one of the classes.
  \<^item> \<open>optimizer_step\<close> is \<open>loss.backward(); optimizer.step()\<close>, which changes the
    parameters of the model.

  On tensors of rank 1 the dimension 1 does not exist: \<open>softmax(outputs, 1)\<close> raises
  \<open>IndexError\<close>, and so would \<open>y_batch[:, 1]\<close> after it.

  The arithmetic of the Python floats stays abstract (\<open>fzero\<close>, \<open>fadd\<close>, \<open>fdiv\<close>).
  Python raises \<open>ZeroDivisionError\<close> for a division by the integer zero, whatever the
  dividend (an int, a float, a NaN), and that is written out. The accuracy is the
  quotient of two Python ints, modelled as an exact rational.
\<close>

record ('m, 'x, 'o, 'f, 'e) torch =
  train_mode :: "'m \<Rightarrow> 'e + 'm"
  zero_grad :: "'m \<Rightarrow> 'e + 'm"
  forward :: "'m \<Rightarrow> 'x \<Rightarrow> 'e + 'o"
  argmax_softmax :: "'o \<Rightarrow> 'e + int"
  loss_fn :: "'o list \<Rightarrow> int list \<Rightarrow> 'e + 'f"
  optimizer_step :: "'m \<Rightarrow> 'x sample list \<Rightarrow> 'e + 'm"
  fzero :: "'f"
  fadd :: "'f \<Rightarrow> 'f \<Rightarrow> 'f"
  fdiv :: "'f \<Rightarrow> int \<Rightarrow> 'f"

record ('m, 'f) epoch =
  model :: 'm
  train_loss :: 'f
  train_correct :: int
  train_total :: int

text \<open>
  A call of the library on a tensor of rank 2, row by row: the rows of the result, or the
  exception of the first row at which the call raises.
\<close>

fun each_row :: "('a \<Rightarrow> 'e + 'b) \<Rightarrow> 'a list \<Rightarrow> 'e pyerr + 'b list" where
  "each_row f [] = Inr []"
| "each_row f (x # xs) =
     (case f x of
        Inl e \<Rightarrow> Inl (LibraryError e)
      | Inr y \<Rightarrow> (case each_row f xs of Inl e \<Rightarrow> Inl e | Inr ys \<Rightarrow> Inr (y # ys)))"

text \<open>\<open>(predictions == y_batch).sum().item()\<close>: the number of rows predicted right.\<close>

definition count_equal :: "int list \<Rightarrow> int list \<Rightarrow> int" where
  "count_equal predictions y_batch =
     int (length (filter (\<lambda>(p, y). p = y) (zip predictions y_batch)))"

text \<open>One pass of the loop body. An exception ends it, and the pass leaves no state.\<close>

fun train_batch ::
  "('m, 'x, 'o, 'f, 'e) torch \<Rightarrow> ('m, 'f) epoch \<Rightarrow> 'x batch \<Rightarrow> 'e pyerr + ('m, 'f) epoch"
  where
  "train_batch T s (Rank1 c) =
     (case zero_grad T (model s) of
        Inl e \<Rightarrow> Inl (LibraryError e)
      | Inr cleared \<Rightarrow>
     (case forward T cleared (x_row c) of
        Inl e \<Rightarrow> Inl (LibraryError e)
      | Inr outputs \<Rightarrow> Inl IndexError))"
| "train_batch T s (Rank2 batch) =
     (case zero_grad T (model s) of
        Inl e \<Rightarrow> Inl (LibraryError e)
      | Inr cleared \<Rightarrow>
     (case each_row (forward T cleared) (map x_row batch) of
        Inl e \<Rightarrow> Inl e
      | Inr outputs \<Rightarrow>
     (case each_row (argmax_softmax T) outputs of
        Inl e \<Rightarrow> Inl e
      | Inr predictions \<Rightarrow>
          let y_batch = map y_cell_type batch;
              correct = train_correct s + count_equal predictions y_batch;
              total = train_total s + int (length predictions)
          in (case loss_fn T outputs y_batch of
                Inl e \<Rightarrow> Inl (LibraryError e)
              | Inr loss \<Rightarrow>
             (case optimizer_step T cleared batch of
                Inl e \<Rightarrow> Inl (LibraryError e)
              | Inr stepped \<Rightarrow>
                  Inr \<lparr>model = stepped,
                       train_loss = fadd T (train_loss s) loss,
                       train_correct = correct,
                       train_total = total\<rparr>)))))"





section \<open>The find-duplicate-cells notebook: the per-cell hash\<close>

text \<open>
  \<^verbatim>\<open>
  for (obs_soma_joinids_chunk, _), X_chunk in X_sparse_iter(
      query, X_name="raw", stride=row_stride
  ):
      for r, row_soma_joinid in enumerate(obs_soma_joinids_chunk):
          X_row = X_chunk.getrow(r)
          hash = xxhash.xxh3_128(X_row.data.tobytes())
          hash.update(X_row.indptr)
          hashes.at[row_soma_joinid] = hash.hexdigest()

      prog.value += 1
  \<close>
\<close>

subsection \<open>Cell values of a pandas table\<close>

text \<open>
  The values the notebook's tables hold: strings (hashes, dataset ids), booleans
  (\<open>is_primary_data\<close>), numbers (join ids, counts, means) and the missing value.
  Labels of rows and columns are values too: the pivot has the column labels
  \<open>False\<close> and \<open>True\<close>, and \<open>value_counts\<close> names its column \<open>0\<close>.
\<close>

datatype val = Str string | Bool bool | Num rat | NaN

subsection \<open>A scipy CSR matrix and \<open>getrow\<close>\<close>

text \<open>
  A chunk of \<open>X\<close> is a \<open>scipy.sparse.csr_matrix\<close>: the stored values of row \<open>i\<close> are
  \<open>data[indptr[i]:indptr[i+1]]\<close> and their columns are the same slice of \<open>indices\<close>.
  scipy checks a matrix when it builds it; \<open>csr_ok\<close> is that invariant.
\<close>

record 'v csr_matrix =
  shape :: "nat \<times> nat"
  data :: "'v list"
  indices :: "nat list"
  indptr :: "nat list"


text \<open>The Python slice \<open>xs[a:b]\<close> for \<open>0 \<le> a\<close> and \<open>0 \<le> b\<close>.\<close>

definition py_slice :: "'a list \<Rightarrow> nat \<Rightarrow> nat \<Rightarrow> 'a list" where
  "py_slice xs a b = take (b - a) (drop a xs)"

text \<open>
  \<open>X.getrow(i)\<close> for \<open>i \<ge> 0\<close> (the notebook passes the counter of \<open>enumerate\<close>): a
  1-row matrix with the slice of row \<open>i\<close> and the index pointer \<open>[0, nnz]\<close>;
  \<open>IndexError\<close> when the matrix has no row \<open>i\<close>.
\<close>

definition getrow :: "'v csr_matrix \<Rightarrow> nat \<Rightarrow> 'e pyerr + 'v csr_matrix" where
  "getrow X i =
     (if fst (shape X) \<le> i then Inl IndexError
      else let a = indptr X ! i; b = indptr X ! Suc i
           in Inr \<lparr>shape = (1, snd (shape X)),
                   data = py_slice (data X) a b,
                   indices = py_slice (indices X) a b,
                   indptr = [0, b - a]\<rparr>)"

subsection \<open>The hash of one row\<close>

text \<open>
  The numpy and xxhash calls are parameters: \<open>tobytes\<close> is \<open>ndarray.tobytes()\<close> on the
  value array, \<open>buffer_bytes\<close> is the memory of the index-pointer array that
  \<open>hash.update\<close> reads through the buffer protocol, and \<open>xxh3_128_hexdigest\<close> is the
  digest of a byte string, or the exception the library raises. xxhash is a streaming
  hash: feeding \<open>a\<close> to the constructor and \<open>b\<close> to \<open>update\<close> gives the digest of
  \<open>a\<close> followed by \<open>b\<close>.
\<close>

type_synonym byte = "8 word"

record ('v, 'e) hashlib =
  tobytes :: "'v list \<Rightarrow> byte list"
  buffer_bytes :: "nat list \<Rightarrow> byte list"
  xxh3_128_hexdigest :: "byte list \<Rightarrow> 'e + string"

definition row_hash :: "('v, 'e) hashlib \<Rightarrow> 'v csr_matrix \<Rightarrow> 'e pyerr + string" where
  "row_hash L X_row =
     (case xxh3_128_hexdigest L (tobytes L (data X_row) @ buffer_bytes L (indptr X_row)) of
        Inl e \<Rightarrow> Inl (LibraryError e)
      | Inr hexdigest \<Rightarrow> Inr hexdigest)"



subsection \<open>A pandas Series and \<open>hashes.at[label] = value\<close>\<close>

text \<open>
  A Series is a list of labelled values, in index order. A label is a list of values, one
  per index level. \<open>s.at[k] = v\<close> overwrites the value at every position labelled
  \<open>k\<close>, and appends \<open>k\<close> when the index does not hold it.
\<close>

type_synonym label = "val list"
type_synonym series = "(label \<times> val) list"

definition series_set_at :: "series \<Rightarrow> label \<Rightarrow> val \<Rightarrow> series" where
  "series_set_at s k v =
     (if k \<in> fst ` set s then map (\<lambda>(k', v'). if k' = k then (k', v) else (k', v')) s
      else s @ [(k, v)])"

subsection \<open>The two nested loops\<close>

text \<open>
  What the loops change: the Series \<open>hashes\<close> and the progress bar's \<open>value\<close>. The
  field \<open>trace\<close> is not a variable of the notebook: it lists, in execution order, each
  assignment \<open>hashes.at[...] = ...\<close> with the digest computed for it, and each
  \<open>prog.value += 1\<close>, so that how often and in which order rows are hashed can be stated.
\<close>

datatype event = Hashed nat string | Progress

record loop_state =
  hashes :: series
  prog_value :: int
  trace :: "event list"

text \<open>
  \<open>X_sparse_iter\<close> is a function of the \<open>cellxgene_census\<close> package; it yields
  \<open>((obs_joinids, var_joinids), matrix)\<close>. What it yields is a parameter of the model:
  a list of items, where \<open>Inl e\<close> is the point at which the iterator raises \<open>e\<close>.
\<close>

type_synonym 'v chunk = "(nat list \<times> nat list) \<times> 'v csr_matrix"

text \<open>The label of a cell in the index of \<open>obs_df\<close>: its \<open>soma_joinid\<close>.\<close>

definition joinid_label :: "nat \<Rightarrow> label" where
  "joinid_label j = [Num (of_nat j)]"

text \<open>The inner loop, from counter \<open>r\<close> on.\<close>

fun hash_rows ::
  "('v, 'e) hashlib \<Rightarrow> 'v csr_matrix \<Rightarrow> nat \<Rightarrow> nat list \<Rightarrow> loop_state \<Rightarrow> 'e pyerr + loop_state"
  where
  "hash_rows L X_chunk r [] s = Inr s"
| "hash_rows L X_chunk r (row_soma_joinid # rest) s =
     (case getrow X_chunk r of
        Inl e \<Rightarrow> Inl e
      | Inr X_row \<Rightarrow>
          (case row_hash L X_row of
             Inl e \<Rightarrow> Inl e
           | Inr hexdigest \<Rightarrow>
               hash_rows L X_chunk (Suc r) rest
                 (s\<lparr>hashes := series_set_at (hashes s) (joinid_label row_soma_joinid) (Str hexdigest),
                    trace := trace s @ [Hashed row_soma_joinid hexdigest]\<rparr>)))"

text \<open>The outer loop over what the iterator yields.\<close>

fun hashing_loop ::
  "('v, 'e) hashlib \<Rightarrow> ('e + 'v chunk) list \<Rightarrow> loop_state \<Rightarrow> 'e pyerr + loop_state"
  where
  "hashing_loop L [] s = Inr s"
| "hashing_loop L (Inl e # rest) s = Inl (LibraryError e)"
| "hashing_loop L (Inr ((obs_soma_joinids_chunk, var_joinids), X_chunk) # rest) s =
     (case hash_rows L X_chunk 0 obs_soma_joinids_chunk s of
        Inl e \<Rightarrow> Inl e
      | Inr s' \<Rightarrow>
          hashing_loop L rest
            (s'\<lparr>prog_value := prog_value s' + 1, trace := trace s' @ [Progress]\<rparr>))"

subsection \<open>The sequential schedule\<close>

text \<open>
  The order in which a single-threaded scan visits the rows: the chunks in the order
  the iterator yields them, the rows of a chunk by increasing position, and one
  progress step after the last row of each chunk. \<open>schedule\<close> lists the pairs
  (chunk, position) with the join id found there; it follows these words, not the code.
\<close>

datatype 'v visit = Row nat "'v csr_matrix" nat | ChunkDone

definition chunk_visits :: "'v chunk \<Rightarrow> 'v visit list" where
  "chunk_visits c =
     map (\<lambda>(r, j). Row j (snd c) r) (zip [0 ..< length (fst (fst c))] (fst (fst c)))
     @ [ChunkDone]"

definition schedule :: "'v chunk list \<Rightarrow> 'v visit list" where
  "schedule cs = concat (map chunk_visits cs)"

text \<open>The digest of the row a visit names (an empty text where there is none).\<close>

definition visit_event :: "('v, 'e) hashlib \<Rightarrow> 'v visit \<Rightarrow> event" where
  "visit_event L v =
     (case v of
        ChunkDone \<Rightarrow> Progress
      | Row j X r \<Rightarrow>
          Hashed j (case getrow X r :: 'e pyerr + 'v csr_matrix of
                      Inl e \<Rightarrow> []
                    | Inr X_row \<Rightarrow> (case row_hash L X_row of Inl e \<Rightarrow> [] | Inr h \<Rightarrow> h)))"

text \<open>Replaying one entry of the schedule on the state.\<close>

definition apply_event :: "loop_state \<Rightarrow> event \<Rightarrow> loop_state" where
  "apply_event s ev =
     (case ev of
        Hashed j h \<Rightarrow>
          s\<lparr>hashes := series_set_at (hashes s) (joinid_label j) (Str h),
            trace := trace s @ [ev]\<rparr>
      | Progress \<Rightarrow> s\<lparr>prog_value := prog_value s + 1, trace := trace s @ [ev]\<rparr>)"

subsection \<open>The first exception of a scan\<close>

text \<open>
  What the calls of a scan raise, without the loop and without its state: the iterator at
  an item, and \<open>getrow\<close> and then the digest at a row. \<open>first_raise\<close> is the
  exception of the first call that raises, in the order of the schedule; nothing is
  raised when it is \<open>None\<close>. It follows the words of the claim on exceptions, not the
  code.
\<close>

definition row_raises :: "('v, 'e) hashlib \<Rightarrow> 'v csr_matrix \<Rightarrow> nat \<Rightarrow> 'e pyerr option" where
  "row_raises L X r =
     (case getrow X r of
        Inl x \<Rightarrow> Some x
      | Inr X_row \<Rightarrow>
          (case xxh3_128_hexdigest L (tobytes L (data X_row) @ buffer_bytes L (indptr X_row)) of
             Inl e \<Rightarrow> Some (LibraryError e)
           | Inr h \<Rightarrow> None))"

definition item_raises :: "('v, 'e) hashlib \<Rightarrow> 'e + 'v chunk \<Rightarrow> 'e pyerr option list" where
  "item_raises L item =
     (case item of
        Inl e \<Rightarrow> [Some (LibraryError e)]
      | Inr c \<Rightarrow> map (row_raises L (snd c)) [0 ..< length (fst (fst c))])"

definition first_raise :: "('v, 'e) hashlib \<Rightarrow> ('e + 'v chunk) list \<Rightarrow> 'e pyerr option" where
  "first_raise L items =
     (case List.find (\<lambda>x. x \<noteq> None) (concat (map (item_raises L) items)) of
        None \<Rightarrow> None
      | Some x \<Rightarrow> x)"

subsection \<open>The rows a trace hashes\<close>

text \<open>The join ids of the assignments \<open>hashes.at[...] = ...\<close> of a trace, in order.\<close>

fun hashed_ids :: "event list \<Rightarrow> nat list" where
  "hashed_ids [] = []"
| "hashed_ids (Hashed j h # evs) = j # hashed_ids evs"
| "hashed_ids (Progress # evs) = hashed_ids evs"

section \<open>The pandas operations the notebook uses\<close>

text \<open>
  A DataFrame is a list of column labels and a list of rows; each row has its index
  label (one value per index level) and one cell per column. \<open>index_names\<close> holds the
  name of each index level, \<open>None\<close> for the unnamed default index. Every operation
  below is the pandas method of the same name, restricted to the arguments the
  notebook passes; an operation that pandas makes return a new object returns a new
  frame here. Column labels are unique in every frame the notebook builds:
  \<open>insert\<close> refuses a second column of the same name.
\<close>

record frame =
  index_names :: "val option list"
  columns :: "val list"
  body :: "(label \<times> val list) list"

text \<open>
  pandas sorts group keys. Within one column the values are of one kind, and are
  ordered as Python orders them: \<open>False < True\<close>, numbers by size, strings by code
  point. Values of different kinds do not meet in one column of the notebook (pandas
  would raise a \<open>TypeError\<close>); the order puts booleans first, then numbers, then
  strings.
\<close>

fun rank :: "val \<Rightarrow> nat" where
  "rank (Bool b) = 0"
| "rank (Num q) = 1"
| "rank (Str s) = 2"
| "rank NaN = 3"

instantiation val :: linorder
begin

fun less_eq_val :: "val \<Rightarrow> val \<Rightarrow> bool" where
  "less_eq_val (Bool a) (Bool b) = (a \<le> b)"
| "less_eq_val (Num a) (Num b) = (a \<le> b)"
| "less_eq_val (Str a) (Str b) = (a \<le> b)"
| "less_eq_val a b = (rank a \<le> rank b)"

definition less_val :: "val \<Rightarrow> val \<Rightarrow> bool" where
  "less_val a b \<longleftrightarrow> a \<le> b \<and> \<not> b \<le> a"

instance
proof
  fix x y z :: val
  show "x < y \<longleftrightarrow> x \<le> y \<and> \<not> y \<le> x"
    by (rule less_val_def)
  show "x \<le> x"
    by (cases x) simp_all
  show "x \<le> y \<Longrightarrow> y \<le> z \<Longrightarrow> x \<le> z"
    by (cases x; cases y; cases z) auto
  show "x \<le> y \<Longrightarrow> y \<le> x \<Longrightarrow> x = y"
    by (cases x; cases y) auto
  show "x \<le> y \<or> y \<le> x"
    by (cases x; cases y) auto
qed

end

text \<open>The position of a label among the columns.\<close>

fun index_of :: "'a \<Rightarrow> 'a list \<Rightarrow> nat option" where
  "index_of x [] = None"
| "index_of x (y # ys) = (if x = y then Some 0 else map_option Suc (index_of x ys))"

fun positions :: "'a list \<Rightarrow> 'a list \<Rightarrow> nat list option" where
  "positions [] cols = Some []"
| "positions (c # cs) cols =
     (case index_of c cols of
        None \<Rightarrow> None
      | Some i \<Rightarrow> map_option ((#) i) (positions cs cols))"

definition drop_nth :: "nat \<Rightarrow> 'a list \<Rightarrow> 'a list" where
  "drop_nth i xs = take i xs @ drop (Suc i) xs"

definition insert_nth :: "nat \<Rightarrow> 'a \<Rightarrow> 'a list \<Rightarrow> 'a list" where
  "insert_nth i x xs = take i xs @ [x] @ drop i xs"

text \<open>The labels of the default index: 0, 1, 2, ...\<close>

definition range_index :: "nat \<Rightarrow> label list" where
  "range_index n = map (\<lambda>i. [Num (of_nat i)]) [0 ..< n]"

text \<open>\<open>table.to_pandas()\<close>: the Arrow table's columns, under the default index.\<close>

definition to_pandas :: "val list \<Rightarrow> val list list \<Rightarrow> frame" where
  "to_pandas cols rows =
     \<lparr>index_names = [None], columns = cols, body = zip (range_index (length rows)) rows\<rparr>"

text \<open>\<open>df.drop(columns=[c])\<close>\<close>

definition drop_column :: "val \<Rightarrow> frame \<Rightarrow> 'e pyerr + frame" where
  "drop_column c f =
     (case index_of c (columns f) of
        None \<Rightarrow> Inl KeyError
      | Some i \<Rightarrow>
          Inr (f\<lparr>columns := drop_nth i (columns f),
                 body := map (\<lambda>(k, cells). (k, drop_nth i cells)) (body f)\<rparr>))"

text \<open>\<open>df.set_index(c)\<close>: the column becomes the index, the old index is dropped.\<close>

definition set_index :: "val \<Rightarrow> frame \<Rightarrow> 'e pyerr + frame" where
  "set_index c f =
     (case index_of c (columns f) of
        None \<Rightarrow> Inl KeyError
      | Some i \<Rightarrow>
          Inr \<lparr>index_names = [Some c],
               columns = drop_nth i (columns f),
               body = map (\<lambda>(k, cells). ([cells ! i], drop_nth i cells)) (body f)\<rparr>)"

text \<open>
  \<open>df.reset_index()\<close>: the index levels become the first columns, under their names
  (\<open>index\<close> for an unnamed level), and the frame gets the default index.
  \<open>ValueError\<close> when a column of that name exists.
\<close>

definition level_name :: "val option \<Rightarrow> val" where
  "level_name n = (case n of None \<Rightarrow> Str ''index'' | Some c \<Rightarrow> c)"

definition reset_index :: "frame \<Rightarrow> 'e pyerr + frame" where
  "reset_index f =
     (let names = map level_name (index_names f)
      in if \<exists>n \<in> set names. n \<in> set (columns f) then Inl ValueError
         else Inr \<lparr>index_names = [None],
                   columns = names @ columns f,
                   body = zip (range_index (length (body f)))
                              (map (\<lambda>(k, cells). k @ cells) (body f))\<rparr>)"

text \<open>
  \<open>df.insert(loc, column, value)\<close> with a Series: changes the frame in place.
  \<open>ValueError\<close> when the column exists. The Series is aligned with the frame's index:
  taken as it is when the two indexes are equal, else looked up label by label, with the
  missing value where the Series has no such label and a \<open>ValueError\<close> when the
  Series has a label twice. \<open>IndexError\<close> when \<open>loc\<close> is beyond the columns.
\<close>

definition align :: "series \<Rightarrow> label list \<Rightarrow> 'e pyerr + val list" where
  "align s ks =
     (if map fst s = ks then Inr (map snd s)
      else if \<not> distinct (map fst s) then Inl ValueError
      else Inr (map (\<lambda>k. case map_of s k of None \<Rightarrow> NaN | Some v \<Rightarrow> v) ks))"

definition insert_column :: "nat \<Rightarrow> val \<Rightarrow> series \<Rightarrow> frame \<Rightarrow> 'e pyerr + frame" where
  "insert_column loc c s f =
     (if c \<in> set (columns f) then Inl ValueError
      else case align s (map fst (body f)) of
             Inl e \<Rightarrow> Inl e
           | Inr vs \<Rightarrow>
               if length (columns f) < loc then Inl IndexError
               else Inr (f\<lparr>columns := insert_nth loc c (columns f),
                          body := map (\<lambda>((k, cells), v). (k, insert_nth loc v cells))
                                      (zip (body f) vs)\<rparr>))"

text \<open>
  \<open>df.value_counts(subset=cs).to_frame()\<close>: one row per distinct combination of the
  values in the columns \<open>cs\<close>, rows with a missing value left out; the combination is the
  index label and the number of rows that have it is the one column, which this
  pandas names \<open>0\<close> (the notebook notes it). The groups are sorted by key and then by
  falling count. pandas does not fix the order of groups of equal count; here they
  keep their key order.
\<close>

definition key_counts :: "label list \<Rightarrow> (label \<times> nat) list" where
  "key_counts keys =
     sort_key (\<lambda>(k, n). - int n) (map (\<lambda>k. (k, count_list keys k)) (sort (remdups keys)))"

definition value_counts :: "val list \<Rightarrow> frame \<Rightarrow> 'e pyerr + frame" where
  "value_counts cs f =
     (case positions cs (columns f) of
        None \<Rightarrow> Inl KeyError
      | Some ps \<Rightarrow>
          let keys = filter (\<lambda>k. NaN \<notin> set k)
                       (map (\<lambda>(k, cells). map (\<lambda>i. cells ! i) ps) (body f))
          in Inr \<lparr>index_names = map Some cs,
                  columns = [Num 0],
                  body = map (\<lambda>(k, n). (k, [Num (of_nat n)])) (key_counts keys)\<rparr>)"

text \<open>The mean of the numbers among the values; the missing value when there is none.\<close>

definition numbers :: "val list \<Rightarrow> rat list" where
  "numbers vs = concat (map (\<lambda>v. case v of Num q \<Rightarrow> [q] | _ \<Rightarrow> []) vs)"

definition mean :: "val list \<Rightarrow> val" where
  "mean vs =
     (let qs = numbers vs
      in if qs = [] then NaN else Num (sum_list qs / of_nat (length qs)))"

text \<open>
  \<open>df.pivot_table(index=i, columns=c, values=v, fill_value=x)\<close>: one row per value
  of column \<open>i\<close> and one column per value of column \<open>c\<close>, both sorted; a cell is the
  mean (the default \<open>aggfunc\<close>) of column \<open>v\<close> over the rows with that pair, and \<open>x\<close>
  where there is no such row. Rows with a missing value in \<open>i\<close> or \<open>c\<close> are not
  grouped.
\<close>

definition grouped_rows :: "nat \<Rightarrow> nat \<Rightarrow> val list list \<Rightarrow> val list list" where
  "grouped_rows i j rows = filter (\<lambda>r. r ! i \<noteq> NaN \<and> r ! j \<noteq> NaN) rows"

definition group_labels :: "nat \<Rightarrow> val list list \<Rightarrow> val list" where
  "group_labels i rows = sort (remdups (map (\<lambda>r. r ! i) rows))"

definition pivot_cell :: "nat \<Rightarrow> nat \<Rightarrow> nat \<Rightarrow> val \<Rightarrow> val list list \<Rightarrow> val \<Rightarrow> val \<Rightarrow> val" where
  "pivot_cell i j v fill_value rows a b =
     (let m = mean (map (\<lambda>r. r ! v) (filter (\<lambda>r. r ! i = a \<and> r ! j = b) rows))
      in if m = NaN then fill_value else m)"

definition pivot_table :: "val \<Rightarrow> val \<Rightarrow> val \<Rightarrow> val \<Rightarrow> frame \<Rightarrow> 'e pyerr + frame" where
  "pivot_table idx col vals fill_value f =
     (case positions [idx, col, vals] (columns f) of
        Some [i, j, v] \<Rightarrow>
          let rows = grouped_rows i j (map snd (body f));
              column_labels = group_labels j rows
          in Inr \<lparr>index_names = [Some idx],
                  columns = column_labels,
                  body = map (\<lambda>a. ([a], map (pivot_cell i j v fill_value rows a) column_labels))
                           (group_labels i rows)\<rparr>
      | _ \<Rightarrow> Inl KeyError)"

text \<open>\<open>df.loc[:, c]\<close> and \<open>df.c\<close>: one column, as a Series.\<close>

definition loc_column :: "val \<Rightarrow> frame \<Rightarrow> 'e pyerr + series" where
  "loc_column c f =
     (case index_of c (columns f) of
        None \<Rightarrow> Inl KeyError
      | Some i \<Rightarrow> Inr (map (\<lambda>(k, cells). (k, cells ! i)) (body f)))"

text \<open>
  \<open>s == x\<close> and \<open>s > n\<close> on a Series, element by element. A missing value equals
  nothing, and only a number is greater than a number.
\<close>

definition series_eq :: "series \<Rightarrow> val \<Rightarrow> series" where
  "series_eq s x = map (\<lambda>(k, v). (k, Bool (v = x \<and> v \<noteq> NaN))) s"

definition series_gt :: "series \<Rightarrow> rat \<Rightarrow> series" where
  "series_gt s n = map (\<lambda>(k, v). (k, Bool (case v of Num q \<Rightarrow> n < q | _ \<Rightarrow> False))) s"

text \<open>
  \<open>df[mask]\<close> for a boolean Series computed from \<open>df\<close> itself, so that the two have
  the same index in the same order: the rows at which the mask is true.
\<close>

definition mask_rows :: "series \<Rightarrow> frame \<Rightarrow> frame" where
  "mask_rows m f =
     f\<lparr>body := map fst (filter (\<lambda>(row, b). snd b = Bool True) (zip (body f) m))\<rparr>"

text \<open>\<open>df.index\<close>\<close>

definition index :: "frame \<Rightarrow> label list" where
  "index f = map fst (body f)"

text \<open>
  \<open>df.loc[labels]\<close> with a list of labels: for each label in turn, the rows that carry
  it; \<open>KeyError\<close> when a label is not in the index.
\<close>

definition loc_rows :: "label list \<Rightarrow> frame \<Rightarrow> 'e pyerr + frame" where
  "loc_rows ks f =
     (if \<exists>k \<in> set ks. k \<notin> set (index f) then Inl KeyError
      else Inr (f\<lparr>body := concat (map (\<lambda>k. filter (\<lambda>(k', cells). k' = k) (body f)) ks)\<rparr>))"

text \<open>\<open>df.rename(columns={a: b})\<close>: no error when there is no column \<open>a\<close>.\<close>

definition rename_column :: "val \<Rightarrow> val \<Rightarrow> frame \<Rightarrow> frame" where
  "rename_column a b f = f\<lparr>columns := map (\<lambda>c. if c = a then b else c) (columns f)\<rparr>"

text \<open>
  \<open>left.join(right, on=c)\<close>: a left join of the rows of \<open>left\<close>, keyed by its column
  or index level \<open>c\<close>, with the rows of \<open>right\<close>, keyed by its index. A row of
  \<open>left\<close> without a partner gets missing values. \<open>KeyError\<close> when \<open>left\<close> has no
  column or level \<open>c\<close>, \<open>ValueError\<close> when the two frames share a column name.
\<close>

definition key_of :: "val \<Rightarrow> frame \<Rightarrow> (label \<times> val list \<Rightarrow> val) option" where
  "key_of c f =
     (case index_of c (columns f) of
        Some i \<Rightarrow> Some (\<lambda>(k, cells). cells ! i)
      | None \<Rightarrow>
          (case index_of (Some c) (index_names f) of
             Some i \<Rightarrow> Some (\<lambda>(k, cells). k ! i)
           | None \<Rightarrow> None))"

definition join_on :: "val \<Rightarrow> frame \<Rightarrow> frame \<Rightarrow> 'e pyerr + frame" where
  "join_on c left right =
     (case key_of c left of
        None \<Rightarrow> Inl KeyError
      | Some key \<Rightarrow>
          if \<exists>x \<in> set (columns left). x \<in> set (columns right) then Inl ValueError
          else Inr (left
                 \<lparr>columns := columns left @ columns right,
                  body := concat (map (\<lambda>row.
                            let partners = filter (\<lambda>(k', cells'). k' = [key row]) (body right)
                            in if partners = []
                               then [(fst row, snd row @ replicate (length (columns right)) NaN)]
                               else map (\<lambda>(k', cells'). (fst row, snd row @ cells')) partners)
                          (body left))\<rparr>))"

section \<open>The find-duplicate-cells notebook, cell by cell\<close>

subsection \<open>The Census store\<close>

text \<open>
  What the notebook reads from the store it opens: the table
  \<open>census_info/datasets\<close>, whose columns are the ones the notebook's reports show,
  the three \<open>obs\<close> columns of the experiment that the axis query is asked for, and
  the chunks of the \<open>X["raw"]\<close> layer. \<open>X_sparse_iter\<close> is not defined in the
  notebook: what it yields for a stride is part of the store.
\<close>

record dataset_rec =
  ds_soma_joinid :: nat
  collection_id :: string
  collection_name :: string
  collection_doi :: string
  dataset_id :: string
  dataset_title :: string
  dataset_h5ad_path :: string
  dataset_total_cell_count :: nat

record obs_rec =
  soma_joinid :: nat
  obs_dataset_id :: string
  is_primary_data :: bool

record ('v, 'e) census =
  census_datasets :: "dataset_rec list"
  census_obs :: "obs_rec list"
  X_sparse_iter :: "nat \<Rightarrow> ('e + 'v chunk) list"

text \<open>
  The Arrow tables of \<open>census["census_info"]["datasets"].read().concat()\<close> and of
  \<open>query.obs(column_names=["dataset_id", "soma_joinid", "is_primary_data"]).concat()\<close>.
\<close>

definition datasets_columns :: "val list" where
  "datasets_columns =
     [Str ''soma_joinid'', Str ''collection_id'', Str ''collection_name'',
      Str ''collection_doi'', Str ''dataset_id'', Str ''dataset_title'',
      Str ''dataset_h5ad_path'', Str ''dataset_total_cell_count'']"

definition datasets_cells :: "dataset_rec \<Rightarrow> val list" where
  "datasets_cells d =
     [Num (of_nat (ds_soma_joinid d)), Str (collection_id d), Str (collection_name d),
      Str (collection_doi d), Str (dataset_id d), Str (dataset_title d),
      Str (dataset_h5ad_path d), Num (of_nat (dataset_total_cell_count d))]"

definition obs_columns :: "val list" where
  "obs_columns = [Str ''dataset_id'', Str ''soma_joinid'', Str ''is_primary_data'']"

definition obs_cells :: "obs_rec \<Rightarrow> val list" where
  "obs_cells x = [Str (obs_dataset_id x), Num (of_nat (soma_joinid x)), Bool (is_primary_data x)]"

subsection \<open>The hashing cell\<close>

text \<open>
  \<^verbatim>\<open>
  row_stride = 250_000  # row partition

  with cellxgene_census.open_soma(census_version=census_version) as census:
      datasets_df = (
          census["census_info"]["datasets"]
          .read().concat().to_pandas().drop(columns=["soma_joinid"])
      )
      exp = census["census_data"][experiment]
      with exp.axis_query(measurement_name="RNA") as query:
          display(prog := ipywidgets.IntProgress(value=0, ...))
          obs_df = (
              query.obs(column_names=["dataset_id", "soma_joinid", "is_primary_data"])
              .concat().to_pandas().set_index("soma_joinid")
          )
          hashes = pd.Series(data=np.full((len(obs_df),), ""), index=obs_df.index)
          for ... in X_sparse_iter(query, X_name="raw", stride=row_stride):
              ...
          obs_df.insert(0, "hash", hashes)
  \<close>
  The cell leaves \<open>datasets_df\<close>, \<open>obs_df\<close>, \<open>hashes\<close> and the progress bar.
\<close>

definition row_stride :: nat where
  "row_stride = 250000"

record hashed =
  the_datasets_df :: frame
  the_obs_df :: frame
  the_loop_state :: loop_state

definition hashing_cell :: "('v, 'e) hashlib \<Rightarrow> ('v, 'e) census \<Rightarrow> 'e pyerr + hashed" where
  "hashing_cell L census =
     (case drop_column (Str ''soma_joinid'')
             (to_pandas datasets_columns (map datasets_cells (census_datasets census))) of
        Inl e \<Rightarrow> Inl e
      | Inr datasets_df \<Rightarrow>
     (case set_index (Str ''soma_joinid'')
             (to_pandas obs_columns (map obs_cells (census_obs census))) of
        Inl e \<Rightarrow> Inl e
      | Inr obs_df \<Rightarrow>
     (case hashing_loop L (X_sparse_iter census row_stride)
             \<lparr>hashes = map (\<lambda>k. (k, Str '''')) (index obs_df), prog_value = 0, trace = []\<rparr> of
        Inl e \<Rightarrow> Inl e
      | Inr s \<Rightarrow>
     (case insert_column 0 (Str ''hash'') (hashes s) obs_df of
        Inl e \<Rightarrow> Inl e
      | Inr obs_df' \<Rightarrow>
          Inr \<lparr>the_datasets_df = datasets_df, the_obs_df = obs_df', the_loop_state = s\<rparr>))))"

subsection \<open>The report cells\<close>

text \<open>
  \<^verbatim>\<open>
  hash_primary_pivot = (
      obs_df.value_counts(subset=["hash", "is_primary_data"]).to_frame().reset_index()
  )
  hash_primary_pivot = hash_primary_pivot.pivot_table(
      index="hash", columns="is_primary_data", values=0, fill_value=0)
  \<close>
\<close>

definition hash_primary_pivot_cell :: "frame \<Rightarrow> 'e pyerr + frame" where
  "hash_primary_pivot_cell obs_df =
     (case value_counts [Str ''hash'', Str ''is_primary_data''] obs_df of
        Inl e \<Rightarrow> Inl e
      | Inr counts \<Rightarrow>
     (case reset_index counts of
        Inl e \<Rightarrow> Inl e
      | Inr hash_primary_pivot \<Rightarrow>
          pivot_table (Str ''hash'') (Str ''is_primary_data'') (Num 0) (Num 0)
            hash_primary_pivot))"

text \<open>
  \<^verbatim>\<open>
  obs_missing_primary = (
      obs_df.reset_index()
      .set_index("hash")
      .loc[hash_primary_pivot[hash_primary_pivot.loc[:, True] == 0].index]
      .reset_index()
      .set_index("soma_joinid")
  )
  \<close>
  The two report cells differ in the test on the pivot's column \<open>True\<close> only; the
  selection they share takes the test as an argument.
\<close>

definition select_by_hash :: "(series \<Rightarrow> series) \<Rightarrow> frame \<Rightarrow> frame \<Rightarrow> 'e pyerr + frame" where
  "select_by_hash test obs_df hash_primary_pivot =
     (case reset_index obs_df of
        Inl e \<Rightarrow> Inl e
      | Inr a \<Rightarrow>
     (case set_index (Str ''hash'') a of
        Inl e \<Rightarrow> Inl e
      | Inr by_hash \<Rightarrow>
     (case loc_column (Bool True) hash_primary_pivot of
        Inl e \<Rightarrow> Inl e
      | Inr primary_count \<Rightarrow>
     (case loc_rows (index (mask_rows (test primary_count) hash_primary_pivot)) by_hash of
        Inl e \<Rightarrow> Inl e
      | Inr b \<Rightarrow>
     (case reset_index b of
        Inl e \<Rightarrow> Inl e
      | Inr c \<Rightarrow> set_index (Str ''soma_joinid'') c)))))"

definition obs_missing_primary_cell :: "frame \<Rightarrow> frame \<Rightarrow> 'e pyerr + frame" where
  "obs_missing_primary_cell obs_df hash_primary_pivot =
     select_by_hash (\<lambda>s. series_eq s (Num 0)) obs_df hash_primary_pivot"

text \<open>
  \<^verbatim>\<open>
  obs_duplicate_primary = (
      obs_df.reset_index()
      .set_index("hash")
      .loc[hash_primary_pivot[hash_primary_pivot.loc[:, True] > 1].index]
      .reset_index()
      .set_index("soma_joinid")
  )
  obs_duplicate_primary = obs_duplicate_primary[
      obs_duplicate_primary.is_primary_data == True
  ]
  \<close>
\<close>

definition obs_duplicate_primary_cell :: "frame \<Rightarrow> frame \<Rightarrow> 'e pyerr + frame" where
  "obs_duplicate_primary_cell obs_df hash_primary_pivot =
     (case select_by_hash (\<lambda>s. series_gt s 1) obs_df hash_primary_pivot of
        Inl e \<Rightarrow> Inl e
      | Inr obs_duplicate_primary \<Rightarrow>
     (case loc_column (Str ''is_primary_data'') obs_duplicate_primary of
        Inl e \<Rightarrow> Inl e
      | Inr is_primary \<Rightarrow>
          Inr (mask_rows (series_eq is_primary (Bool True)) obs_duplicate_primary)))"

text \<open>
  \<^verbatim>\<open>
  datasets_with_dup_primary = (
      obs_duplicate_primary.value_counts(subset=["dataset_id"])
      .to_frame()
      .rename(columns={"count": "dup_cell_count"})
      .join(datasets_df.set_index("dataset_id"), on="dataset_id")
      .reset_index()
  )
  \<close>
  and the same for \<open>datasets_with_missing_primary\<close> from \<open>obs_missing_primary\<close>.
\<close>

definition datasets_with_cell :: "frame \<Rightarrow> frame \<Rightarrow> 'e pyerr + frame" where
  "datasets_with_cell report datasets_df =
     (case value_counts [Str ''dataset_id''] report of
        Inl e \<Rightarrow> Inl e
      | Inr counts \<Rightarrow>
     (case set_index (Str ''dataset_id'') datasets_df of
        Inl e \<Rightarrow> Inl e
      | Inr by_dataset \<Rightarrow>
     (case join_on (Str ''dataset_id'')
             (rename_column (Str ''count'') (Str ''dup_cell_count'') counts) by_dataset of
        Inl e \<Rightarrow> Inl e
      | Inr joined \<Rightarrow> reset_index joined)))"

subsection \<open>The whole notebook\<close>

text \<open>
  The cells in order. A cell that raises ends the run. The last cell of the notebook
  only displays, for each hash of \<open>obs_duplicate_primary\<close>, the datasets that hold
  it; it assigns no table and is left out.
\<close>

record notebook =
  nb_datasets_df :: frame
  nb_obs_df :: frame
  nb_hashes :: series
  nb_prog_value :: int
  hash_primary_pivot :: frame
  obs_missing_primary :: frame
  datasets_with_missing_primary :: frame
  obs_duplicate_primary :: frame
  datasets_with_dup_primary :: frame

definition finddups :: "('v, 'e) hashlib \<Rightarrow> ('v, 'e) census \<Rightarrow> 'e pyerr + notebook" where
  "finddups L census =
     (case hashing_cell L census of
        Inl e \<Rightarrow> Inl e
      | Inr h \<Rightarrow>
     (case hash_primary_pivot_cell (the_obs_df h) of
        Inl e \<Rightarrow> Inl e
      | Inr pivot \<Rightarrow>
     (case obs_missing_primary_cell (the_obs_df h) pivot of
        Inl e \<Rightarrow> Inl e
      | Inr missing \<Rightarrow>
     (case datasets_with_cell missing (the_datasets_df h) of
        Inl e \<Rightarrow> Inl e
      | Inr datasets_missing \<Rightarrow>
     (case obs_duplicate_primary_cell (the_obs_df h) pivot of
        Inl e \<Rightarrow> Inl e
      | Inr duplicate \<Rightarrow>
     (case datasets_with_cell duplicate (the_datasets_df h) of
        Inl e \<Rightarrow> Inl e
      | Inr datasets_dup \<Rightarrow>
          Inr \<lparr>nb_datasets_df = the_datasets_df h,
               nb_obs_df = the_obs_df h,
               nb_hashes = hashes (the_loop_state h),
               nb_prog_value = prog_value (the_loop_state h),
               hash_primary_pivot = pivot,
               obs_missing_primary = missing,
               datasets_with_missing_primary = datasets_missing,
               obs_duplicate_primary = duplicate,
               datasets_with_dup_primary = datasets_dup\<rparr>))))))"

subsection \<open>The table of hashed cells\<close>

text \<open>
  The form \<open>obs_df\<close> has once every cell carries a hash: the index is the
  \<open>soma_joinid\<close>, and the columns are \<open>hash\<close>, \<open>dataset_id\<close> and
  \<open>is_primary_data\<close>. \<open>primary_copies\<close> counts, for a hash, the cells of the table
  that have it and are marked primary.
\<close>

definition obs_row :: "obs_rec \<times> string \<Rightarrow> label \<times> val list" where
  "obs_row xh =
     (joinid_label (soma_joinid (fst xh)),
      [Str (snd xh), Str (obs_dataset_id (fst xh)), Bool (is_primary_data (fst xh))])"

definition obs_frame :: "(obs_rec \<times> string) list \<Rightarrow> frame" where
  "obs_frame xs =
     \<lparr>index_names = [Some (Str ''soma_joinid'')],
      columns = [Str ''hash'', Str ''dataset_id'', Str ''is_primary_data''],
      body = map obs_row xs\<rparr>"

definition primary_copies :: "(obs_rec \<times> string) list \<Rightarrow> string \<Rightarrow> nat" where
  "primary_copies xs h = length (filter (\<lambda>xh. snd xh = h \<and> is_primary_data (fst xh)) xs)"

text \<open>The cell of a pivot at a row label and a column label.\<close>

definition pivot_at :: "frame \<Rightarrow> val \<Rightarrow> val \<Rightarrow> val option" where
  "pivot_at p a b =
     (case (map_of (body p) [a], index_of b (columns p)) of
        (Some cells, Some i) \<Rightarrow> Some (cells ! i)
      | _ \<Rightarrow> None)"

text \<open>
  The group keys of \<open>value_counts(subset=["hash", "is_primary_data"])\<close> on that
  table, and the row and column labels of the pivot.
\<close>

definition hash_keys :: "(obs_rec \<times> string) list \<Rightarrow> label list" where
  "hash_keys xs = map (\<lambda>xh. [Str (snd xh), Bool (is_primary_data (fst xh))]) xs"

definition pivot_index :: "(obs_rec \<times> string) list \<Rightarrow> val list" where
  "pivot_index xs = sort (remdups (map (\<lambda>xh. Str (snd xh)) xs))"

definition pivot_columns :: "(obs_rec \<times> string) list \<Rightarrow> val list" where
  "pivot_columns xs = sort (remdups (map (\<lambda>xh. Bool (is_primary_data (fst xh))) xs))"

text \<open>
  The number of rows of a table of hashed cells that have the hash \<open>h\<close> and are marked
  primary, read off the table itself; and the metadata cells of a dataset, as
  \<open>datasets_df\<close> holds them next to its \<open>dataset_id\<close>.
\<close>

definition primary_count :: "frame \<Rightarrow> val \<Rightarrow> nat" where
  "primary_count f h =
     length (filter (\<lambda>row. snd row ! 0 = h \<and> snd row ! 2 = Bool True) (body f))"

definition dataset_metadata :: "dataset_rec \<Rightarrow> val list" where
  "dataset_metadata d =
     [Str (collection_id d), Str (collection_name d), Str (collection_doi d),
      Str (dataset_title d), Str (dataset_h5ad_path d),
      Num (of_nat (dataset_total_cell_count d))]"

text \<open>The form \<open>datasets_df\<close> has: the \<open>datasets\<close> table without its \<open>soma_joinid\<close>.\<close>

definition datasets_frame :: "dataset_rec list \<Rightarrow> frame" where
  "datasets_frame ds =
     \<lparr>index_names = [None],
      columns = [Str ''collection_id'', Str ''collection_name'', Str ''collection_doi'',
                 Str ''dataset_id'', Str ''dataset_title'', Str ''dataset_h5ad_path'',
                 Str ''dataset_total_cell_count''],
      body = zip (range_index (length ds))
               (map (\<lambda>d. [Str (collection_id d), Str (collection_name d), Str (collection_doi d),
                          Str (dataset_id d), Str (dataset_title d), Str (dataset_h5ad_path d),
                          Num (of_nat (dataset_total_cell_count d))]) ds)\<rparr>"

subsection \<open>A small census\<close>

text \<open>
  A store of one dataset and four cells in two chunks, and a stand-in for the digest that
  spells the bytes it is given. Cells 0, 1 and 2 store the values \<open>1, 2\<close> at different
  genes; cell 3 stores the value \<open>2\<close>. Cell 1 is not primary.
\<close>

definition small_hashlib :: "(int, string) hashlib" where
  "small_hashlib =
     \<lparr>tobytes = map word_of_int, buffer_bytes = map word_of_nat,
      xxh3_128_hexdigest =
        (\<lambda>bs. Inr (map (\<lambda>b. if b = 0 then CHR ''0'' else if b = 1 then CHR ''1'' else CHR ''2'') bs))\<rparr>"

definition small_census :: "(int, string) census" where
  "small_census =
     \<lparr>census_datasets =
        [\<lparr>ds_soma_joinid = 0, collection_id = ''c1'', collection_name = ''Lung'',
          collection_doi = ''doi1'', dataset_id = ''d1'', dataset_title = ''t1'',
          dataset_h5ad_path = ''d1.h5ad'', dataset_total_cell_count = 4\<rparr>],
      census_obs =
        [\<lparr>soma_joinid = 0, obs_dataset_id = ''d1'', is_primary_data = True\<rparr>,
         \<lparr>soma_joinid = 1, obs_dataset_id = ''d1'', is_primary_data = False\<rparr>,
         \<lparr>soma_joinid = 2, obs_dataset_id = ''d1'', is_primary_data = True\<rparr>,
         \<lparr>soma_joinid = 3, obs_dataset_id = ''d1'', is_primary_data = True\<rparr>],
      X_sparse_iter = (\<lambda>stride.
        [Inr (([0, 1], [0, 1, 2]),
              \<lparr>shape = (2, 3), data = [1, 2, 1, 2], indices = [0, 1, 0, 2], indptr = [0, 2, 4]\<rparr>),
         Inr (([2, 3], [0, 1, 2]),
              \<lparr>shape = (2, 3), data = [1, 2, 2], indices = [1, 2, 0], indptr = [0, 2, 3]\<rparr>)])\<rparr>"

section \<open>The CI workflow\<close>

text \<open>
  The workflow \<open>Python cellxgene_census package unit tests\<close> has three jobs. A job
  is a list of steps; a step either uses an action or runs the lines of a shell script,
  and may carry an \<open>if\<close> condition on the runner of the matrix. The \<open>with\<close>
  arguments of the actions are left out: they do not decide which steps run.
\<close>

datatype runner = ubuntu_latest | macos_latest | ubuntu_20_04

datatype action = Uses string | Run "string list"

record step =
  step_name :: string
  step_if :: "runner \<Rightarrow> bool"
  step_action :: action

record job =
  job_id :: string
  needs :: "string list"
  matrix_os :: "runner list"
  matrix_python_version :: "string list"
  steps :: "step list"

definition unit_tests_python_api :: job where
  "unit_tests_python_api =
     \<lparr>job_id = ''unit_tests_python_api'',
      needs = [],
      matrix_os = [ubuntu_latest, macos_latest],
      matrix_python_version = [''3.8'', ''3.9'', ''3.10'', ''3.11''],
      steps =
        [\<lparr>step_name = '''', step_if = (\<lambda>os. True),
          step_action = Uses ''actions/checkout@v3''\<rparr>,
         \<lparr>step_name = ''Set up Python ${{ matrix.python-version }}'', step_if = (\<lambda>os. True),
          step_action = Uses ''actions/setup-python@v4''\<rparr>,
         \<lparr>step_name = ''Install dependencies (including experimental)'', step_if = (\<lambda>os. True),
          step_action = Run
            [''python -m pip install -U pip setuptools wheel'',
             ''pip install --use-pep517 accumulation-tree # Geneformer dependency needs --use-pep517 for Cython'',
             ''pip install -r ./api/python/cellxgene_census/scripts/requirements-dev.txt'',
             ''pip install -e './api/python/cellxgene_census/[experimental]'' @ [CHR 0x27]]\<rparr>,
         \<lparr>step_name = ''Test with pytest (API, main tests)'', step_if = (\<lambda>os. True),
          step_action = Run
            [''PYTHONPATH=. coverage run --parallel-mode -m pytest -v -rP --durations=20 ./api/python/cellxgene_census/tests/'']\<rparr>,
         \<lparr>step_name = ''Test with pytest (API, experimental)'', step_if = (\<lambda>os. True),
          step_action = Run
            [''PYTHONPATH=. coverage run --parallel-mode -m pytest -v -rP --durations=20 --experimental ./api/python/cellxgene_census/tests/experimental'']\<rparr>,
         \<lparr>step_name = '''', step_if = (\<lambda>os. os = ubuntu_latest),
          step_action = Uses ''actions/upload-artifact@v3''\<rparr>]\<rparr>"

definition unit_tests_builder :: job where
  "unit_tests_builder =
     \<lparr>job_id = ''unit_tests_builder'',
      needs = [],
      matrix_os = [ubuntu_latest],
      matrix_python_version = [''3.10''],
      steps =
        [\<lparr>step_name = '''', step_if = (\<lambda>os. True),
          step_action = Uses ''actions/checkout@v3''\<rparr>,
         \<lparr>step_name = ''Set up Python ${{ matrix.python-version }}'', step_if = (\<lambda>os. True),
          step_action = Uses ''actions/setup-python@v4''\<rparr>,
         \<lparr>step_name = ''Install dependencies'', step_if = (\<lambda>os. True),
          step_action = Run
            [''python -m pip install -U pip setuptools wheel'',
             ''pip install -e ./tools/cellxgene_census_builder/'',
             ''pip install -r ./tools/scripts/requirements-dev.txt'']\<rparr>,
         \<lparr>step_name = ''Test with pytest (builder)'', step_if = (\<lambda>os. True),
          step_action = Run
            [''PYTHONPATH=. coverage run --parallel-mode -m pytest -v -rP ./tools/cellxgene_census_builder/tests/'']\<rparr>,
         \<lparr>step_name = '''', step_if = (\<lambda>os. True),
          step_action = Uses ''actions/upload-artifact@v3''\<rparr>]\<rparr>"

definition submit_codecoverage :: job where
  "submit_codecoverage =
     \<lparr>job_id = ''submit-codecoverage'',
      needs = [''unit_tests_builder'', ''unit_tests_python_api''],
      matrix_os = [ubuntu_20_04],
      matrix_python_version = [],
      steps =
        [\<lparr>step_name = '''', step_if = (\<lambda>os. True),
          step_action = Uses ''actions/checkout@v2''\<rparr>,
         \<lparr>step_name = '''', step_if = (\<lambda>os. True),
          step_action = Uses ''actions/download-artifact@v3''\<rparr>,
         \<lparr>step_name = '''', step_if = (\<lambda>os. True),
          step_action = Uses ''actions/setup-python@v4''\<rparr>,
         \<lparr>step_name = ''install requirements'', step_if = (\<lambda>os. True),
          step_action = Run [''pip install coverage'']\<rparr>,
         \<lparr>step_name = ''coverage report'', step_if = (\<lambda>os. True),
          step_action = Run [''coverage combine'', ''coverage xml'']\<rparr>,
         \<lparr>step_name = ''Upload coverage to Codecov'', step_if = (\<lambda>os. True),
          step_action = Uses ''codecov/codecov-action@v3''\<rparr>]\<rparr>"

definition workflow_jobs :: "job list" where
  "workflow_jobs = [unit_tests_python_api, unit_tests_builder, submit_codecoverage]"

subsection \<open>How a runner executes the steps of a job\<close>

text \<open>
  Whether a shell command exits with status zero and whether an action succeeds is
  decided outside the workflow: \<open>outcome\<close> gives both for one run of a job. The runner
  executes the steps in order. A \<open>run\<close> script is executed by \<open>bash -e\<close> and succeeds
  when each of its lines exits with zero. A step without \<open>continue-on-error\<close> that fails
  fails the job, and a step is skipped when its \<open>if\<close> condition is false. None of the
  steps sets \<open>continue-on-error\<close>, and no condition uses \<open>always()\<close> or
  \<open>failure()\<close>.
\<close>

record outcome =
  exits_zero :: "string \<Rightarrow> bool"
  action_succeeds :: "string \<Rightarrow> bool"

definition step_succeeds :: "outcome \<Rightarrow> step \<Rightarrow> bool" where
  "step_succeeds E s =
     (case step_action s of
        Uses a \<Rightarrow> action_succeeds E a
      | Run script \<Rightarrow> list_all (exits_zero E) script)"

fun run_steps :: "outcome \<Rightarrow> runner \<Rightarrow> step list \<Rightarrow> bool" where
  "run_steps E os [] = True"
| "run_steps E os (s # rest) =
     (if step_if s os then step_succeeds E s \<and> run_steps E os rest
      else run_steps E os rest)"

definition job_succeeds :: "outcome \<Rightarrow> runner \<Rightarrow> job \<Rightarrow> bool" where
  "job_succeeds E os j = run_steps E os (steps j)"

text \<open>The pytest invocations of a job: the script lines that call pytest.\<close>

fun contains :: "string \<Rightarrow> string \<Rightarrow> bool" where
  "contains p [] = (p = [])"
| "contains p (c # cs) = (take (length p) (c # cs) = p \<or> contains p cs)"

definition script_lines :: "job \<Rightarrow> string list" where
  "script_lines j =
     concat (map (\<lambda>s. case step_action s of Uses a \<Rightarrow> [] | Run script \<Rightarrow> script) (steps j))"

definition pytest_invocations :: "job \<Rightarrow> string list" where
  "pytest_invocations j = filter (contains ''pytest'') (script_lines j)"

section \<open>The statements of the two notebooks\<close>

text \<open>
  Both notebooks are straight-line scripts over third-party libraries. Their code cells
  are written down here statement by statement, as syntax trees, and the calls a
  notebook makes are computed from the trees: the calls the text spells out, and the
  calls that Python makes for a construct (\<open>__enter__\<close> and \<open>__exit__\<close> for a
  \<open>with\<close>, \<open>__iter__\<close> and \<open>__next__\<close> for a \<open>for\<close>, \<open>__getitem__\<close> for a
  subscript, the method behind an operator).

  Every node that reaches into an object names the library that defines the method or
  attribute reached: the library of the object's class, or of the base class the object
  inherits it from. A keyword argument keeps its name (\<open>Kw\<close>); a literal keeps its text; a list, a
  tuple, a dict and an f-string are the sequence of their parts (\<open>Items\<close>).
\<close>

datatype library =
  cellxgene_census | tiledbsoma | pyarrow | pandas | numpy | scipy | xxhash_lib | ipywidgets
  | IPython | torch | sklearn | python_builtin | notebook

datatype expr =
    Name string
  | Lit string
  | Items "expr list"
  | Kw string expr
  | Call library string "expr list"
  | Method library expr string "expr list"
  | Attr library expr string
  | Subscript library expr "expr list"
  | Op library string expr expr
  | Builtin string library string "expr list"
  | Walrus string expr
  | IfExp expr expr expr

datatype stmt =
    Import string
  | Assign "string list" expr
  | AnnAssign string expr expr
  | AugAssign string expr
  | SetItem library expr "expr list" expr
  | SetAttr library expr string expr
  | AugAttr library expr string expr
  | Expr expr
  | Show expr
  | Return expr
  | With library expr string "stmt list"
  | For library "string list" expr "stmt list"
  | Def string "string list" "stmt list"
  | Class string "expr list" "stmt list"

text \<open>
  \<^item> \<open>Call l f args\<close> is the call of the function or constructor \<open>f\<close> of \<open>l\<close>;
    \<open>Method l e m args\<close> is \<open>e.m(args)\<close> and \<open>Attr l e a\<close> is \<open>e.a\<close>, for an
    object \<open>e\<close> of \<open>l\<close>; calling an object is its method \<open>__call__\<close>.
  \<^item> \<open>Builtin f l d args\<close> is the built-in \<open>f\<close> (\<open>len\<close>, \<open>iter\<close>, \<open>next\<close>,
    \<open>enumerate\<close>) on an object of \<open>l\<close>, which calls the object's method \<open>d\<close>.
  \<^item> \<open>Show e\<close> is an expression that ends a cell: the notebook displays its value.
  \<^item> \<open>SetItem l e key v\<close> is \<open>e[key] = v\<close>, \<open>SetAttr l e a v\<close> is \<open>e.a = v\<close> and
    \<open>AugAttr l e a v\<close> is \<open>e.a += v\<close>, which reads and then sets \<open>a\<close>.
  \<^item> \<open>With l e x block\<close> is \<open>with e as x: block\<close> and \<open>For l xs e block\<close> is
    \<open>for xs in e: block\<close>, for a context manager and an iterable of \<open>l\<close>.
\<close>

record call =
  lib :: library
  callee :: string

fun calls_of :: "expr \<Rightarrow> call list" where
  "calls_of (Name x) = []"
| "calls_of (Lit t) = []"
| "calls_of (Items es) = concat (map calls_of es)"
| "calls_of (Kw k e) = calls_of e"
| "calls_of (Call l f args) = concat (map calls_of args) @ [\<lparr>lib = l, callee = f\<rparr>]"
| "calls_of (Method l e m args) =
     calls_of e @ concat (map calls_of args) @ [\<lparr>lib = l, callee = m\<rparr>]"
| "calls_of (Attr l e a) = calls_of e @ [\<lparr>lib = l, callee = a\<rparr>]"
| "calls_of (Subscript l e key) =
     calls_of e @ concat (map calls_of key) @ [\<lparr>lib = l, callee = ''__getitem__''\<rparr>]"
| "calls_of (Op l d a b) = calls_of a @ calls_of b @ [\<lparr>lib = l, callee = d\<rparr>]"
| "calls_of (Builtin f l d args) =
     concat (map calls_of args) @ [\<lparr>lib = python_builtin, callee = f\<rparr>, \<lparr>lib = l, callee = d\<rparr>]"
| "calls_of (Walrus x e) = calls_of e"
| "calls_of (IfExp c a b) = calls_of c @ calls_of a @ calls_of b"

fun calls :: "stmt \<Rightarrow> call list" where
  "calls (Import m) = []"
| "calls (Assign xs e) = calls_of e"
| "calls (AnnAssign x ann e) = calls_of ann @ calls_of e"
| "calls (AugAssign x e) = calls_of e"
| "calls (SetItem l e key v) =
     calls_of e @ concat (map calls_of key) @ calls_of v @ [\<lparr>lib = l, callee = ''__setitem__''\<rparr>]"
| "calls (SetAttr l e a v) = calls_of e @ calls_of v @ [\<lparr>lib = l, callee = ''__setattr__''\<rparr>]"
| "calls (AugAttr l e a v) =
     calls_of e @ [\<lparr>lib = l, callee = a\<rparr>] @ calls_of v @ [\<lparr>lib = l, callee = ''__setattr__''\<rparr>]"
| "calls (Expr e) = calls_of e"
| "calls (Show e) = calls_of e @ [\<lparr>lib = IPython, callee = ''displayhook''\<rparr>]"
| "calls (Return e) = calls_of e"
| "calls (With l e x block) =
     calls_of e @ [\<lparr>lib = l, callee = ''__enter__''\<rparr>] @ concat (map calls block)
     @ [\<lparr>lib = l, callee = ''__exit__''\<rparr>]"
| "calls (For l xs e block) =
     calls_of e @ [\<lparr>lib = l, callee = ''__iter__''\<rparr>, \<lparr>lib = l, callee = ''__next__''\<rparr>]
     @ concat (map calls block)"
| "calls (Def f xs block) = concat (map calls block)"
| "calls (Class c bases block) = concat (map calls_of bases) @ concat (map calls block)"

subsection \<open>The find-duplicate-cells notebook\<close>

text \<open>
  The code cells of \<open>finddups.ipynb\<close> in order. \<open>display\<close> is IPython's, which a
  notebook has without an import. \<open>census\<close> is the \<open>tiledbsoma\<close> collection that
  \<open>open_soma\<close> returns, \<open>query\<close> the \<open>tiledbsoma\<close> axis query, and what
  \<open>read()\<close> and \<open>obs()\<close> return are \<open>tiledbsoma\<close> readers whose \<open>concat()\<close> gives
  a \<open>pyarrow\<close> table. What \<open>X_sparse_iter\<close> returns, a function of
  \<open>cellxgene_census\<close>, is iterated by the \<open>for\<close>; the chunk it yields holds a
  \<open>numpy\<close> array of join ids and a \<open>scipy\<close> matrix.
\<close>

definition finddups_notebook :: "stmt list" where
  "finddups_notebook =
     [Import ''math'',
      Import ''xxhash'',
      Import ''typing.Literal'',
      Import ''ipywidgets'',
      Import ''cellxgene_census'',
      Import ''numpy'',
      Import ''pandas'',
      Import ''cellxgene_census.experimental.util.X_sparse_iter'',
      Expr (Lit ''Configuration''),
      AnnAssign ''census_version'' (Name ''str'') (Lit ''2023-07-25''),
      AnnAssign ''experiment''
        (Subscript python_builtin (Name ''Literal'') [Lit ''mus_musculus'', Lit ''homo_sapiens''])
        (Lit ''homo_sapiens''),
      \<comment> \<open>the hashing cell\<close>
      Expr (Lit ''Open Census''),
      Assign [''row_stride''] (Lit ''250_000''),
      With tiledbsoma
        (Call cellxgene_census ''open_soma'' [Kw ''census_version'' (Name ''census_version'')])
        ''census''
        [Assign [''datasets_df'']
           (Method pandas
              (Method pyarrow
                 (Method tiledbsoma
                    (Method tiledbsoma
                       (Subscript tiledbsoma
                          (Subscript tiledbsoma (Name ''census'') [Lit ''census_info''])
                          [Lit ''datasets''])
                       ''read'' [])
                    ''concat'' [])
                 ''to_pandas'' [])
              ''drop'' [Kw ''columns'' (Items [Lit ''soma_joinid''])]),
         Assign [''exp'']
           (Subscript tiledbsoma
              (Subscript tiledbsoma (Name ''census'') [Lit ''census_data''])
              [Name ''experiment'']),
         With tiledbsoma
           (Method tiledbsoma (Name ''exp'') ''axis_query'' [Kw ''measurement_name'' (Lit ''RNA'')])
           ''query''
           [Expr (Call IPython ''display''
              [Walrus ''prog''
                 (Call ipywidgets ''IntProgress''
                    [Kw ''value'' (Lit ''0''),
                     Kw ''min'' (Lit ''0''),
                     Kw ''max''
                       (Call python_builtin ''math.ceil''
                          [Op python_builtin ''__truediv__''
                             (Attr tiledbsoma (Name ''query'') ''n_obs'') (Name ''row_stride'')]),
                     Kw ''description'' (Lit ''Hashing:'')])]),
            Assign [''obs_df'']
              (Method pandas
                 (Method pyarrow
                    (Method tiledbsoma
                       (Method tiledbsoma (Name ''query'') ''obs''
                          [Kw ''column_names''
                             (Items [Lit ''dataset_id'', Lit ''soma_joinid'',
                                     Lit ''is_primary_data''])])
                       ''concat'' [])
                    ''to_pandas'' [])
                 ''set_index'' [Lit ''soma_joinid'']),
            Assign [''hashes'']
              (Call pandas ''Series''
                 [Kw ''data''
                    (Call numpy ''full''
                       [Items [Builtin ''len'' pandas ''__len__'' [Name ''obs_df'']], Lit '''']),
                  Kw ''index'' (Attr pandas (Name ''obs_df'') ''index'')]),
            For cellxgene_census [''obs_soma_joinids_chunk'', ''_'', ''X_chunk'']
              (Call cellxgene_census ''X_sparse_iter''
                 [Name ''query'', Kw ''X_name'' (Lit ''raw''), Kw ''stride'' (Name ''row_stride'')])
              [For python_builtin [''r'', ''row_soma_joinid'']
                 (Builtin ''enumerate'' numpy ''__iter__'' [Name ''obs_soma_joinids_chunk''])
                 [Assign [''X_row''] (Method scipy (Name ''X_chunk'') ''getrow'' [Name ''r'']),
                  Assign [''hash'']
                    (Call xxhash_lib ''xxh3_128''
                       [Method numpy (Attr scipy (Name ''X_row'') ''data'') ''tobytes'' []]),
                  Expr (Method xxhash_lib (Name ''hash'') ''update''
                          [Attr scipy (Name ''X_row'') ''indptr'']),
                  SetItem pandas (Attr pandas (Name ''hashes'') ''at'') [Name ''row_soma_joinid'']
                    (Method xxhash_lib (Name ''hash'') ''hexdigest'' [])],
               AugAttr ipywidgets (Name ''prog'') ''value'' (Lit ''1'')],
            Expr (Method pandas (Name ''obs_df'') ''insert''
                    [Lit ''0'', Lit ''hash'', Name ''hashes''])]],
      \<comment> \<open>\<open>hash_primary_pivot\<close>\<close>
      Expr (Lit ''Compute a summary pivot''),
      Assign [''hash_primary_pivot'']
        (Method pandas
           (Method pandas
              (Method pandas (Name ''obs_df'') ''value_counts''
                 [Kw ''subset'' (Items [Lit ''hash'', Lit ''is_primary_data''])])
              ''to_frame'' [])
           ''reset_index'' []),
      Show (Name ''hash_primary_pivot''),
      Assign [''hash_primary_pivot'']
        (Method pandas (Name ''hash_primary_pivot'') ''pivot_table''
           [Kw ''index'' (Lit ''hash''), Kw ''columns'' (Lit ''is_primary_data''),
            Kw ''values'' (Lit ''0''), Kw ''fill_value'' (Lit ''0'')]),
      \<comment> \<open>\<open>obs_missing_primary\<close>\<close>
      Expr (Lit ''Case 1''),
      Assign [''obs_missing_primary'']
        (Method pandas
           (Method pandas
              (Subscript pandas
                 (Attr pandas
                    (Method pandas
                       (Method pandas (Name ''obs_df'') ''reset_index'' [])
                       ''set_index'' [Lit ''hash''])
                    ''loc'')
                 [Attr pandas
                    (Subscript pandas (Name ''hash_primary_pivot'')
                       [Op pandas ''__eq__''
                          (Subscript pandas (Attr pandas (Name ''hash_primary_pivot'') ''loc'')
                             [Lit '':'', Lit ''True''])
                          (Lit ''0'')])
                    ''index''])
              ''reset_index'' [])
           ''set_index'' [Lit ''soma_joinid'']),
      Show (Name ''obs_missing_primary''),
      \<comment> \<open>\<open>datasets_with_missing_primary\<close>\<close>
      Expr (Lit ''Datasets containing a hash that lacks any copies''),
      Assign [''datasets_with_missing_primary'']
        (Method pandas
           (Method pandas
              (Method pandas
                 (Method pandas
                    (Method pandas (Name ''obs_missing_primary'') ''value_counts''
                       [Kw ''subset'' (Items [Lit ''dataset_id''])])
                    ''to_frame'' [])
                 ''rename'' [Kw ''columns'' (Items [Lit ''count'', Lit ''dup_cell_count''])])
              ''join''
              [Method pandas (Name ''datasets_df'') ''set_index'' [Lit ''dataset_id''],
               Kw ''on'' (Lit ''dataset_id'')])
           ''reset_index'' []),
      Show (Name ''datasets_with_missing_primary''),
      \<comment> \<open>\<open>obs_duplicate_primary\<close>\<close>
      Expr (Lit ''Case 2''),
      Assign [''obs_duplicate_primary'']
        (Method pandas
           (Method pandas
              (Subscript pandas
                 (Attr pandas
                    (Method pandas
                       (Method pandas (Name ''obs_df'') ''reset_index'' [])
                       ''set_index'' [Lit ''hash''])
                    ''loc'')
                 [Attr pandas
                    (Subscript pandas (Name ''hash_primary_pivot'')
                       [Op pandas ''__gt__''
                          (Subscript pandas (Attr pandas (Name ''hash_primary_pivot'') ''loc'')
                             [Lit '':'', Lit ''True''])
                          (Lit ''1'')])
                    ''index''])
              ''reset_index'' [])
           ''set_index'' [Lit ''soma_joinid'']),
      Assign [''obs_duplicate_primary'']
        (Subscript pandas (Name ''obs_duplicate_primary'')
           [Op pandas ''__eq__''
              (Attr pandas (Name ''obs_duplicate_primary'') ''is_primary_data'')
              (Lit ''True'')]),
      Show (Name ''obs_duplicate_primary''),
      \<comment> \<open>\<open>datasets_with_dup_primary\<close>\<close>
      Expr (Lit ''Datasets with duplicate cells marked primary''),
      Assign [''datasets_with_dup_primary'']
        (Method pandas
           (Method pandas
              (Method pandas
                 (Method pandas
                    (Method pandas (Name ''obs_duplicate_primary'') ''value_counts''
                       [Kw ''subset'' (Items [Lit ''dataset_id''])])
                    ''to_frame'' [])
                 ''rename'' [Kw ''columns'' (Items [Lit ''count'', Lit ''dup_cell_count''])])
              ''join''
              [Method pandas (Name ''datasets_df'') ''set_index'' [Lit ''dataset_id''],
               Kw ''on'' (Lit ''dataset_id'')])
           ''reset_index'' []),
      Show (Name ''datasets_with_dup_primary''),
      \<comment> \<open>\<open>overlapping_dup_datasets\<close>\<close>
      Expr (Lit ''For each duplicated hash''),
      Assign [''overlapping_dup_datasets'']
        (Call numpy ''unique''
           [Method pandas
              (Method pandas
                 (Subscript pandas
                    (Method pandas (Name ''obs_duplicate_primary'') ''sort_values''
                       [Lit ''dataset_id''])
                    [Items [Lit ''hash'', Lit ''dataset_id'']])
                 ''groupby'' [Kw ''by'' (Lit ''hash'')])
              ''agg'' [Name ''list'']]),
      Expr (Call IPython ''display'' [Name ''overlapping_dup_datasets'']),
      For numpy [''d''] (Name ''overlapping_dup_datasets'')
        [Expr (Call IPython ''display''
           [Subscript pandas
              (Attr pandas
                 (Method pandas (Name ''datasets_df'') ''set_index'' [Lit ''dataset_id''])
                 ''loc'')
              [Name ''d'']])]]"

subsection \<open>The PyTorch tutorial\<close>

text \<open>
  The code cells of the tutorial in order. \<open>census\<close> and \<open>experiment\<close> are
  \<open>tiledbsoma\<close> objects and \<open>experiment_datapipe\<close> is the \<open>cellxgene_census\<close> data
  pipe. \<open>random_split\<close> and \<open>shuffle\<close> are the functional forms that PyTorch's data
  library registers for every data pipe (the notebook calls them PyTorch's
  \<open>RandomSplitter\<close> and \<open>Shuffler\<close>); what they return, and the data loader that
  \<open>experiment_dataloader\<close> returns, are PyTorch objects. The encoders of
  \<open>obs_encoders\<close> are scikit-learn label encoders in a dict. \<open>LogisticRegression\<close>
  and \<open>train_epoch\<close> are defined in the notebook.
\<close>

definition pytorch_notebook :: "stmt list" where
  "pytorch_notebook =
     [Import ''cellxgene_census'',
      Assign [''census''] (Call cellxgene_census ''open_soma'' []),
      Import ''cellxgene_census.experimental.ml'',
      Import ''tiledbsoma'',
      Assign [''experiment'']
        (Subscript tiledbsoma
           (Subscript tiledbsoma (Name ''census'') [Lit ''census_data''])
           [Lit ''homo_sapiens'']),
      Assign [''experiment_datapipe'']
        (Call cellxgene_census ''ExperimentDataPipe''
           [Name ''experiment'',
            Kw ''measurement_name'' (Lit ''RNA''),
            Kw ''X_name'' (Lit ''raw''),
            Kw ''obs_query''
              (Call tiledbsoma ''AxisQuery''
                 [Kw ''value_filter'' (Lit ''tissue_general == 'tongue' and is_primary_data == True'')]),
            Kw ''obs_column_names'' (Items [Lit ''cell_type'']),
            Kw ''batch_size'' (Lit ''16'')]),
      Show (Attr cellxgene_census (Name ''experiment_datapipe'') ''shape''),
      Assign [''train_datapipe'', ''validation_datapipe'', ''test_datapipe'']
        (Method torch (Name ''experiment_datapipe'') ''random_split''
           [Kw ''weights''
              (Items [Lit ''train'', Lit ''0.8'', Lit ''validation'', Lit ''0.1'', Lit ''test'',
                      Lit ''0.1'']),
            Kw ''seed'' (Lit ''1'')]),
      Assign [''shuffled_train_datapipe''] (Method torch (Name ''train_datapipe'') ''shuffle'' []),
      Assign [''experiment_dataloader'']
        (Call cellxgene_census ''experiment_dataloader'' [Name ''shuffled_train_datapipe'']),
      Import ''numpy'',
      Import ''torch'',
      Class ''LogisticRegression'' [Name ''torch.nn.Module'']
        [Def ''__init__'' [''self'', ''input_dim'', ''output_dim'']
           [Expr (Method torch
                    (Call python_builtin ''super'' [Name ''LogisticRegression'', Name ''self''])
                    ''__init__'' []),
            SetAttr torch (Name ''self'') ''linear''
              (Call torch ''nn.Linear'' [Name ''input_dim'', Name ''output_dim''])],
         Def ''forward'' [''self'', ''x'']
           [Assign [''outputs'']
              (Call torch ''sigmoid''
                 [Method torch (Attr torch (Name ''self'') ''linear'') ''__call__'' [Name ''x'']]),
            Return (Name ''outputs'')]],
      Def ''train_epoch'' [''model'', ''train_dataloader'', ''loss_fn'', ''optimizer'', ''device'']
        [Expr (Method torch (Name ''model'') ''train'' []),
         Assign [''train_loss''] (Lit ''0''),
         Assign [''train_correct''] (Lit ''0''),
         Assign [''train_total''] (Lit ''0''),
         For torch [''batch''] (Name ''train_dataloader'')
           [Expr (Method torch (Name ''optimizer'') ''zero_grad'' []),
            Assign [''X_batch'', ''y_batch''] (Name ''batch''),
            Assign [''X_batch'']
              (Method torch (Method torch (Name ''X_batch'') ''float'' []) ''to'' [Name ''device'']),
            Assign [''outputs''] (Method torch (Name ''model'') ''__call__'' [Name ''X_batch'']),
            Assign [''probabilities'']
              (Call torch ''nn.functional.softmax'' [Name ''outputs'', Lit ''1'']),
            Assign [''predictions'']
              (Method torch
                 (Call torch ''argmax'' [Name ''probabilities'', Kw ''axis'' (Lit ''1'')])
                 ''cpu'' []),
            Assign [''y_batch''] (Subscript torch (Name ''y_batch'') [Lit '':'', Lit ''1'']),
            Assign [''y_batch'']
              (Method torch (Method torch (Name ''y_batch'') ''to'' [Name ''device'']) ''cpu'' []),
            AugAssign ''train_correct''
              (Method torch
                 (Method torch
                    (Op torch ''__eq__'' (Name ''predictions'') (Name ''y_batch''))
                    ''sum'' [])
                 ''item'' []),
            AugAssign ''train_total'' (Builtin ''len'' torch ''__len__'' [Name ''predictions'']),
            Assign [''loss'']
              (Method torch (Name ''loss_fn'') ''__call__''
                 [Name ''outputs'', Method torch (Name ''y_batch'') ''long'' []]),
            AugAssign ''train_loss'' (Method torch (Name ''loss'') ''item'' []),
            Expr (Method torch (Name ''loss'') ''backward'' []),
            Expr (Method torch (Name ''optimizer'') ''step'' [])],
         AugAssign ''train_loss'' (Name ''train_total''),
         Assign [''train_accuracy'']
           (Op python_builtin ''__truediv__'' (Name ''train_correct'') (Name ''train_total'')),
         Return (Items [Name ''train_loss'', Name ''train_accuracy''])],
      Assign [''RANDOM_SEED''] (Lit ''12345''),
      Expr (Call numpy ''random.seed'' [Name ''RANDOM_SEED'']),
      Expr (Call torch ''manual_seed'' [Name ''RANDOM_SEED'']),
      Assign [''device'']
        (IfExp (Call torch ''cuda.is_available'' [])
           (Call torch ''device'' [Lit ''cuda''])
           (Call torch ''device'' [Lit ''cpu''])),
      Assign [''input_dim'']
        (Subscript python_builtin
           (Attr cellxgene_census (Name ''experiment_datapipe'') ''shape'') [Lit ''1'']),
      Assign [''cell_type_encoder'']
        (Subscript python_builtin
           (Attr cellxgene_census (Name ''experiment_datapipe'') ''obs_encoders'')
           [Lit ''cell_type'']),
      Assign [''output_dim'']
        (Builtin ''len'' numpy ''__len__''
           [Attr sklearn (Name ''cell_type_encoder'') ''classes_'']),
      Assign [''model'']
        (Method torch
           (Call notebook ''LogisticRegression'' [Name ''input_dim'', Name ''output_dim''])
           ''to'' [Name ''device'']),
      Assign [''loss_fn''] (Call torch ''nn.CrossEntropyLoss'' []),
      Assign [''optimizer'']
        (Call torch ''optim.SGD''
           [Method torch (Name ''model'') ''parameters'' [], Kw ''lr'' (Lit ''1e-4'')]),
      For python_builtin [''epoch''] (Call python_builtin ''range'' [Lit ''5''])
        [Assign [''train_loss'', ''train_accuracy'']
           (Call notebook ''train_epoch''
              [Name ''model'', Name ''experiment_dataloader'', Name ''loss_fn'',
               Name ''optimizer'', Name ''device'']),
         Expr (Call python_builtin ''print''
           [Items [Op python_builtin ''__add__'' (Name ''epoch'') (Lit ''1''),
                   Name ''train_loss'', Name ''train_accuracy'']])],
      Assign [''experiment_dataloader'']
        (Call cellxgene_census ''experiment_dataloader'' [Name ''test_datapipe'']),
      Assign [''X_batch'', ''y_batch'']
        (Builtin ''next'' torch ''__next__''
           [Builtin ''iter'' torch ''__iter__'' [Name ''experiment_dataloader'']]),
      Expr (Method torch (Name ''model'') ''eval'' []),
      Assign [''outputs'']
        (Method torch (Name ''model'') ''__call__''
           [Method torch (Name ''X_batch'') ''float'' []]),
      Assign [''probabilities'']
        (Call torch ''nn.functional.softmax'' [Name ''outputs'', Lit ''1'']),
      Assign [''predictions'']
        (Method torch
           (Call torch ''argmax'' [Name ''probabilities'', Kw ''axis'' (Lit ''1'')])
           ''cpu'' []),
      Show (Name ''predictions''),
      Assign [''cell_type_encoder'']
        (Subscript python_builtin
           (Attr cellxgene_census (Name ''experiment_datapipe'') ''obs_encoders'')
           [Lit ''cell_type'']),
      Assign [''predicted_cell_types'']
        (Method sklearn (Name ''cell_type_encoder'') ''inverse_transform'' [Name ''predictions'']),
      Show (Name ''predicted_cell_types''),
      Import ''pandas'',
      Show (Call pandas ''DataFrame''
        [Items
           [Lit ''actual cell type'',
            Method sklearn (Name ''cell_type_encoder'') ''inverse_transform''
              [Method torch
                 (Subscript torch (Name ''y_batch'') [Lit '':'', Lit ''1''])
                 ''numpy'' []],
            Lit ''predicted cell type'',
            Name ''predicted_cell_types'']])]"

subsection \<open>The calls of a notebook\<close>

definition finddups_calls :: "call list" where
  "finddups_calls = concat (map calls finddups_notebook)"

definition pytorch_calls :: "call list" where
  "pytorch_calls = concat (map calls pytorch_notebook)"

text \<open>The calls into the Census and SOMA API, and the names they call.\<close>

definition census_api_calls :: "call list \<Rightarrow> call list" where
  "census_api_calls cs = filter (\<lambda>c. lib c = cellxgene_census \<or> lib c = tiledbsoma) cs"

definition entry_points :: "call list \<Rightarrow> string list" where
  "entry_points cs = remdups (map callee (census_api_calls cs))"

definition documented_entry_points :: "string list" where
  "documented_entry_points =
     [''open_soma'', ''axis_query'', ''ExperimentDataPipe'', ''experiment_dataloader'']"

subsection \<open>What a notebook does to one of its variables\<close>

text \<open>
  \<open>uses x\<close> lists, in the order of the text, what the statements apply to the variable
  \<open>x\<close> itself: the methods called on it and the attributes read from it, the
  operations Python makes on it for a construct, the calls it is passed to as an
  argument (\<open>argument of f\<close>), and \<open>alias\<close> where it is assigned to another name.
  \<open>bound\<close> lists the names the statements bind.
\<close>

fun direct :: "string \<Rightarrow> expr \<Rightarrow> bool" where
  "direct x (Name y) = (x = y)"
| "direct x (Kw k e) = direct x e"
| "direct x (Items es) = list_ex (direct x) es"
| "direct x (Walrus y e) = direct x e"
| "direct x (IfExp c a b) = (direct x a \<or> direct x b)"
| "direct x e = False"

fun uses_of :: "string \<Rightarrow> expr \<Rightarrow> string list" where
  "uses_of x (Name y) = []"
| "uses_of x (Lit t) = []"
| "uses_of x (Items es) = concat (map (uses_of x) es)"
| "uses_of x (Kw k e) = uses_of x e"
| "uses_of x (Call l f args) =
     concat (map (uses_of x) args)
     @ (if list_ex (direct x) args then [''argument of '' @ f] else [])"
| "uses_of x (Method l e m args) =
     uses_of x e @ concat (map (uses_of x) args)
     @ (if direct x e then [m] else [])
     @ (if list_ex (direct x) args then [''argument of '' @ m] else [])"
| "uses_of x (Attr l e a) = uses_of x e @ (if direct x e then [a] else [])"
| "uses_of x (Subscript l e key) =
     uses_of x e @ concat (map (uses_of x) key)
     @ (if direct x e then [''__getitem__''] else [])
     @ (if list_ex (direct x) key then [''argument of __getitem__''] else [])"
| "uses_of x (Op l d a b) =
     uses_of x a @ uses_of x b @ (if direct x a \<or> direct x b then [d] else [])"
| "uses_of x (Builtin f l d args) =
     concat (map (uses_of x) args) @ (if list_ex (direct x) args then [d] else [])"
| "uses_of x (Walrus y e) = uses_of x e"
| "uses_of x (IfExp c a b) = uses_of x c @ uses_of x a @ uses_of x b"

fun uses :: "string \<Rightarrow> stmt \<Rightarrow> string list" where
  "uses x (Import m) = []"
| "uses x (Assign ys e) = uses_of x e @ (if direct x e then [''alias''] else [])"
| "uses x (AnnAssign y ann e) = uses_of x ann @ uses_of x e @ (if direct x e then [''alias''] else [])"
| "uses x (AugAssign y e) = uses_of x e"
| "uses x (SetItem l e key v) =
     uses_of x e @ concat (map (uses_of x) key) @ uses_of x v
     @ (if direct x e then [''__setitem__''] else [])
     @ (if list_ex (direct x) key \<or> direct x v then [''argument of __setitem__''] else [])"
| "uses x (SetAttr l e a v) =
     uses_of x e @ uses_of x v
     @ (if direct x e then [''__setattr__''] else [])
     @ (if direct x v then [''argument of __setattr__''] else [])"
| "uses x (AugAttr l e a v) =
     uses_of x e @ uses_of x v
     @ (if direct x e then [a, ''__setattr__''] else [])
     @ (if direct x v then [''argument of __setattr__''] else [])"
| "uses x (Expr e) = uses_of x e"
| "uses x (Show e) = uses_of x e @ (if direct x e then [''displayhook''] else [])"
| "uses x (Return e) = uses_of x e"
| "uses x (With l e y block) =
     uses_of x e @ (if direct x e then [''__enter__'', ''__exit__''] else [])
     @ concat (map (uses x) block)"
| "uses x (For l ys e block) =
     uses_of x e @ (if direct x e then [''__iter__'', ''__next__''] else [])
     @ concat (map (uses x) block)"
| "uses x (Def f ys block) = concat (map (uses x) block)"
| "uses x (Class c bases block) = concat (map (uses_of x) bases) @ concat (map (uses x) block)"

fun bound_in :: "expr \<Rightarrow> string list" where
  "bound_in (Walrus y e) = y # bound_in e"
| "bound_in (Items es) = concat (map bound_in es)"
| "bound_in (Kw k e) = bound_in e"
| "bound_in (Call l f args) = concat (map bound_in args)"
| "bound_in (Method l e m args) = bound_in e @ concat (map bound_in args)"
| "bound_in (Attr l e a) = bound_in e"
| "bound_in (Subscript l e key) = bound_in e @ concat (map bound_in key)"
| "bound_in (Op l d a b) = bound_in a @ bound_in b"
| "bound_in (Builtin f l d args) = concat (map bound_in args)"
| "bound_in (IfExp c a b) = bound_in c @ bound_in a @ bound_in b"
| "bound_in e = []"

fun bound :: "stmt \<Rightarrow> string list" where
  "bound (Import m) = []"
| "bound (Assign ys e) = bound_in e @ ys"
| "bound (AnnAssign y ann e) = bound_in e @ [y]"
| "bound (AugAssign y e) = bound_in e @ [y]"
| "bound (SetItem l e key v) = bound_in e @ concat (map bound_in key) @ bound_in v"
| "bound (SetAttr l e a v) = bound_in e @ bound_in v"
| "bound (AugAttr l e a v) = bound_in e @ bound_in v"
| "bound (Expr e) = bound_in e"
| "bound (Show e) = bound_in e"
| "bound (Return e) = bound_in e"
| "bound (With l e y block) = bound_in e @ [y] @ concat (map bound block)"
| "bound (For l ys e block) = bound_in e @ ys @ concat (map bound block)"
| "bound (Def f ys block) = [f]"
| "bound (Class c bases block) = [c]"

section \<open>Properties of \<open>train_epoch\<close>\<close>







lemma train_batch_Rank1:
  "\<exists>e. train_batch T s (Rank1 c) = Inl e \<and> (e = IndexError \<or> (\<exists>e'. e = LibraryError e'))"
  by (simp split: sum.splits)











section \<open>Properties of the per-cell hash\<close>







section \<open>Properties of the hashing loop\<close>

subsection \<open>Exceptions\<close>

lemma hash_rows_error:
  fixes L :: "('v, 'e) hashlib"
  assumes "hash_rows L X r js s = Inl x"
  shows "(x = IndexError \<and> fst (shape X) < r + length js) \<or>
         (\<exists>e bs. x = LibraryError e \<and> xxh3_128_hexdigest L bs = Inl e)"
  using assms
proof (induction js arbitrary: r s)
  case Nil
  then show ?case by simp
next
  case (Cons j js)
  show ?case
  proof (cases "getrow X r :: 'e pyerr + 'v csr_matrix")
    case (Inl e)
    with Cons.prems have "x = e" by simp
    moreover from Inl have "e = IndexError \<and> fst (shape X) \<le> r"
      by (auto simp: getrow_def Let_def split: if_splits)
    ultimately show ?thesis by simp
  next
    case (Inr X_row)
    show ?thesis
    proof (cases "row_hash L X_row")
      case (Inl e)
      with Inr Cons.prems have "x = e" by simp
      moreover from Inl obtain e' where "e = LibraryError e'"
        "xxh3_128_hexdigest L (tobytes L (data X_row) @ buffer_bytes L (indptr X_row)) = Inl e'"
        by (auto simp: row_hash_def split: sum.splits)
      ultimately show ?thesis by blast
    next
      case (Inr h)
      with \<open>getrow X r = Inr X_row\<close> Cons.prems
      have "hash_rows L X (Suc r) js
              (s\<lparr>hashes := series_set_at (hashes s) (joinid_label j) (Str h),
                 trace := trace s @ [Hashed j h]\<rparr>) = Inl x"
        by simp
      from Cons.IH [OF this] show ?thesis by auto
    qed
  qed
qed

lemma hashing_loop_error:
  fixes L :: "('v, 'e) hashlib"
  assumes "hashing_loop L it s = Inl x"
  shows "(x = IndexError \<and>
           (\<exists>ids vs X. Inr ((ids, vs), X) \<in> set it \<and> fst (shape X) < length ids)) \<or>
         (\<exists>e. x = LibraryError e \<and>
           (Inl e \<in> set it \<or> (\<exists>bs. xxh3_128_hexdigest L bs = Inl e)))"
  using assms
proof (induction L it s rule: hashing_loop.induct)
  case (1 L s)
  then show ?case by simp
next
  case (2 L e rest s)
  then show ?case by auto
next
  case (3 L ids vs X rest s)
  show ?case
  proof (cases "hash_rows L X 0 ids s")
    case (Inl e)
    with 3 have "x = e" by simp
    with hash_rows_error [OF Inl] show ?thesis by auto
  next
    case (Inr s')
    with 3 have "hashing_loop L rest
        (s'\<lparr>prog_value := prog_value s' + 1, trace := trace s' @ [Progress]\<rparr>) = Inl x"
      by simp
    from "3.IH" [OF Inr this] show ?thesis by auto
  qed
qed

lemma hashing_loop_append:
  "hashing_loop L (xs @ ys) s =
     (case hashing_loop L xs s of Inl x \<Rightarrow> Inl x | Inr s' \<Rightarrow> hashing_loop L ys s')"
proof (induction L xs s rule: hashing_loop.induct)
  case (1 L s)
  then show ?case by simp
next
  case (2 L e rest s)
  then show ?case by simp
next
  case (3 L ids vs X rest s)
  then show ?case by (cases "hash_rows L X 0 ids s") simp_all
qed

lemma hash_rows_total:
  fixes L :: "('v, 'e) hashlib"
  assumes "\<forall>bs. \<exists>h. xxh3_128_hexdigest L bs = Inr h" and "r + length js \<le> fst (shape X)"
  shows "\<exists>s'. hash_rows L X r js s = Inr s'"
  using assms(2)
proof (induction js arbitrary: r s)
  case Nil
  then show ?case by simp
next
  case (Cons j js)
  from Cons.prems have "r < fst (shape X)" by simp
  then obtain X_row where g: "getrow X r = (Inr X_row :: 'e pyerr + 'v csr_matrix)"
    by (simp add: getrow_def Let_def)
  from assms(1) obtain h where h: "row_hash L X_row = Inr h"
    by (metis row_hash_def sum.simps(6))
  from Cons.prems have "Suc r + length js \<le> fst (shape X)" by simp
  from Cons.IH [OF this] g h show ?case by simp
qed

lemma hashing_loop_total:
  fixes L :: "('v, 'e) hashlib"
  assumes "\<forall>bs. \<exists>h. xxh3_128_hexdigest L bs = Inr h"
    and "\<forall>c \<in> set cs. length (fst (fst c)) \<le> fst (shape (snd c))"
  shows "\<exists>s'. hashing_loop L (map Inr cs) s = Inr s'"
  using assms(2)
proof (induction cs arbitrary: s)
  case Nil
  then show ?case by simp
next
  case (Cons c cs)
  obtain ids vs X where c: "c = ((ids, vs), X)" by (metis prod.collapse)
  with Cons.prems have "0 + length ids \<le> fst (shape X)" by simp
  from hash_rows_total [OF assms(1) this] obtain s' where "hash_rows L X 0 ids s = Inr s'"
    by blast
  moreover from Cons.prems have "\<forall>c \<in> set cs. length (fst (fst c)) \<le> fst (shape (snd c))"
    by simp
  from Cons.IH [OF this]
  obtain s'' where "hashing_loop L (map Inr cs)
      (s'\<lparr>prog_value := prog_value s' + 1, trace := trace s' @ [Progress]\<rparr>) = Inr s''"
    by blast
  ultimately show ?case using c by simp
qed

lemma find_raise_append:
  "List.find P (xs @ ys) =
     (case List.find P xs of None \<Rightarrow> List.find P ys | Some x \<Rightarrow> Some x)"
  by (induction xs) simp_all

lemma find_raise_Some:
  "List.find (\<lambda>x. x \<noteq> None) xs = Some y \<Longrightarrow> \<exists>x. y = Some x"
  by (induction xs) (auto split: if_splits)

lemma hash_rows_first_raise:
  fixes L :: "('v, 'e) hashlib"
  shows "(List.find (\<lambda>x. x \<noteq> None) (map (row_raises L X) [r ..< r + length js]) = Some (Some x)
            \<longrightarrow> hash_rows L X r js s = Inl x) \<and>
         (List.find (\<lambda>x. x \<noteq> None) (map (row_raises L X) [r ..< r + length js]) = None
            \<longrightarrow> (\<exists>s'. hash_rows L X r js s = Inr s'))"
proof (induction js arbitrary: r s)
  case Nil
  show ?case by simp
next
  case (Cons j js)
  have "r < r + length (j # js)" by simp
  from upt_conv_Cons [OF this]
  have u: "[r ..< r + length (j # js)] = r # [Suc r ..< Suc r + length js]"
    by simp
  show ?case
  proof (cases "getrow X r :: 'e pyerr + 'v csr_matrix")
    case (Inl e)
    then show ?thesis unfolding u by (simp add: row_raises_def)
  next
    case (Inr X_row)
    show ?thesis
    proof (cases "xxh3_128_hexdigest L (tobytes L (data X_row) @ buffer_bytes L (indptr X_row))")
      case (Inl e)
      with Inr show ?thesis unfolding u by (simp add: row_raises_def row_hash_def)
    next
      case h: (Inr h)
      with Inr have n: "row_raises L X r = None" and rh: "row_hash L X_row = Inr h"
        by (simp_all add: row_raises_def row_hash_def)
      from Inr rh have step: "hash_rows L X r (j # js) s =
          hash_rows L X (Suc r) js
            (s\<lparr>hashes := series_set_at (hashes s) (joinid_label j) (Str h),
               trace := trace s @ [Hashed j h]\<rparr>)"
        by simp
      show ?thesis
        unfolding u step using n Cons.IH [of "Suc r"] by simp
    qed
  qed
qed

lemma hashing_loop_first_raise:
  fixes L :: "('v, 'e) hashlib"
  shows "(first_raise L it = Some x \<longrightarrow> hashing_loop L it s = Inl x) \<and>
         (first_raise L it = None \<longrightarrow> (\<exists>s'. hashing_loop L it s = Inr s'))"
proof (induction L it s rule: hashing_loop.induct)
  case (1 L s)
  show ?case by (simp add: first_raise_def)
next
  case (2 L e rest s)
  show ?case by (simp add: first_raise_def item_raises_def)
next
  case (3 L ids vs X rest s)
  let ?here = "List.find (\<lambda>x. x \<noteq> None) (map (row_raises L X) [0 ..< 0 + length ids])"
  have c: "concat (map (item_raises L) (Inr ((ids, vs), X) # rest))
      = map (row_raises L X) [0 ..< 0 + length ids] @ concat (map (item_raises L) rest)"
    by (simp add: item_raises_def)
  have fr: "first_raise L (Inr ((ids, vs), X) # rest) =
      (case ?here of None \<Rightarrow> first_raise L rest | Some y \<Rightarrow> y)"
    unfolding first_raise_def c find_raise_append
    by (cases ?here) simp_all
  note rows = hash_rows_first_raise [of L X 0 ids _ s]
  show ?case
  proof (cases ?here)
    case None
    with rows obtain s1 where s1: "hash_rows L X 0 ids s = Inr s1" by blast
    from "3.IH" [OF s1] None s1 show ?thesis unfolding fr by simp
  next
    case (Some y)
    from find_raise_Some [OF Some] obtain e where y: "y = Some e" by blast
    with Some rows [of e] have "hash_rows L X 0 ids s = Inl e" by simp
    with Some y show ?thesis unfolding fr by simp
  qed
qed


lemma hash_rows_append:
  "hash_rows L X r (pre @ post) s =
     (case hash_rows L X r pre s of
        Inl x \<Rightarrow> Inl x
      | Inr s' \<Rightarrow> hash_rows L X (r + length pre) post s')"
proof (induction pre arbitrary: r s)
  case Nil
  show ?case by simp
next
  case (Cons j pre)
  show ?case
    by (simp add: Cons.IH split: sum.splits)
qed

text \<open>
  Claim C7. The loop handles no exception: its result is the exception of the first
  call that raises, in the order of the schedule, and it returns exactly when no call
  raises. So whatever it raises was raised by a call it makes: the iterator's exception
  or the hash library's, passed on as it is, or the \<open>IndexError\<close> of \<open>getrow\<close> for a
  chunk with fewer rows than join ids. An exception of the iterator after some chunks is
  the loop's result unless an earlier call raised; an exception raised in the scan of a
  chunk, after chunks that were scanned without one, is the loop's result; and an
  exception of the hash library at a row, after rows that were hashed without one, is
  the result of the scan of that chunk.
\<close>

theorem hashing_loop_propagates:
  fixes L :: "('v, 'e) hashlib"
  shows "(hashing_loop L it s = Inl x \<longleftrightarrow> first_raise L it = Some x) \<and>
         ((\<exists>s'. hashing_loop L it s = Inr s') \<longleftrightarrow> first_raise L it = None) \<and>
         (hashing_loop L it s = Inl x \<longrightarrow>
            (x = IndexError \<and>
               (\<exists>ids vs X. Inr ((ids, vs), X) \<in> set it \<and> fst (shape X) < length ids)) \<or>
            (\<exists>e. x = LibraryError e \<and>
               (Inl e \<in> set it \<or> (\<exists>bs. xxh3_128_hexdigest L bs = Inl e)))) \<and>
         hashing_loop L (map Inr cs @ Inl e # rest) s =
           (case hashing_loop L (map Inr cs) s of
              Inl x \<Rightarrow> Inl x
            | Inr s' \<Rightarrow> Inl (LibraryError e)) \<and>
         (hashing_loop L (map Inr cs) s = Inr s1 \<and> hash_rows L X 0 ids s1 = Inl x
            \<longrightarrow> hashing_loop L (map Inr cs @ Inr ((ids, vs), X) # rest) s = Inl x) \<and>
         (hash_rows L X r pre s = Inr s2 \<and>
          getrow X (r + length pre) = (Inr X_row :: 'e pyerr + 'v csr_matrix) \<and>
          xxh3_128_hexdigest L (tobytes L (data X_row) @ buffer_bytes L (indptr X_row)) = Inl e
            \<longrightarrow> hash_rows L X r (pre @ j # js) s = Inl (LibraryError e)) \<and>
         ((\<forall>bs. \<exists>h. xxh3_128_hexdigest L bs = Inr h) \<and>
          (\<forall>c \<in> set cs. length (fst (fst c)) \<le> fst (shape (snd c)))
            \<longrightarrow> (\<exists>s'. hashing_loop L (map Inr cs) s = Inr s'))"
proof -
  note fr = hashing_loop_first_raise [of L it _ s]
  have p: "hashing_loop L it s = Inl x \<longleftrightarrow> first_raise L it = Some x"
  proof
    assume l: "hashing_loop L it s = Inl x"
    show "first_raise L it = Some x"
    proof (cases "first_raise L it")
      case None
      with fr l show ?thesis by auto
    next
      case (Some y)
      with fr [of y] l show ?thesis by simp
    qed
  next
    assume "first_raise L it = Some x"
    with fr [of x] show "hashing_loop L it s = Inl x" by simp
  qed
  have q: "(\<exists>s'. hashing_loop L it s = Inr s') \<longleftrightarrow> first_raise L it = None"
  proof
    assume l: "\<exists>s'. hashing_loop L it s = Inr s'"
    show "first_raise L it = None"
    proof (cases "first_raise L it")
      case None
      then show ?thesis .
    next
      case (Some y)
      with fr [of y] l show ?thesis by auto
    qed
  next
    assume "first_raise L it = None"
    with fr show "\<exists>s'. hashing_loop L it s = Inr s'" by simp
  qed
  have a: "hashing_loop L it s = Inl x \<longrightarrow>
            (x = IndexError \<and>
               (\<exists>ids vs X. Inr ((ids, vs), X) \<in> set it \<and> fst (shape X) < length ids)) \<or>
            (\<exists>e. x = LibraryError e \<and>
               (Inl e \<in> set it \<or> (\<exists>bs. xxh3_128_hexdigest L bs = Inl e)))"
    using hashing_loop_error [of L it s x] by blast
  have b: "hashing_loop L (map Inr cs @ Inl e # rest) s =
           (case hashing_loop L (map Inr cs) s of
              Inl x \<Rightarrow> Inl x
            | Inr s' \<Rightarrow> Inl (LibraryError e))"
    by (cases "hashing_loop L (map Inr cs) s") (simp_all add: hashing_loop_append)
  have c: "hashing_loop L (map Inr cs) s = Inr s1 \<and> hash_rows L X 0 ids s1 = Inl x
            \<longrightarrow> hashing_loop L (map Inr cs @ Inr ((ids, vs), X) # rest) s = Inl x"
    by (simp add: hashing_loop_append)
  have d: "hash_rows L X r pre s = Inr s2 \<and>
          getrow X (r + length pre) = (Inr X_row :: 'e pyerr + 'v csr_matrix) \<and>
          xxh3_128_hexdigest L (tobytes L (data X_row) @ buffer_bytes L (indptr X_row)) = Inl e
            \<longrightarrow> hash_rows L X r (pre @ j # js) s = Inl (LibraryError e)"
    by (simp add: hash_rows_append row_hash_def)
  have t: "(\<forall>bs. \<exists>h. xxh3_128_hexdigest L bs = Inr h) \<and>
          (\<forall>c \<in> set cs. length (fst (fst c)) \<le> fst (shape (snd c)))
            \<longrightarrow> (\<exists>s'. hashing_loop L (map Inr cs) s = Inr s')"
    using hashing_loop_total [of L cs s] by blast
  from p q a b c d t show ?thesis by (intro conjI)
qed

text \<open>
  A scan whose iterator raises after the first chunk. A scan of two chunks in which the
  hash library raises at the second row of the second chunk, a row that stores two
  values: the loop's result is that exception. And a scan in which no call raises.
\<close>

theorem hashing_loop_propagates_witness:
  "hashing_loop
     \<lparr>tobytes = map word_of_int, buffer_bytes = map word_of_nat,
      xxh3_128_hexdigest = (\<lambda>bs. if length bs \<le> 3 then Inr ''ab'' else Inl ''MemoryError'')\<rparr>
     [Inr (([10, 11], [0, 1, 2]),
           \<lparr>shape = (2, 3), data = [5, 7 :: int], indices = [0, 2], indptr = [0, 1, 2]\<rparr>),
      Inl ''TileDBError'']
     \<lparr>hashes = [([Num 10], Str ''''), ([Num 11], Str '''')], prog_value = 0, trace = []\<rparr>
   = Inl (LibraryError ''TileDBError'') \<and>
   hashing_loop
     \<lparr>tobytes = map word_of_int, buffer_bytes = map word_of_nat,
      xxh3_128_hexdigest = (\<lambda>bs. if length bs \<le> 3 then Inr ''ab'' else Inl ''MemoryError'')\<rparr>
     [Inr (([10, 11], [0, 1, 2]),
           \<lparr>shape = (2, 3), data = [5, 7 :: int], indices = [0, 2], indptr = [0, 1, 2]\<rparr>),
      Inr (([12, 13], [0, 1, 2]),
           \<lparr>shape = (2, 3), data = [4, 5, 7 :: int], indices = [1, 0, 2], indptr = [0, 1, 3]\<rparr>),
      Inr (([14], [0, 1, 2]),
           \<lparr>shape = (1, 3), data = [1 :: int], indices = [1], indptr = [0, 1]\<rparr>)]
     \<lparr>hashes = [([Num 10], Str ''''), ([Num 11], Str '''')], prog_value = 0, trace = []\<rparr>
   = Inl (LibraryError ''MemoryError'') \<and>
   hash_rows
     \<lparr>tobytes = map word_of_int, buffer_bytes = map word_of_nat,
      xxh3_128_hexdigest = (\<lambda>bs. if length bs \<le> 3 then Inr ''ab'' else Inl ''MemoryError'')\<rparr>
     \<lparr>shape = (2, 3), data = [4, 5, 7 :: int], indices = [1, 0, 2], indptr = [0, 1, 3]\<rparr> 0 [12, 13]
     \<lparr>hashes = [([Num 10], Str ''''), ([Num 11], Str '''')], prog_value = 0, trace = []\<rparr>
   = Inl (LibraryError ''MemoryError'') \<and>
   (\<exists>s'. hashing_loop
     \<lparr>tobytes = map word_of_int, buffer_bytes = map word_of_nat,
      xxh3_128_hexdigest = (\<lambda>bs. Inr ''ab'' :: string + string)\<rparr>
     (map Inr [(([10, 11], [0, 1, 2]),
           \<lparr>shape = (2, 3), data = [5, 7 :: int], indices = [0, 2], indptr = [0, 1, 2]\<rparr>)])
     \<lparr>hashes = [([Num 10], Str ''''), ([Num 11], Str '''')], prog_value = 0, trace = []\<rparr>
   = Inr s')"
proof -
  let ?L1 = "\<lparr>tobytes = map word_of_int, buffer_bytes = map word_of_nat,
      xxh3_128_hexdigest = (\<lambda>bs. if length bs \<le> 3 then Inr ''ab'' else Inl ''MemoryError'')\<rparr>
      :: (int, string) hashlib"
  let ?L0 = "\<lparr>tobytes = map word_of_int, buffer_bytes = map word_of_nat,
      xxh3_128_hexdigest = (\<lambda>bs. Inr ''ab'' :: string + string)\<rparr> :: (int, string) hashlib"
  let ?X1 = "\<lparr>shape = (2, 3), data = [5, 7 :: int], indices = [0, 2], indptr = [0, 1, 2]\<rparr>"
  let ?X2 = "\<lparr>shape = (2, 3), data = [4, 5, 7 :: int], indices = [1, 0, 2], indptr = [0, 1, 3]\<rparr>"
  let ?X3 = "\<lparr>shape = (1, 3), data = [1 :: int], indices = [1], indptr = [0, 1]\<rparr>"
  let ?R = "\<lparr>shape = (1, 3), data = [5, 7 :: int], indices = [0, 2], indptr = [0, 2]\<rparr>"
  let ?c1 = "(([10, 11], [0, 1, 2]), ?X1)"
  let ?c2 = "(([12, 13], [0, 1, 2]), ?X2)"
  let ?c3 = "(([14], [0, 1, 2]), ?X3)"
  let ?s0 = "\<lparr>hashes = [([Num 10], Str ''''), ([Num 11], Str '''')], prog_value = 0, trace = []\<rparr>"
  have ok: "\<exists>s'. hashing_loop ?L1 (map Inr [?c1]) ?s0 = Inr s'"
    by (simp add: getrow_def py_slice_def row_hash_def)
  have total: "\<forall>bs. \<exists>h. xxh3_128_hexdigest ?L0 bs = Inr h"
    by simp
  have fits: "\<forall>c \<in> set [?c1]. length (fst (fst c)) \<le> fst (shape (snd c))"
    by simp
  have "hashing_loop ?L1 (map Inr [?c1] @ [Inl ''TileDBError'']) ?s0 =
      (case hashing_loop ?L1 (map Inr [?c1]) ?s0 of
         Inl x \<Rightarrow> Inl x
       | Inr s' \<Rightarrow> Inl (LibraryError ''TileDBError''))"
    by (rule hashing_loop_propagates [where L = ?L1 and cs = "[?c1]" and e = "''TileDBError''"
          and rest = "[]" and s = ?s0, THEN conjunct2, THEN conjunct2, THEN conjunct2,
          THEN conjunct1])
  with ok have first: "hashing_loop ?L1 [Inr ?c1, Inl ''TileDBError''] ?s0
      = Inl (LibraryError ''TileDBError'')"
    by auto
  have raise: "first_raise ?L1 [Inr ?c1, Inr ?c2, Inr ?c3] = Some (LibraryError ''MemoryError'')"
    by (simp add: first_raise_def item_raises_def row_raises_def getrow_def py_slice_def
        upt_conv_Cons)
  have second: "hashing_loop ?L1 [Inr ?c1, Inr ?c2, Inr ?c3] ?s0 = Inl (LibraryError ''MemoryError'')"
    using hashing_loop_propagates [where L = ?L1 and it = "[Inr ?c1, Inr ?c2, Inr ?c3]"
        and s = ?s0 and x = "LibraryError ''MemoryError''", THEN conjunct1] raise
    by (rule iffD2)
  have pre: "\<exists>s2. hash_rows ?L1 ?X2 0 [12] ?s0 = Inr s2"
    by (simp add: getrow_def py_slice_def row_hash_def)
  have row: "getrow ?X2 (0 + length [12 :: nat]) = (Inr ?R :: string pyerr + int csr_matrix)"
    by (simp add: getrow_def py_slice_def)
  have fails: "xxh3_128_hexdigest ?L1 (tobytes ?L1 (data ?R) @ buffer_bytes ?L1 (indptr ?R))
      = Inl ''MemoryError''"
    by simp
  from pre obtain s2 where s2: "hash_rows ?L1 ?X2 0 [12] ?s0 = Inr s2" ..
  have "hash_rows ?L1 ?X2 0 ([12] @ 13 # []) ?s0 = Inl (LibraryError ''MemoryError'')"
    using hashing_loop_propagates [where L = ?L1 and X = ?X2 and r = 0 and pre = "[12]"
        and s = ?s0 and ?s2.0 = s2 and X_row = ?R and e = "''MemoryError''" and j = 13
        and js = "[]", THEN conjunct2, THEN conjunct2, THEN conjunct2, THEN conjunct2,
        THEN conjunct2, THEN conjunct1] s2 row fails
    by blast
  then have third: "hash_rows ?L1 ?X2 0 [12, 13] ?s0 = Inl (LibraryError ''MemoryError'')"
    by simp
  have fourth: "\<exists>s'. hashing_loop ?L0 (map Inr [?c1]) ?s0 = Inr s'"
    using hashing_loop_propagates [where L = ?L0 and cs = "[?c1]" and s = ?s0,
        THEN conjunct2, THEN conjunct2, THEN conjunct2, THEN conjunct2, THEN conjunct2,
        THEN conjunct2] total fits
    by blast
  from first second third fourth show ?thesis by (intro conjI)
qed

subsection \<open>Order of the scan\<close>

lemma trace_foldl_apply_event:
  "trace (foldl apply_event s evs) = trace s @ evs"
  by (induction evs arbitrary: s) (simp_all add: apply_event_def split: event.splits)

lemma prog_value_foldl_apply_event:
  "prog_value (foldl apply_event s evs) = prog_value s + int (length (filter (\<lambda>ev. ev = Progress) evs))"
  by (induction evs arbitrary: s) (simp_all add: apply_event_def split: event.splits)

lemma hash_rows_replay:
  fixes L :: "('v, 'e) hashlib"
  assumes "hash_rows L X r js s = Inr s'"
  shows "s' = foldl apply_event s
           (map (visit_event L) (map (\<lambda>(r, j). Row j X r) (zip [r ..< r + length js] js)))"
  using assms
proof (induction js arbitrary: r s)
  case Nil
  then show ?case by simp
next
  case (Cons j js)
  from Cons.prems obtain X_row where g: "getrow X r = (Inr X_row :: 'e pyerr + 'v csr_matrix)"
    by (cases "getrow X r :: 'e pyerr + 'v csr_matrix") simp_all
  from Cons.prems g obtain h where h: "row_hash L X_row = Inr h"
    by (cases "row_hash L X_row") simp_all
  let ?s = "s\<lparr>hashes := series_set_at (hashes s) (joinid_label j) (Str h),
               trace := trace s @ [Hashed j h]\<rparr>"
  from Cons.prems g h have "hash_rows L X (Suc r) js ?s = Inr s'" by simp
  from Cons.IH [OF this]
  have "s' = foldl apply_event ?s
           (map (visit_event L) (map (\<lambda>(r, j). Row j X r) (zip [Suc r ..< Suc r + length js] js)))" .
  moreover have "visit_event L (Row j X r) = Hashed j h"
    using g h by (simp add: visit_event_def)
  then have "apply_event s (visit_event L (Row j X r)) = ?s"
    by (simp add: apply_event_def)
  moreover have "[r ..< r + length (j # js)] = r # [Suc r ..< Suc r + length js]"
    using upt_conv_Cons [of r "r + Suc (length js)"] by simp
  ultimately show ?case by simp
qed

lemma hashing_loop_replay:
  fixes L :: "('v, 'e) hashlib"
  assumes "hashing_loop L (map Inr cs) s = Inr s'"
  shows "s' = foldl apply_event s (map (visit_event L) (schedule cs))"
  using assms
proof (induction cs arbitrary: s)
  case Nil
  then show ?case by (simp add: schedule_def)
next
  case (Cons c cs)
  obtain ids vs X where c: "c = ((ids, vs), X)" by (metis prod.collapse)
  from Cons.prems c obtain s1 where s1: "hash_rows L X 0 ids s = Inr s1"
    by (cases "hash_rows L X 0 ids s") simp_all
  let ?s2 = "s1\<lparr>prog_value := prog_value s1 + 1, trace := trace s1 @ [Progress]\<rparr>"
  from Cons.prems c s1 have "hashing_loop L (map Inr cs) ?s2 = Inr s'" by simp
  from Cons.IH [OF this]
  have "s' = foldl apply_event ?s2 (map (visit_event L) (schedule cs))" .
  moreover from hash_rows_replay [OF s1]
  have "s1 = foldl apply_event s
           (map (visit_event L) (map (\<lambda>(r, j). Row j X r) (zip [0 ..< length ids] ids)))"
    by simp
  moreover have "apply_event s1 (visit_event L (ChunkDone :: 'v visit)) = ?s2"
    by (simp add: apply_event_def visit_event_def)
  ultimately show ?case
    using c by (simp add: schedule_def chunk_visits_def)
qed

lemma hash_rows_prog_value:
  "hash_rows L X r js s = Inr s' \<Longrightarrow> prog_value s' = prog_value s"
proof (induction js arbitrary: r s)
  case Nil
  then show ?case by simp
next
  case (Cons j js)
  then show ?case
    by (fastforce split: sum.splits)
qed

lemma hashing_loop_prog_value:
  "hashing_loop L (map Inr cs) s = Inr s' \<Longrightarrow> prog_value s' = prog_value s + int (length cs)"
proof (induction cs arbitrary: s)
  case Nil
  then show ?case by simp
next
  case (Cons c cs)
  obtain ids vs X where c: "c = ((ids, vs), X)" by (metis prod.collapse)
  from Cons.prems c obtain s1 where s1: "hash_rows L X 0 ids s = Inr s1"
    by (cases "hash_rows L X 0 ids s") simp_all
  let ?s2 = "s1\<lparr>prog_value := prog_value s1 + 1, trace := trace s1 @ [Progress]\<rparr>"
  from Cons.prems c s1 have "hashing_loop L (map Inr cs) ?s2 = Inr s'" by simp
  from Cons.IH [OF this] hash_rows_prog_value [OF s1] show ?case by simp
qed

text \<open>
  Claim C9. The scan is sequential: when the loop returns, the state it leaves is the
  one obtained by replaying the sequential schedule entry by entry, so the chunks are
  consumed one at a time in the order the iterator yields them, the rows of a chunk are
  hashed by increasing position, all rows of a chunk come before the progress step of
  that chunk, and no chunk is left out: the progress bar has advanced once per chunk.
\<close>

theorem hashing_loop_sequential:
  fixes L :: "('v, 'e) hashlib"
  assumes "hashing_loop L (map Inr cs) s = Inr s'"
  shows "s' = foldl apply_event s (map (visit_event L) (schedule cs)) \<and>
         trace s' = trace s @ map (visit_event L) (schedule cs) \<and>
         prog_value s' = prog_value s + int (length cs)"
proof -
  have r: "s' = foldl apply_event s (map (visit_event L) (schedule cs))"
    using assms by (rule hashing_loop_replay)
  moreover note r
  moreover from r have "trace s' = trace s @ map (visit_event L) (schedule cs)"
    by (simp only: trace_foldl_apply_event)
  moreover have "prog_value s' = prog_value s + int (length cs)"
    using assms by (rule hashing_loop_prog_value)
  ultimately show ?thesis by blast
qed

text \<open>A scan of two chunks, of two rows and of one row.\<close>

theorem hashing_loop_sequential_witness:
  "hashing_loop
     \<lparr>tobytes = map word_of_int, buffer_bytes = map word_of_nat,
      xxh3_128_hexdigest = (\<lambda>bs. Inr (map (\<lambda>b. if b = 0 then CHR ''0'' else CHR ''1'') bs))\<rparr>
     (map Inr
       [(([10, 11], [0, 1, 2]),
         \<lparr>shape = (2, 3), data = [5, 7 :: int], indices = [0, 2], indptr = [0, 1, 2]\<rparr>),
        (([12], [0, 1, 2]),
         \<lparr>shape = (1, 3), data = [5, 0 :: int], indices = [0, 2], indptr = [0, 2]\<rparr>)])
     \<lparr>hashes = [([Num 10], Str ''''), ([Num 11], Str ''''), ([Num 12], Str '''')],
      prog_value = 0, trace = []\<rparr>
   = (Inr \<lparr>hashes = [([Num 10], Str ''101''), ([Num 11], Str ''101''), ([Num 12], Str ''1001'')],
           prog_value = 2,
           trace = [Hashed 10 ''101'', Hashed 11 ''101'', Progress, Hashed 12 ''1001'', Progress]\<rparr>
        :: string pyerr + loop_state) \<and>
   map (visit_event
     (\<lparr>tobytes = map word_of_int, buffer_bytes = map word_of_nat,
      xxh3_128_hexdigest = (\<lambda>bs. Inr (map (\<lambda>b. if b = 0 then CHR ''0'' else CHR ''1'') bs))\<rparr>
      :: (int, string) hashlib))
     (schedule
       [(([10, 11], [0, 1, 2]),
         \<lparr>shape = (2, 3), data = [5, 7 :: int], indices = [0, 2], indptr = [0, 1, 2]\<rparr>),
        (([12], [0, 1, 2]),
         \<lparr>shape = (1, 3), data = [5, 0 :: int], indices = [0, 2], indptr = [0, 2]\<rparr>)])
   = [Hashed 10 ''101'', Hashed 11 ''101'', Progress, Hashed 12 ''1001'', Progress]"
proof -
  let ?L = "\<lparr>tobytes = map word_of_int, buffer_bytes = map word_of_nat,
      xxh3_128_hexdigest = (\<lambda>bs. Inr (map (\<lambda>b. if b = 0 then CHR ''0'' else CHR ''1'') bs))\<rparr>
      :: (int, string) hashlib"
  let ?cs = "[(([10, 11], [0, 1, 2]),
         \<lparr>shape = (2, 3), data = [5, 7 :: int], indices = [0, 2], indptr = [0, 1, 2]\<rparr>),
        (([12], [0, 1, 2]),
         \<lparr>shape = (1, 3), data = [5, 0 :: int], indices = [0, 2], indptr = [0, 2]\<rparr>)]"
  let ?s0 = "\<lparr>hashes = [([Num 10], Str ''''), ([Num 11], Str ''''), ([Num 12], Str '''')],
      prog_value = 0, trace = []\<rparr>"
  let ?s1 = "\<lparr>hashes = [([Num 10], Str ''101''), ([Num 11], Str ''101''), ([Num 12], Str ''1001'')],
           prog_value = 2,
           trace = [Hashed 10 ''101'', Hashed 11 ''101'', Progress, Hashed 12 ''1001'', Progress]\<rparr>"
  have run: "hashing_loop ?L (map Inr ?cs) ?s0 = (Inr ?s1 :: string pyerr + loop_state)"
    by (simp add: getrow_def py_slice_def row_hash_def series_set_at_def joinid_label_def)
  from hashing_loop_sequential [OF run]
  have "trace ?s1 = trace ?s0 @ map (visit_event ?L) (schedule ?cs)"
    by blast
  with run show ?thesis by simp
qed

section \<open>List and frame lemmas\<close>

lemma map_zip_ignore_fst:
  "length ks = length cs \<Longrightarrow> map (\<lambda>(k, c). g c) (zip ks cs) = map g cs"
  by (induction ks cs rule: list_induct2) simp_all

lemma length_range_index [simp]: "length (range_index n) = n"
  by (simp add: range_index_def)

text \<open>reset_index followed by set_index on a column: the default index is never seen.\<close>

lemma reset_then_set_index:
  fixes f :: frame
  assumes "\<not> (\<exists>n \<in> set (map level_name (index_names f)). n \<in> set (columns f))"
    and "index_of c (map level_name (index_names f) @ columns f) = Some i"
  shows "(case reset_index f of Inl e \<Rightarrow> Inl e | Inr a \<Rightarrow> set_index c a) =
     (Inr \<lparr>index_names = [Some c],
           columns = drop_nth i (map level_name (index_names f) @ columns f),
           body = map (\<lambda>(k, cells). ([(k @ cells) ! i], drop_nth i (k @ cells))) (body f)\<rparr>
       :: 'e pyerr + frame)"
proof -
  let ?names = "map level_name (index_names f)"
  have r: "reset_index f = (Inr \<lparr>index_names = [None], columns = ?names @ columns f,
       body = zip (range_index (length (body f))) (map (\<lambda>(k, cells). k @ cells) (body f))\<rparr>
       :: 'e pyerr + frame)"
    using assms(1) by (simp add: reset_index_def Let_def)
  have "map (\<lambda>(k, cells). ([cells ! i], drop_nth i cells))
          (zip (range_index (length (body f))) (map (\<lambda>(k, cells). k @ cells) (body f)))
      = map (\<lambda>cells. ([cells ! i], drop_nth i cells)) (map (\<lambda>(k, cells). k @ cells) (body f))"
    by (rule map_zip_ignore_fst) simp
  also have "\<dots> = map (\<lambda>(k, cells). ([(k @ cells) ! i], drop_nth i (k @ cells))) (body f)"
    by (simp add: case_prod_unfold)
  finally show ?thesis
    using assms(2) by (simp add: r set_index_def)
qed

lemma by_hash_obs_frame:
  "(case reset_index (obs_frame xs) of Inl e \<Rightarrow> Inl e | Inr a \<Rightarrow> set_index (Str ''hash'') a) =
     (Inr \<lparr>index_names = [Some (Str ''hash'')],
           columns = [Str ''soma_joinid'', Str ''dataset_id'', Str ''is_primary_data''],
           body = map (\<lambda>xh. ([Str (snd xh)],
                    [Num (of_nat (soma_joinid (fst xh))), Str (obs_dataset_id (fst xh)),
                     Bool (is_primary_data (fst xh))])) xs\<rparr> :: 'e pyerr + frame)"
proof -
  have a: "\<not> (\<exists>n \<in> set (map level_name (index_names (obs_frame xs))). n \<in> set (columns (obs_frame xs)))"
    by (simp add: obs_frame_def level_name_def)
  have b: "index_of (Str ''hash'') (map level_name (index_names (obs_frame xs)) @ columns (obs_frame xs)) = Some 1"
    by (simp add: obs_frame_def level_name_def)
  show ?thesis
    unfolding reset_then_set_index [OF a b]
    by (simp add: obs_frame_def level_name_def drop_nth_def obs_row_def joinid_label_def)
qed

lemma key_counts_set:
  "set (key_counts keys) = (\<lambda>k. (k, count_list keys k)) ` set keys"
  by (simp add: key_counts_def)

lemma key_counts_distinct:
  "distinct (map fst (key_counts keys))"
proof -
  have "map fst (map (\<lambda>k. (k, count_list keys k)) (sort (remdups keys))) = sort (remdups keys)"
    by (simp add: o_def)
  then have "mset (map fst (map (\<lambda>k. (k, count_list keys k)) (sort (remdups keys))))
      = mset (sort (remdups keys))"
    by (rule arg_cong)
  moreover have "mset (map fst (key_counts keys))
      = mset (map fst (map (\<lambda>k. (k, count_list keys k)) (sort (remdups keys))))"
    unfolding key_counts_def mset_map mset_sort ..
  ultimately have "mset (map fst (key_counts keys)) = mset (sort (remdups keys))"
    by simp
  moreover have "distinct (sort (remdups keys))" by simp
  ultimately show ?thesis
    by (metis distinct_count_atmost_1 set_mset_mset)
qed

lemma key_counts_map_of:
  "map_of (key_counts keys) k = (if k \<in> set keys then Some (count_list keys k) else None)"
proof (cases "k \<in> set keys")
  case True
  then have "(k, count_list keys k) \<in> set (key_counts keys)"
    by (simp add: key_counts_set)
  with key_counts_distinct [of keys] True show ?thesis
    by simp
next
  case False
  then have "k \<notin> fst ` set (key_counts keys)"
    by (auto simp: key_counts_set)
  with False show ?thesis
    by (simp add: map_of_eq_None_iff)
qed

lemma filter_key_distinct:
  assumes "distinct (map fst cs)"
  shows "filter (\<lambda>kn. fst kn = k) cs = (case map_of cs k of None \<Rightarrow> [] | Some n \<Rightarrow> [(k, n)])"
  using assms
proof (induction cs)
  case Nil
  show ?case by simp
next
  case (Cons c cs)
  obtain k' n' where c: "c = (k', n')" by (cases c)
  show ?case
  proof (cases "k' = k")
    case True
    with Cons.prems c have "k \<notin> fst ` set cs" by auto
    then have "filter (\<lambda>kn. fst kn = k) cs = []"
      by (auto simp: filter_empty_conv)
    with True c show ?thesis by simp
  next
    case False
    with Cons c show ?thesis by simp
  qed
qed

lemma mean_single: "mean [Num q] = Num q"
  by (simp add: mean_def numbers_def)

lemma mean_Nil: "mean [] = NaN"
  by (simp add: mean_def numbers_def)


lemma sort_remdups_cong:
  "set xs = set ys \<Longrightarrow> sort (remdups xs) = sort (remdups ys)"
  by (metis sorted_list_of_set_sort_remdups)

lemma count_hash_keys:
  "count_list (hash_keys xs) [Str h, Bool b] =
     length (filter (\<lambda>xh. snd xh = h \<and> is_primary_data (fst xh) = b) xs)"
  by (induction xs) (auto simp: hash_keys_def)

lemma value_counts_obs_frame:
  "value_counts [Str ''hash'', Str ''is_primary_data''] (obs_frame xs) =
     (Inr \<lparr>index_names = [Some (Str ''hash''), Some (Str ''is_primary_data'')],
           columns = [Num 0],
           body = map (\<lambda>(k, n). (k, [Num (of_nat n)])) (key_counts (hash_keys xs))\<rparr>
        :: 'e pyerr + frame)"
proof -
  have p: "positions [Str ''hash'', Str ''is_primary_data''] (columns (obs_frame xs)) = Some [0, 2]"
    by (simp add: obs_frame_def)
  have k: "map (\<lambda>(k, cells). map (\<lambda>i. cells ! i) [0, 2]) (body (obs_frame xs)) = hash_keys xs"
    by (simp add: obs_frame_def obs_row_def hash_keys_def)
  have "filter (\<lambda>k. NaN \<notin> set k) (hash_keys xs) = hash_keys xs"
    by (simp add: hash_keys_def)
  with p k show ?thesis
    by (simp add: value_counts_def Let_def)
qed

text \<open>The pivot of a table of counted pairs.\<close>

lemma pivot_table_counts:
  fixes W :: frame and cs :: "(label \<times> nat) list"
  assumes cols: "columns W = [ci, cj, cv]" and ne: "ci \<noteq> cj" "ci \<noteq> cv" "cj \<noteq> cv"
    and rows: "map snd (body W) = map (\<lambda>(k, n). k @ [Num (of_nat n)]) cs"
    and pairs: "\<forall>kn \<in> set cs. \<exists>a b. fst kn = [a, b] \<and> a \<noteq> NaN \<and> b \<noteq> NaN"
    and dist: "distinct (map fst cs)"
  shows "pivot_table ci cj cv (Num 0) W =
     (Inr \<lparr>index_names = [Some ci],
           columns = sort (remdups (map (\<lambda>kn. fst kn ! 1) cs)),
           body = map (\<lambda>a. ([a],
                    map (\<lambda>b. Num (of_nat (case map_of cs [a, b] of None \<Rightarrow> 0 | Some n \<Rightarrow> n)))
                      (sort (remdups (map (\<lambda>kn. fst kn ! 1) cs)))))
                    (sort (remdups (map (\<lambda>kn. fst kn ! 0) cs)))\<rparr>
        :: 'e pyerr + frame)"
proof -
  let ?rows = "map (\<lambda>(k, n). k @ [Num (of_nat n)]) cs"
  have p: "positions [ci, cj, cv] (columns W) = Some [0, 1, 2]"
    using cols ne by simp
  have shape: "\<And>kn. kn \<in> set cs \<Longrightarrow>
      \<exists>a b. (\<lambda>(k, n). k @ [Num (of_nat n)]) kn = [a, b, Num (of_nat (snd kn))] \<and> fst kn = [a, b]
         \<and> a \<noteq> NaN \<and> b \<noteq> NaN"
    using pairs by (auto simp: case_prod_unfold)
  have keep: "grouped_rows 0 1 ?rows = ?rows"
  proof -
    have "\<forall>r \<in> set ?rows. r ! 0 \<noteq> NaN \<and> r ! 1 \<noteq> NaN"
      using shape by fastforce
    then show ?thesis
      unfolding grouped_rows_def by (simp only: filter_True)
  qed
  have il: "group_labels 0 ?rows = sort (remdups (map (\<lambda>kn. fst kn ! 0) cs))"
  proof -
    have "map (\<lambda>r. r ! 0) ?rows = map (\<lambda>kn. fst kn ! 0) cs"
      using shape by fastforce
    then show ?thesis by (simp only: group_labels_def)
  qed
  have cl: "group_labels 1 ?rows = sort (remdups (map (\<lambda>kn. fst kn ! 1) cs))"
  proof -
    have "map (\<lambda>r. r ! 1) ?rows = map (\<lambda>kn. fst kn ! 1) cs"
      using shape by fastforce
    then show ?thesis by (simp only: group_labels_def)
  qed
  have cell: "pivot_cell 0 1 2 (Num 0) ?rows
        = (\<lambda>a b. Num (of_nat (case map_of cs [a, b] of None \<Rightarrow> 0 | Some n \<Rightarrow> n)))"
  proof (intro ext)
    fix a b
    have "filter (\<lambda>r. r ! 0 = a \<and> r ! 1 = b) ?rows
        = map (\<lambda>(k, n). k @ [Num (of_nat n)]) (filter (\<lambda>kn. fst kn = [a, b]) cs)"
    proof -
      have "\<And>kn. kn \<in> set cs \<Longrightarrow>
          ((\<lambda>(k, n). k @ [Num (of_nat n)]) kn ! 0 = a \<and> (\<lambda>(k, n). k @ [Num (of_nat n)]) kn ! 1 = b)
          = (fst kn = [a, b])"
        using shape by fastforce
      then show ?thesis
        by (simp add: filter_map o_def cong: filter_cong)
    qed
    also have "\<dots> = (case map_of cs [a, b] of None \<Rightarrow> [] | Some n \<Rightarrow> [[a, b, Num (of_nat n)]])"
      by (simp add: filter_key_distinct [OF dist] split: option.splits)
    finally show "pivot_cell 0 1 2 (Num 0) ?rows a b
        = Num (of_nat (case map_of cs [a, b] of None \<Rightarrow> 0 | Some n \<Rightarrow> n))"
      by (simp add: pivot_cell_def mean_single mean_Nil split: option.splits)
  qed
  show ?thesis
    unfolding pivot_table_def p rows
    by (simp only: option.case list.case Let_def keep il cl cell)
qed

section \<open>Properties of the hashing cell\<close>

subsection \<open>The Series of hashes\<close>

lemma series_set_at_fst:
  "map fst (series_set_at s k v) = (if k \<in> set (map fst s) then map fst s else map fst s @ [k])"
proof -
  have "map fst (map (\<lambda>(k', v'). if k' = k then (k', v) else (k', v')) s) = map fst s"
    by (induction s) auto
  then show ?thesis
    by (simp add: series_set_at_def)
qed

lemma series_set_at_snd:
  assumes "\<forall>x \<in> set (map snd s). \<exists>h. x = Str h"
  shows "\<forall>x \<in> set (map snd (series_set_at s k (Str d))). \<exists>h. x = Str h"
proof (cases "k \<in> fst ` set s")
  case True
  have "\<forall>x \<in> set (map snd (map (\<lambda>(k', v'). if k' = k then (k', Str d) else (k', v')) s)). \<exists>h. x = Str h"
    using assms by (induction s) auto
  with True show ?thesis by (simp add: series_set_at_def)
next
  case False
  with assms show ?thesis by (simp add: series_set_at_def)
qed

lemma apply_event_hashes:
  "set (map fst (hashes s)) \<subseteq> set (map fst (hashes (apply_event s ev))) \<and>
   ((\<forall>x \<in> set (map snd (hashes s)). \<exists>h. x = Str h) \<longrightarrow>
    (\<forall>x \<in> set (map snd (hashes (apply_event s ev))). \<exists>h. x = Str h))"
proof (cases ev)
  case (Hashed j h)
  have "set (map fst (hashes s)) \<subseteq> set (map fst (series_set_at (hashes s) (joinid_label j) (Str h)))"
    unfolding series_set_at_fst by auto
  moreover have "(\<forall>x \<in> set (map snd (hashes s)). \<exists>h. x = Str h) \<longrightarrow>
    (\<forall>x \<in> set (map snd (series_set_at (hashes s) (joinid_label j) (Str h))). \<exists>h. x = Str h)"
    using series_set_at_snd by blast
  ultimately show ?thesis
    using Hashed by (simp add: apply_event_def)
next
  case Progress
  then show ?thesis by (simp add: apply_event_def)
qed

lemma replay_hashes:
  "set (map fst (hashes s)) \<subseteq> set (map fst (hashes (foldl apply_event s evs))) \<and>
   ((\<forall>x \<in> set (map snd (hashes s)). \<exists>h. x = Str h) \<longrightarrow>
    (\<forall>x \<in> set (map snd (hashes (foldl apply_event s evs))). \<exists>h. x = Str h))"
proof (induction evs arbitrary: s)
  case Nil
  show ?case by simp
next
  case (Cons ev evs)
  have a: "set (map fst (hashes s)) \<subseteq> set (map fst (hashes (apply_event s ev)))"
    and b: "(\<forall>x \<in> set (map snd (hashes s)). \<exists>h. x = Str h) \<longrightarrow>
      (\<forall>x \<in> set (map snd (hashes (apply_event s ev))). \<exists>h. x = Str h)"
    using apply_event_hashes [of s ev] by blast+
  have c: "set (map fst (hashes (apply_event s ev)))
      \<subseteq> set (map fst (hashes (foldl apply_event (apply_event s ev) evs)))"
    and d: "(\<forall>x \<in> set (map snd (hashes (apply_event s ev))). \<exists>h. x = Str h) \<longrightarrow>
      (\<forall>x \<in> set (map snd (hashes (foldl apply_event (apply_event s ev) evs))). \<exists>h. x = Str h)"
    using Cons [of "apply_event s ev"] by blast+
  from a c have "set (map fst (hashes s))
      \<subseteq> set (map fst (hashes (foldl apply_event (apply_event s ev) evs)))"
    by (rule subset_trans)
  moreover from b d have "(\<forall>x \<in> set (map snd (hashes s)). \<exists>h. x = Str h) \<longrightarrow>
      (\<forall>x \<in> set (map snd (hashes (foldl apply_event (apply_event s ev) evs))). \<exists>h. x = Str h)"
    by blast
  ultimately show ?case
    by (simp only: foldl_Cons) 
qed

subsection \<open>The table of cells\<close>

lemma obs_df_before_insert:
  "set_index (Str ''soma_joinid'') (to_pandas obs_columns (map obs_cells obs)) =
     (Inr \<lparr>index_names = [Some (Str ''soma_joinid'')],
           columns = [Str ''dataset_id'', Str ''is_primary_data''],
           body = map (\<lambda>x. (joinid_label (soma_joinid x),
                     [Str (obs_dataset_id x), Bool (is_primary_data x)])) obs\<rparr>
        :: 'e pyerr + frame)"
proof -
  have "map (\<lambda>(k, cells). ([cells ! 1], drop_nth 1 cells))
          (zip (range_index (length (map obs_cells obs))) (map obs_cells obs))
      = map (\<lambda>cells. ([cells ! 1], drop_nth 1 cells)) (map obs_cells obs)"
    by (rule map_zip_ignore_fst) simp
  then show ?thesis
    by (simp add: set_index_def to_pandas_def obs_columns_def obs_cells_def drop_nth_def
        joinid_label_def o_def)
qed

lemma align_strings:
  assumes "align s ks = (Inr vs :: 'e pyerr + val list)"
    and "set ks \<subseteq> set (map fst s)" and "\<forall>x \<in> set (map snd s). \<exists>h. x = Str h"
  shows "\<exists>hs. vs = map Str hs \<and> length hs = length ks"
proof -
  have "(\<forall>v \<in> set vs. \<exists>h. v = Str h) \<and> length vs = length ks"
  proof (cases "map fst s = ks")
    case True
    with assms(1) have "vs = map snd s" by (simp add: align_def)
    moreover from True have "length (map snd s) = length ks"
      by (metis length_map)
    ultimately show ?thesis using assms(3) by simp
  next
    case False
    with assms(1) have d: "distinct (map fst s)"
      and vs: "vs = map (\<lambda>k. case map_of s k of None \<Rightarrow> NaN | Some v \<Rightarrow> v) ks"
      by (auto simp: align_def split: if_splits)
    have str: "\<And>k. k \<in> set ks \<Longrightarrow> \<exists>h. (case map_of s k of None \<Rightarrow> NaN | Some v \<Rightarrow> v) = Str h"
    proof -
      fix k assume "k \<in> set ks"
      with assms(2) obtain v where kv: "(k, v) \<in> set s" by force
      with d have "map_of s k = Some v" by simp
      moreover from kv assms(3) have "\<exists>h. v = Str h" by force
      ultimately show "\<exists>h. (case map_of s k of None \<Rightarrow> NaN | Some v \<Rightarrow> v) = Str h" by simp
    qed
    have "\<forall>v \<in> set vs. \<exists>h. v = Str h"
    proof
      fix v assume "v \<in> set vs"
      then obtain k where "k \<in> set ks" "v = (case map_of s k of None \<Rightarrow> NaN | Some v \<Rightarrow> v)"
        unfolding vs by (auto simp: image_iff)
      with str [of k] show "\<exists>h. v = Str h" by simp
    qed
    moreover have "length vs = length ks" unfolding vs by simp
    ultimately show ?thesis by blast
  qed
  then have all: "\<forall>v \<in> set vs. \<exists>h. v = Str h" and len: "length vs = length ks"
    by blast+
  from all have "\<exists>hs. vs = map Str hs"
  proof (induction vs)
    case Nil
    show ?case by simp
  next
    case (Cons v vs)
    then obtain h hs where "v = Str h" "vs = map Str hs" by auto
    then have "v # vs = map Str (h # hs)" by simp
    then show ?case by (rule exI)
  qed
  then obtain hs where hs: "vs = map Str hs" by blast
  with len have "vs = map Str hs \<and> length hs = length ks" by simp
  then show ?thesis by (rule exI)
qed

lemma hashing_loop_Inr_items:
  "hashing_loop L it s = Inr s' \<Longrightarrow> \<exists>cs. it = map Inr cs"
proof (induction L it s rule: hashing_loop.induct)
  case (1 L s)
  have "[] = map Inr []" by simp
  then show ?case by (rule exI)
next
  case (2 L e rest s)
  then show ?case by simp
next
  case (3 L ids vs X rest s)
  from "3.prems" obtain s1 where s1: "hash_rows L X 0 ids s = Inr s1"
    by (cases "hash_rows L X 0 ids s") simp_all
  with "3.prems" have "hashing_loop L rest
      (s1\<lparr>prog_value := prog_value s1 + 1, trace := trace s1 @ [Progress]\<rparr>) = Inr s'"
    by simp
  from "3.IH" [OF s1 this] obtain cs where "rest = map Inr cs" by blast
  then have "Inr ((ids, vs), X) # rest = map Inr (((ids, vs), X) # cs)" by simp
  then show ?case by (rule exI)
qed

lemma insert_hash_rows:
  "length obs = length hs \<Longrightarrow>
   map (\<lambda>((k, cells), v). (k, insert_nth 0 v cells))
     (zip (map (\<lambda>x. (joinid_label (soma_joinid x),
                     [Str (obs_dataset_id x), Bool (is_primary_data x)])) obs) (map Str hs))
   = map obs_row (zip obs hs)"
  by (induction obs hs rule: list_induct2) (simp_all add: insert_nth_def obs_row_def)

lemma hashing_cell_obs_df:
  fixes L :: "('v, 'e) hashlib"
  assumes "hashing_cell L census = Inr h"
  shows "\<exists>hs. length hs = length (census_obs census) \<and>
           the_obs_df h = obs_frame (zip (census_obs census) hs)"
proof -
  let ?obs = "census_obs census"
  let ?odf = "\<lparr>index_names = [Some (Str ''soma_joinid'')],
           columns = [Str ''dataset_id'', Str ''is_primary_data''],
           body = map (\<lambda>x. (joinid_label (soma_joinid x),
                     [Str (obs_dataset_id x), Bool (is_primary_data x)])) ?obs\<rparr>"
  let ?s0 = "\<lparr>hashes = map (\<lambda>k. (k, Str '''')) (index ?odf), prog_value = 0, trace = []\<rparr>"
  obtain ds where ds: "drop_column (Str ''soma_joinid'')
      (to_pandas datasets_columns (map datasets_cells (census_datasets census)))
      = (Inr ds :: 'e pyerr + frame)"
    using assms unfolding hashing_cell_def
    by (cases "drop_column (Str ''soma_joinid'')
      (to_pandas datasets_columns (map datasets_cells (census_datasets census))) :: 'e pyerr + frame")
      simp_all
  have odf: "set_index (Str ''soma_joinid'') (to_pandas obs_columns (map obs_cells ?obs))
      = (Inr ?odf :: 'e pyerr + frame)"
    by (rule obs_df_before_insert)
  obtain s where loop: "hashing_loop L (X_sparse_iter census row_stride) ?s0 = Inr s"
    using assms unfolding hashing_cell_def ds odf
    by (cases "hashing_loop L (X_sparse_iter census row_stride) ?s0") simp_all
  have ins: "insert_column 0 (Str ''hash'') (hashes s) ?odf = (Inr (the_obs_df h) :: 'e pyerr + frame)"
    using assms unfolding hashing_cell_def ds odf
    by (cases "insert_column 0 (Str ''hash'') (hashes s) ?odf :: 'e pyerr + frame")
      (auto simp: loop)
  from hashing_loop_Inr_items [OF loop] obtain cs where cs: "X_sparse_iter census row_stride = map Inr cs"
    by blast
  have "s = foldl apply_event ?s0 (map (visit_event L) (schedule cs))"
    by (rule hashing_loop_replay [OF loop [unfolded cs]])
  with replay_hashes [of ?s0 "map (visit_event L) (schedule cs)"]
  have keys: "set (index ?odf) \<subseteq> set (map fst (hashes s))"
    and vals: "\<forall>x \<in> set (map snd (hashes s)). \<exists>h. x = Str h"
    by (simp_all add: o_def)
  have nocol: "Str ''hash'' \<notin> set (columns ?odf)"
    by simp
  obtain vs where al: "align (hashes s) (map fst (body ?odf)) = (Inr vs :: 'e pyerr + val list)"
    using ins nocol unfolding insert_column_def
    by (cases "align (hashes s) (map fst (body ?odf)) :: 'e pyerr + val list") simp_all
  have odf': "the_obs_df h = ?odf\<lparr>columns := insert_nth 0 (Str ''hash'') (columns ?odf),
                          body := map (\<lambda>((k, cells), v). (k, insert_nth 0 v cells))
                                      (zip (body ?odf) vs)\<rparr>"
    using ins nocol al unfolding insert_column_def by simp
  from keys have "set (map fst (body ?odf)) \<subseteq> set (map fst (hashes s))"
    by (simp add: index_def)
  from align_strings [OF al this vals] obtain hs where hs: "vs = map Str hs"
    and len: "length hs = length ?obs"
    by auto
  from len have "map (\<lambda>((k, cells), v). (k, insert_nth 0 v cells)) (zip (body ?odf) vs)
      = map obs_row (zip ?obs hs)"
    unfolding hs by (simp add: insert_hash_rows)
  with odf' have "the_obs_df h = obs_frame (zip ?obs hs)"
    by (simp add: obs_frame_def insert_nth_def)
  with len show ?thesis by blast
qed

lemma datasets_df_shape:
  fixes L :: "('v, 'e) hashlib"
  assumes "hashing_cell L census = Inr h"
  shows "the_datasets_df h = datasets_frame (census_datasets census)"
proof -
  let ?ds = "census_datasets census"
  let ?D = "\<lparr>index_names = [None],
      columns = [Str ''collection_id'', Str ''collection_name'', Str ''collection_doi'',
                 Str ''dataset_id'', Str ''dataset_title'', Str ''dataset_h5ad_path'',
                 Str ''dataset_total_cell_count''],
      body = zip (range_index (length ?ds))
               (map (\<lambda>d. [Str (collection_id d), Str (collection_name d), Str (collection_doi d),
                          Str (dataset_id d), Str (dataset_title d), Str (dataset_h5ad_path d),
                          Num (of_nat (dataset_total_cell_count d))]) ?ds)\<rparr>"
  have z: "map (\<lambda>(k, cells). (k, drop_nth 0 cells)) (zip (range_index (length ?ds)) (map datasets_cells ?ds))
      = zip (range_index (length ?ds)) (map (\<lambda>d. drop_nth 0 (datasets_cells d)) ?ds)"
    by (simp add: zip_map2 o_def case_prod_unfold)
  have d: "drop_column (Str ''soma_joinid'') (to_pandas datasets_columns (map datasets_cells ?ds))
      = (Inr ?D :: 'e pyerr + frame)"
    unfolding drop_column_def to_pandas_def
    by (simp add: datasets_columns_def z) (simp add: datasets_cells_def drop_nth_def)
  from assms show ?thesis
    unfolding hashing_cell_def d datasets_frame_def
    by (auto split: sum.splits)
qed

section \<open>Properties of the report cells\<close>

subsection \<open>The pivot\<close>

lemma hash_keys_pairs:
  "\<forall>kn \<in> set (key_counts (hash_keys xs)). \<exists>a b. fst kn = [a, b] \<and> a \<noteq> NaN \<and> b \<noteq> NaN"
  by (auto simp: key_counts_set hash_keys_def)

lemma key_counts_lookup:
  "(case map_of (key_counts keys) k of None \<Rightarrow> 0 | Some n \<Rightarrow> n) = count_list keys k"
  by (simp add: key_counts_map_of count_list_0_iff)

lemma set_fst_key_counts: "fst ` set (key_counts keys) = set keys"
  by (auto simp: key_counts_set image_iff)

lemma hash_primary_pivot_obs_frame:
  "hash_primary_pivot_cell (obs_frame xs) =
     (Inr \<lparr>index_names = [Some (Str ''hash'')],
           columns = pivot_columns xs,
           body = map (\<lambda>a. ([a],
                    map (\<lambda>b. Num (of_nat (count_list (hash_keys xs) [a, b]))) (pivot_columns xs)))
                    (pivot_index xs)\<rparr>
        :: 'e pyerr + frame)"
proof -
  let ?cs = "key_counts (hash_keys xs)"
  let ?V = "\<lparr>index_names = [Some (Str ''hash''), Some (Str ''is_primary_data'')],
           columns = [Num 0],
           body = map (\<lambda>(k, n). (k, [Num (of_nat n)])) ?cs\<rparr>"
  let ?W = "\<lparr>index_names = [None],
            columns = [Str ''hash'', Str ''is_primary_data'', Num 0],
            body = zip (range_index (length ?cs)) (map (\<lambda>(k, n). k @ [Num (of_nat n)]) ?cs)\<rparr>"
  have r: "reset_index ?V = (Inr ?W :: 'e pyerr + frame)"
    by (simp add: reset_index_def level_name_def Let_def case_prod_unfold o_def)
  have rows: "map snd (body ?W) = map (\<lambda>(k, n). k @ [Num (of_nat n)]) ?cs"
    by simp
  have i: "sort (remdups (map (\<lambda>kn. fst kn ! 0) ?cs)) = pivot_index xs"
    unfolding pivot_index_def
    by (rule sort_remdups_cong) (force simp: key_counts_set hash_keys_def image_iff)
  have c: "sort (remdups (map (\<lambda>kn. fst kn ! 1) ?cs)) = pivot_columns xs"
    unfolding pivot_columns_def
    by (rule sort_remdups_cong) (force simp: key_counts_set hash_keys_def image_iff)
  have "pivot_table (Str ''hash'') (Str ''is_primary_data'') (Num 0) (Num 0) ?W =
     (Inr \<lparr>index_names = [Some (Str ''hash'')],
           columns = pivot_columns xs,
           body = map (\<lambda>a. ([a],
                    map (\<lambda>b. Num (of_nat (count_list (hash_keys xs) [a, b]))) (pivot_columns xs)))
                    (pivot_index xs)\<rparr>
        :: 'e pyerr + frame)"
    using pivot_table_counts [of ?W "Str ''hash''" "Str ''is_primary_data''" "Num 0" ?cs,
        OF _ _ _ _ rows hash_keys_pairs key_counts_distinct]
    by (simp add: i c [unfolded One_nat_def] key_counts_lookup)
  then show ?thesis
    by (simp add: hash_primary_pivot_cell_def value_counts_obs_frame r)
qed

subsection \<open>Selecting the cells of some hashes\<close>

lemma index_of_Some: "index_of x xs = Some i \<Longrightarrow> i < length xs \<and> xs ! i = x"
  by (induction xs arbitrary: i) (auto split: if_splits)

lemma index_of_None: "index_of x xs = None \<longleftrightarrow> x \<notin> set xs"
  by (induction xs) auto

lemma mask_index:
  "map fst (map fst (filter (\<lambda>(row, b). snd b = Bool True) (zip (map f as) (map g as))))
     = map (\<lambda>a. fst (f a)) (filter (\<lambda>a. snd (g a) = Bool True) as)"
  by (induction as) simp_all

lemma mask_body:
  "map fst (filter (\<lambda>(row, b). snd b = Bool True) (zip (map f as) (map g as)))
     = map f (filter (\<lambda>a. snd (g a) = Bool True) as)"
  by (induction as) simp_all

lemma mset_concat_filter:
  assumes "distinct ks"
  shows "mset (concat (map (\<lambda>a. filter (\<lambda>x. key x = a) xs) ks))
       = mset (filter (\<lambda>x. key x \<in> set ks) xs)"
  using assms
proof (induction ks)
  case Nil
  show ?case by simp
next
  case (Cons a ks)
  then have "a \<notin> set ks" and ih: "mset (concat (map (\<lambda>a. filter (\<lambda>x. key x = a) xs) ks))
       = mset (filter (\<lambda>x. key x \<in> set ks) xs)"
    by simp_all
  have "mset (filter (\<lambda>x. key x = a) xs) + mset (filter (\<lambda>x. key x \<in> set ks) xs)
      = mset (filter (\<lambda>x. key x \<in> set (a # ks)) xs)"
    using \<open>a \<notin> set ks\<close> by (induction xs) auto
  with ih show ?case by simp
qed

text \<open>The column \<open>True\<close> of the pivot.\<close>

lemma primary_column:
  fixes xs :: "(obs_rec \<times> string) list"
  defines "P \<equiv> \<lparr>index_names = [Some (Str ''hash'')],
           columns = pivot_columns xs,
           body = map (\<lambda>a. ([a],
                    map (\<lambda>b. Num (of_nat (count_list (hash_keys xs) [a, b]))) (pivot_columns xs)))
                    (pivot_index xs)\<rparr>"
  shows "loc_column (Bool True) P =
     (if \<exists>xh \<in> set xs. is_primary_data (fst xh)
      then Inr (map (\<lambda>a. ([a], Num (of_nat (count_list (hash_keys xs) [a, Bool True]))))
                 (pivot_index xs))
      else Inl KeyError :: 'e pyerr + series)"
proof (cases "index_of (Bool True) (pivot_columns xs)")
  case None
  then have "Bool True \<notin> set (pivot_columns xs)"
    by (simp add: index_of_None)
  then have "\<not> (\<exists>xh \<in> set xs. is_primary_data (fst xh))"
    by (force simp: pivot_columns_def)
  with None show ?thesis
    by (simp add: loc_column_def P_def)
next
  case (Some i)
  from index_of_Some [OF Some] have i: "i < length (pivot_columns xs)"
    and v: "pivot_columns xs ! i = Bool True"
    by simp_all
  from i v have "Bool True \<in> set (pivot_columns xs)"
    by (metis nth_mem)
  then have ex: "\<exists>xh \<in> set xs. is_primary_data (fst xh)"
    by (auto simp: pivot_columns_def)
  from i v have "\<And>a. map (\<lambda>b. Num (of_nat (count_list (hash_keys xs) [a, b]))) (pivot_columns xs) ! i
      = Num (of_nat (count_list (hash_keys xs) [a, Bool True]))"
    by simp
  with Some ex show ?thesis
    by (simp add: loc_column_def P_def o_def)
qed

lemma case_sum_Inr:
  "(case m of Inl e \<Rightarrow> Inl e | Inr a \<Rightarrow> k a) = Inr b \<Longrightarrow> \<exists>a. m = Inr a \<and> k a = Inr b"
  by (cases m) auto

lemma mask_index_comp:
  "map (fst \<circ> fst) (filter (\<lambda>(row, b). snd b = Bool True) (zip (map f as) (map g as)))
     = map (\<lambda>a. fst (f a)) (filter (\<lambda>a. snd (g a) = Bool True) as)"
  by (induction as) simp_all

text \<open>The cells whose hash passes a test on its number of primary copies.\<close>

lemma select_by_hash_obs_frame:
  fixes xs :: "(obs_rec \<times> string) list" and t :: "val \<Rightarrow> bool"
  defines "P \<equiv> \<lparr>index_names = [Some (Str ''hash'')],
           columns = pivot_columns xs,
           body = map (\<lambda>a. ([a],
                    map (\<lambda>b. Num (of_nat (count_list (hash_keys xs) [a, b]))) (pivot_columns xs)))
                    (pivot_index xs)\<rparr>"
  assumes test: "\<And>s. test s = map (\<lambda>kv. (fst kv, Bool (t (snd kv)))) s"
  shows "select_by_hash test (obs_frame xs) P =
     (if \<exists>xh \<in> set xs. is_primary_data (fst xh)
      then Inr (obs_frame (concat (map (\<lambda>a. filter (\<lambda>xh. Str (snd xh) = a) xs)
                  (filter (\<lambda>a. t (Num (of_nat (count_list (hash_keys xs) [a, Bool True]))))
                     (pivot_index xs)))))
      else Inl KeyError :: 'e pyerr + frame)"
proof -
  let ?B0 = "\<lparr>index_names = [Some (Str ''hash'')],
           columns = [Str ''soma_joinid'', Str ''dataset_id'', Str ''is_primary_data''],
           body = map (\<lambda>xh. ([Str (snd xh)],
                    [Num (of_nat (soma_joinid (fst xh))), Str (obs_dataset_id (fst xh)),
                     Bool (is_primary_data (fst xh))])) xs\<rparr>"
  from case_sum_Inr [OF by_hash_obs_frame [of xs, where ?'e = 'e]]
  obtain A where A: "reset_index (obs_frame xs) = (Inr A :: 'e pyerr + frame)"
    and B: "set_index (Str ''hash'') A = (Inr ?B0 :: 'e pyerr + frame)"
    by blast
  show ?thesis
proof (cases "\<exists>xh \<in> set xs. is_primary_data (fst xh)")
  case False
  then show ?thesis
    unfolding select_by_hash_def P_def
    by (simp add: A B primary_column)
next
  case True
  let ?B = "\<lparr>index_names = [Some (Str ''hash'')],
           columns = [Str ''soma_joinid'', Str ''dataset_id'', Str ''is_primary_data''],
           body = map (\<lambda>xh. ([Str (snd xh)],
                    [Num (of_nat (soma_joinid (fst xh))), Str (obs_dataset_id (fst xh)),
                     Bool (is_primary_data (fst xh))])) xs\<rparr>"
  let ?col = "map (\<lambda>a. ([a], Num (of_nat (count_list (hash_keys xs) [a, Bool True])))) (pivot_index xs)"
  let ?sel = "filter (\<lambda>a. t (Num (of_nat (count_list (hash_keys xs) [a, Bool True])))) (pivot_index xs)"
  let ?ys = "concat (map (\<lambda>a. filter (\<lambda>xh. Str (snd xh) = a) xs) ?sel)"
  have col: "loc_column (Bool True) P = (Inr ?col :: 'e pyerr + series)"
    unfolding P_def using True by (simp add: primary_column)
  have idx: "index (mask_rows (test ?col) P) = map (\<lambda>a. [a]) ?sel"
  proof -
    have "test ?col = map (\<lambda>a. ([a], Bool (t (Num (of_nat (count_list (hash_keys xs) [a, Bool True]))))))
        (pivot_index xs)"
      by (simp add: test o_def)
    then show ?thesis
      unfolding index_def mask_rows_def P_def
      by (simp add: mask_index_comp)
  qed
  have sub: "set ?sel \<subseteq> (\<lambda>xh. Str (snd xh)) ` set xs"
    by (auto simp: pivot_index_def)
  have loc: "loc_rows (map (\<lambda>a. [a]) ?sel) ?B =
      (Inr (?B\<lparr>body := concat (map (\<lambda>k. filter (\<lambda>(k', cells). k' = k) (body ?B))
                          (map (\<lambda>a. [a]) ?sel))\<rparr>) :: 'e pyerr + frame)"
  proof -
    have "\<not> (\<exists>k \<in> set (map (\<lambda>a. [a]) ?sel). k \<notin> set (index ?B))"
      using sub by (auto simp: index_def image_iff)
    then show ?thesis
      unfolding loc_rows_def by (simp only: if_False)
  qed
  have body: "concat (map (\<lambda>k. filter (\<lambda>(k', cells). k' = k) (body ?B)) (map (\<lambda>a. [a]) ?sel))
      = map (\<lambda>xh. ([Str (snd xh)],
                    [Num (of_nat (soma_joinid (fst xh))), Str (obs_dataset_id (fst xh)),
                     Bool (is_primary_data (fst xh))])) ?ys"
    by (simp add: map_concat filter_map o_def)
  let ?C = "\<lparr>index_names = [Some (Str ''hash'')],
           columns = [Str ''soma_joinid'', Str ''dataset_id'', Str ''is_primary_data''],
           body = map (\<lambda>xh. ([Str (snd xh)],
                    [Num (of_nat (soma_joinid (fst xh))), Str (obs_dataset_id (fst xh)),
                     Bool (is_primary_data (fst xh))])) ?ys\<rparr>"
  have loc': "loc_rows (index (mask_rows (test ?col) P)) ?B = (Inr ?C :: 'e pyerr + frame)"
    unfolding idx loc body by simp
  have restored: "(case reset_index ?C of Inl e \<Rightarrow> Inl e | Inr c \<Rightarrow> set_index (Str ''soma_joinid'') c)
      = (Inr (obs_frame ?ys) :: 'e pyerr + frame)"
  proof -
    have a: "\<not> (\<exists>n \<in> set (map level_name (index_names ?C)). n \<in> set (columns ?C))"
      by (simp add: level_name_def)
    have b: "index_of (Str ''soma_joinid'') (map level_name (index_names ?C) @ columns ?C) = Some 1"
      by (simp add: level_name_def)
    show ?thesis
      unfolding reset_then_set_index [OF a b]
      by (simp add: obs_frame_def level_name_def drop_nth_def obs_row_def joinid_label_def)
  qed
  from case_sum_Inr [OF restored]
  obtain C' where C1: "reset_index ?C = (Inr C' :: 'e pyerr + frame)"
    and C2: "set_index (Str ''soma_joinid'') C' = (Inr (obs_frame ?ys) :: 'e pyerr + frame)"
    by blast
  have "select_by_hash test (obs_frame xs) P = (Inr (obs_frame ?ys) :: 'e pyerr + frame)"
    unfolding select_by_hash_def
    by (simp only: A B col loc' C1 C2 sum.case)
  with True show ?thesis by simp
qed
qed

subsection \<open>The duplicate-primary report\<close>

lemma primary_filter_obs_frame:
  "(case loc_column (Str ''is_primary_data'') (obs_frame ys) of
      Inl e \<Rightarrow> Inl e
    | Inr is_primary \<Rightarrow> Inr (mask_rows (series_eq is_primary (Bool True)) (obs_frame ys)))
   = (Inr (obs_frame (filter (\<lambda>xh. is_primary_data (fst xh)) ys)) :: 'e pyerr + frame)"
proof -
  let ?g = "\<lambda>xh. (joinid_label (soma_joinid (fst xh)),
                 Bool (Bool (is_primary_data (fst xh)) = Bool True \<and> Bool (is_primary_data (fst xh)) \<noteq> NaN))"
  have c: "loc_column (Str ''is_primary_data'') (obs_frame ys)
      = (Inr (map (\<lambda>xh. (joinid_label (soma_joinid (fst xh)), Bool (is_primary_data (fst xh)))) ys)
          :: 'e pyerr + series)"
    by (simp add: loc_column_def obs_frame_def obs_row_def)
  have e: "series_eq (map (\<lambda>xh. (joinid_label (soma_joinid (fst xh)), Bool (is_primary_data (fst xh)))) ys)
      (Bool True) = map ?g ys"
    by (simp add: series_eq_def)
  have "map fst (filter (\<lambda>(row, b). snd b = Bool True) (zip (map obs_row ys) (map ?g ys)))
      = map obs_row (filter (\<lambda>a. snd (?g a) = Bool True) ys)"
    by (rule mask_body)
  also have "\<dots> = map obs_row (filter (\<lambda>xh. is_primary_data (fst xh)) ys)"
    by simp
  finally have "mask_rows (map ?g ys) (obs_frame ys)
      = obs_frame (filter (\<lambda>xh. is_primary_data (fst xh)) ys)"
    by (simp add: mask_rows_def obs_frame_def)
  with c e show ?thesis by simp
qed

lemma duplicated_labels:
  fixes xs :: "(obs_rec \<times> string) list"
  defines "sel \<equiv> filter (\<lambda>a. case Num (of_nat (count_list (hash_keys xs) [a, Bool True])) of
                               Num q \<Rightarrow> 1 < q | _ \<Rightarrow> False) (pivot_index xs)"
  shows "distinct sel"
    and "xh \<in> set xs \<Longrightarrow> Str (snd xh) \<in> set sel \<longleftrightarrow> 1 < primary_copies xs (snd xh)"
proof -
  show "distinct sel"
    by (simp add: sel_def pivot_index_def)
  assume "xh \<in> set xs"
  then have "Str (snd xh) \<in> set (pivot_index xs)"
    by (simp add: pivot_index_def)
  moreover have "count_list (hash_keys xs) [Str (snd xh), Bool True] = primary_copies xs (snd xh)"
    by (simp add: count_hash_keys primary_copies_def)
  ultimately show "Str (snd xh) \<in> set sel \<longleftrightarrow> 1 < primary_copies xs (snd xh)"
    by (simp add: sel_def)
qed

lemma duplicate_primary_rows:
  fixes xs :: "(obs_rec \<times> string) list"
  defines "sel \<equiv> filter (\<lambda>a. case Num (of_nat (count_list (hash_keys xs) [a, Bool True])) of
                               Num q \<Rightarrow> 1 < q | _ \<Rightarrow> False) (pivot_index xs)"
  shows "mset (filter (\<lambda>xh. is_primary_data (fst xh))
                 (concat (map (\<lambda>a. filter (\<lambda>xh. Str (snd xh) = a) xs) sel)))
       = mset (filter (\<lambda>xh. is_primary_data (fst xh) \<and> 1 < primary_copies xs (snd xh)) xs)"
proof -
  have d: "distinct sel"
    unfolding sel_def by (rule duplicated_labels(1))
  have "mset (concat (map (\<lambda>a. filter (\<lambda>xh. Str (snd xh) = a) xs) sel))
      = mset (filter (\<lambda>xh. Str (snd xh) \<in> set sel) xs)"
    using d by (rule mset_concat_filter)
  also have "\<dots> = mset (filter (\<lambda>xh. 1 < primary_copies xs (snd xh)) xs)"
  proof -
    have "filter (\<lambda>xh. Str (snd xh) \<in> set sel) xs = filter (\<lambda>xh. 1 < primary_copies xs (snd xh)) xs"
      unfolding sel_def by (rule filter_cong [OF refl]) (rule duplicated_labels(2))
    then show ?thesis by simp
  qed
  finally have "filter_mset (\<lambda>xh. is_primary_data (fst xh))
        (mset (concat (map (\<lambda>a. filter (\<lambda>xh. Str (snd xh) = a) xs) sel)))
      = filter_mset (\<lambda>xh. is_primary_data (fst xh))
          (mset (filter (\<lambda>xh. 1 < primary_copies xs (snd xh)) xs))"
    by simp
  moreover have "filter_mset (\<lambda>xh. is_primary_data (fst xh))
          (mset (filter (\<lambda>xh. 1 < primary_copies xs (snd xh)) xs))
      = mset (filter (\<lambda>xh. is_primary_data (fst xh) \<and> 1 < primary_copies xs (snd xh)) xs)"
    by (simp add: filter_filter_mset conj_commute)
  ultimately show ?thesis
    by (simp only: mset_filter)
qed

lemma map_of_singleton_keys:
  "a \<in> set as \<Longrightarrow> map_of (map (\<lambda>a. ([a], f a)) as) [a] = Some (f a)"
  by (induction as) auto

lemma obs_duplicate_primary_obs_frame:
  fixes xs :: "(obs_rec \<times> string) list"
  defines "P \<equiv> \<lparr>index_names = [Some (Str ''hash'')],
           columns = pivot_columns xs,
           body = map (\<lambda>a. ([a],
                    map (\<lambda>b. Num (of_nat (count_list (hash_keys xs) [a, b]))) (pivot_columns xs)))
                    (pivot_index xs)\<rparr>"
    and "sel \<equiv> filter (\<lambda>a. case Num (of_nat (count_list (hash_keys xs) [a, Bool True])) of
                               Num q \<Rightarrow> 1 < q | _ \<Rightarrow> False) (pivot_index xs)"
  shows "obs_duplicate_primary_cell (obs_frame xs) P =
     (if \<exists>xh \<in> set xs. is_primary_data (fst xh)
      then Inr (obs_frame (filter (\<lambda>xh. is_primary_data (fst xh))
                  (concat (map (\<lambda>a. filter (\<lambda>xh. Str (snd xh) = a) xs) sel))))
      else Inl KeyError :: 'e pyerr + frame)"
proof -
  let ?t = "\<lambda>v. case v of Num q \<Rightarrow> 1 < q | _ \<Rightarrow> False"
  have test: "\<And>s. series_gt s 1 = map (\<lambda>kv. (fst kv, Bool (?t (snd kv)))) s"
    by (simp add: series_gt_def case_prod_unfold)
  note sel = select_by_hash_obs_frame [of "\<lambda>s. series_gt s 1" ?t xs, OF test, where ?'e = 'e]
  show ?thesis
  proof (cases "\<exists>xh \<in> set xs. is_primary_data (fst xh)")
    case False
    with sel show ?thesis
      unfolding obs_duplicate_primary_cell_def P_def by simp
  next
    case True
    let ?ys = "concat (map (\<lambda>a. filter (\<lambda>xh. Str (snd xh) = a) xs) sel)"
    from True sel have s: "select_by_hash (\<lambda>s. series_gt s 1) (obs_frame xs) P
        = (Inr (obs_frame ?ys) :: 'e pyerr + frame)"
      unfolding P_def sel_def by simp
    show ?thesis
      unfolding obs_duplicate_primary_cell_def s
      using True primary_filter_obs_frame [of ?ys, where ?'e = 'e]
      by simp
  qed
qed

lemma pivot_at_primary:
  fixes xs :: "(obs_rec \<times> string) list"
  defines "P \<equiv> \<lparr>index_names = [Some (Str ''hash'')],
           columns = pivot_columns xs,
           body = map (\<lambda>a. ([a],
                    map (\<lambda>b. Num (of_nat (count_list (hash_keys xs) [a, b]))) (pivot_columns xs)))
                    (pivot_index xs)\<rparr>"
  assumes "xh \<in> set xs" and "\<exists>x \<in> set xs. is_primary_data (fst x)"
  shows "pivot_at P (Str (snd xh)) (Bool True) = Some (Num (of_nat (primary_copies xs (snd xh))))"
proof -
  from assms(2) have "Str (snd xh) \<in> set (pivot_index xs)"
    by (simp add: pivot_index_def)
  then have m: "map_of (body P) [Str (snd xh)]
      = Some (map (\<lambda>b. Num (of_nat (count_list (hash_keys xs) [Str (snd xh), b]))) (pivot_columns xs))"
    unfolding P_def by (simp add: map_of_singleton_keys)
  from assms(3) have "Bool True \<in> set (pivot_columns xs)"
    by (force simp: pivot_columns_def)
  then obtain i where i: "index_of (Bool True) (pivot_columns xs) = Some i"
    by (cases "index_of (Bool True) (pivot_columns xs)") (simp_all add: index_of_None)
  from index_of_Some [OF i] have "i < length (pivot_columns xs)" "pivot_columns xs ! i = Bool True"
    by simp_all
  then have "map (\<lambda>b. Num (of_nat (count_list (hash_keys xs) [Str (snd xh), b]))) (pivot_columns xs) ! i
      = Num (of_nat (count_list (hash_keys xs) [Str (snd xh), Bool True]))"
    by simp
  moreover have "count_list (hash_keys xs) [Str (snd xh), Bool True] = primary_copies xs (snd xh)"
    by (simp add: count_hash_keys primary_copies_def)
  ultimately show ?thesis
    using m i by (simp add: pivot_at_def P_def)
qed

lemma finddups_Inr:
  fixes L :: "('v, 'e) hashlib"
  assumes "finddups L census = Inr nb"
  shows "\<exists>h. hashing_cell L census = Inr h \<and>
           nb_datasets_df nb = the_datasets_df h \<and> nb_obs_df nb = the_obs_df h \<and>
           nb_hashes nb = hashes (the_loop_state h) \<and>
           nb_prog_value nb = prog_value (the_loop_state h) \<and>
           hash_primary_pivot_cell (the_obs_df h) = (Inr (hash_primary_pivot nb) :: 'e pyerr + frame) \<and>
           obs_missing_primary_cell (the_obs_df h) (hash_primary_pivot nb)
             = (Inr (obs_missing_primary nb) :: 'e pyerr + frame) \<and>
           datasets_with_cell (obs_missing_primary nb) (the_datasets_df h)
             = (Inr (datasets_with_missing_primary nb) :: 'e pyerr + frame) \<and>
           obs_duplicate_primary_cell (the_obs_df h) (hash_primary_pivot nb)
             = (Inr (obs_duplicate_primary nb) :: 'e pyerr + frame) \<and>
           datasets_with_cell (obs_duplicate_primary nb) (the_datasets_df h)
             = (Inr (datasets_with_dup_primary nb) :: 'e pyerr + frame)"
proof -
  obtain h where h: "hashing_cell L census = Inr h"
    using assms unfolding finddups_def by (cases "hashing_cell L census") simp_all
  obtain pivot where p: "hash_primary_pivot_cell (the_obs_df h) = (Inr pivot :: 'e pyerr + frame)"
    using assms unfolding finddups_def h
    by (cases "hash_primary_pivot_cell (the_obs_df h) :: 'e pyerr + frame") simp_all
  obtain missing where m: "obs_missing_primary_cell (the_obs_df h) pivot = (Inr missing :: 'e pyerr + frame)"
    using assms unfolding finddups_def h
    by (cases "obs_missing_primary_cell (the_obs_df h) pivot :: 'e pyerr + frame") (simp_all add: p)
  obtain dm where dm: "datasets_with_cell missing (the_datasets_df h) = (Inr dm :: 'e pyerr + frame)"
    using assms unfolding finddups_def h
    by (cases "datasets_with_cell missing (the_datasets_df h) :: 'e pyerr + frame") (simp_all add: p m)
  obtain dup where d: "obs_duplicate_primary_cell (the_obs_df h) pivot = (Inr dup :: 'e pyerr + frame)"
    using assms unfolding finddups_def h
    by (cases "obs_duplicate_primary_cell (the_obs_df h) pivot :: 'e pyerr + frame") (simp_all add: p m dm)
  obtain dd where dd: "datasets_with_cell dup (the_datasets_df h) = (Inr dd :: 'e pyerr + frame)"
    using assms unfolding finddups_def h
    by (cases "datasets_with_cell dup (the_datasets_df h) :: 'e pyerr + frame") (simp_all add: p m dm d)
  have "nb = \<lparr>nb_datasets_df = the_datasets_df h, nb_obs_df = the_obs_df h,
               nb_hashes = hashes (the_loop_state h), nb_prog_value = prog_value (the_loop_state h),
               hash_primary_pivot = pivot, obs_missing_primary = missing,
               datasets_with_missing_primary = dm, obs_duplicate_primary = dup,
               datasets_with_dup_primary = dd\<rparr>"
    using assms unfolding finddups_def h by (simp add: p m dm d dd)
  with h p m dm d dd show ?thesis by simp
qed

section \<open>Properties of the per-dataset reports\<close>

lemma by_dataset_frame:
  "set_index (Str ''dataset_id'') (datasets_frame ds) =
     (Inr \<lparr>index_names = [Some (Str ''dataset_id'')],
           columns = [Str ''collection_id'', Str ''collection_name'', Str ''collection_doi'',
                      Str ''dataset_title'', Str ''dataset_h5ad_path'',
                      Str ''dataset_total_cell_count''],
           body = map (\<lambda>d. ([Str (dataset_id d)], dataset_metadata d)) ds\<rparr>
        :: 'e pyerr + frame)"
proof -
  let ?g = "\<lambda>d. [Str (collection_id d), Str (collection_name d), Str (collection_doi d),
                          Str (dataset_id d), Str (dataset_title d), Str (dataset_h5ad_path d),
                          Num (of_nat (dataset_total_cell_count d))]"
  have "map (\<lambda>(k, cells). ([cells ! 3], drop_nth 3 cells)) (zip (range_index (length ds)) (map ?g ds))
      = map (\<lambda>cells. ([cells ! 3], drop_nth 3 cells)) (map ?g ds)"
    by (rule map_zip_ignore_fst) simp
  also have "\<dots> = map (\<lambda>d. ([Str (dataset_id d)], dataset_metadata d)) ds"
    by (simp add: drop_nth_def dataset_metadata_def)
  finally have f: "map (\<lambda>(k, cells). ([cells ! 3], drop_nth 3 cells))
        (zip (range_index (length ds)) (map ?g ds))
      = map (\<lambda>d. ([Str (dataset_id d)], dataset_metadata d)) ds" .
  have i: "index_of (Str ''dataset_id'') (columns (datasets_frame ds)) = Some 3"
    by (simp add: datasets_frame_def eval_nat_numeral)
  have b: "body (datasets_frame ds) = zip (range_index (length ds)) (map ?g ds)"
    by (simp add: datasets_frame_def)
  have c: "drop_nth 3 (columns (datasets_frame ds))
      = [Str ''collection_id'', Str ''collection_name'', Str ''collection_doi'',
         Str ''dataset_title'', Str ''dataset_h5ad_path'', Str ''dataset_total_cell_count'']"
    by (simp add: datasets_frame_def drop_nth_def)
  show ?thesis
    unfolding set_index_def i option.case b c f ..
qed

lemma dataset_counts_obs_frame:
  "value_counts [Str ''dataset_id''] (obs_frame ys) =
     (Inr \<lparr>index_names = [Some (Str ''dataset_id'')],
           columns = [Num 0],
           body = map (\<lambda>(k, n). (k, [Num (of_nat n)]))
                    (key_counts (map (\<lambda>xh. [Str (obs_dataset_id (fst xh))]) ys))\<rparr>
        :: 'e pyerr + frame)"
proof -
  have p: "positions [Str ''dataset_id''] (columns (obs_frame ys)) = Some [1]"
    by (simp add: obs_frame_def)
  have k: "map (\<lambda>(k, cells). map (\<lambda>i. cells ! i) [1]) (body (obs_frame ys))
      = map (\<lambda>xh. [Str (obs_dataset_id (fst xh))]) ys"
    by (simp add: obs_frame_def obs_row_def)
  have "filter (\<lambda>k. NaN \<notin> set k) (map (\<lambda>xh. [Str (obs_dataset_id (fst xh))]) ys)
      = map (\<lambda>xh. [Str (obs_dataset_id (fst xh))]) ys"
    by (induction ys) simp_all
  with p k show ?thesis
    by (simp add: value_counts_def Let_def)
qed

lemma datasets_with_cell_obs_frame:
  fixes ys :: "(obs_rec \<times> string) list" and ds :: "dataset_rec list"
  defines "counts \<equiv> key_counts (map (\<lambda>xh. [Str (obs_dataset_id (fst xh))]) ys)"
  defines "joined \<equiv> concat (map (\<lambda>kn.
             if filter (\<lambda>d. [Str (dataset_id d)] = [fst kn ! 0]) ds = []
             then [(fst kn, [Num (of_nat (snd kn))] @ replicate 6 NaN)]
             else map (\<lambda>d. (fst kn, [Num (of_nat (snd kn))] @ dataset_metadata d))
                    (filter (\<lambda>d. [Str (dataset_id d)] = [fst kn ! 0]) ds)) counts)"
  shows "datasets_with_cell (obs_frame ys) (datasets_frame ds) =
     (Inr \<lparr>index_names = [None],
           columns = [Str ''dataset_id'', Num 0, Str ''collection_id'', Str ''collection_name'',
                      Str ''collection_doi'', Str ''dataset_title'', Str ''dataset_h5ad_path'',
                      Str ''dataset_total_cell_count''],
           body = zip (range_index (length joined)) (map (\<lambda>(k, cells). k @ cells) joined)\<rparr>
        :: 'e pyerr + frame)"
proof -
  let ?left = "\<lparr>index_names = [Some (Str ''dataset_id'')],
           columns = [Num 0],
           body = map (\<lambda>(k, n). (k, [Num (of_nat n)])) counts\<rparr>"
  let ?right = "\<lparr>index_names = [Some (Str ''dataset_id'')],
           columns = [Str ''collection_id'', Str ''collection_name'', Str ''collection_doi'',
                      Str ''dataset_title'', Str ''dataset_h5ad_path'',
                      Str ''dataset_total_cell_count''],
           body = map (\<lambda>d. ([Str (dataset_id d)], dataset_metadata d)) ds\<rparr>"
  let ?J = "\<lparr>index_names = [Some (Str ''dataset_id'')],
           columns = [Num 0, Str ''collection_id'', Str ''collection_name'', Str ''collection_doi'',
                      Str ''dataset_title'', Str ''dataset_h5ad_path'',
                      Str ''dataset_total_cell_count''],
           body = joined\<rparr>"
  have rn: "rename_column (Str ''count'') (Str ''dup_cell_count'') ?left = ?left"
    by (simp add: rename_column_def)
  have key: "key_of (Str ''dataset_id'') ?left = Some (\<lambda>(k, cells). k ! 0)"
    by (simp add: key_of_def)
  have body: "concat (map (\<lambda>row.
                 let partners = filter (\<lambda>(k', cells'). k' = [(\<lambda>(k, cells). k ! 0) row]) (body ?right)
                 in if partners = []
                    then [(fst row, snd row @ replicate (length (columns ?right)) NaN)]
                    else map (\<lambda>(k', cells'). (fst row, snd row @ cells')) partners)
               (body ?left)) = joined"
    unfolding joined_def
    by (simp add: Let_def filter_map o_def case_prod_unfold eval_nat_numeral cong: if_cong)
  have j: "join_on (Str ''dataset_id'') ?left ?right = (Inr ?J :: 'e pyerr + frame)"
    unfolding join_on_def key option.case body
    by simp
  have r: "reset_index ?J = (Inr \<lparr>index_names = [None],
           columns = [Str ''dataset_id'', Num 0, Str ''collection_id'', Str ''collection_name'',
                      Str ''collection_doi'', Str ''dataset_title'', Str ''dataset_h5ad_path'',
                      Str ''dataset_total_cell_count''],
           body = zip (range_index (length joined)) (map (\<lambda>(k, cells). k @ cells) joined)\<rparr>
        :: 'e pyerr + frame)"
    by (simp add: reset_index_def level_name_def)
  show ?thesis
    unfolding datasets_with_cell_def
    by (simp only: dataset_counts_obs_frame by_dataset_frame sum.case counts_def [symmetric] rn j r)
qed

subsection \<open>The run of all cells\<close>

lemma zip_primary:
  assumes "length hs = length xs" and "\<exists>x \<in> set xs. is_primary_data x"
  shows "\<exists>xh \<in> set (zip xs hs). is_primary_data (fst xh)"
proof -
  from assms(2) obtain x where x: "x \<in> set xs" "is_primary_data x" by blast
  from assms(1) have "map fst (zip xs hs) = xs" by simp
  with x(1) have "x \<in> fst ` set (zip xs hs)" by (metis set_map)
  with x(2) show ?thesis by auto
qed

lemma finddups_total:
  fixes L :: "('v, 'e) hashlib"
  assumes h: "hashing_cell L census = Inr h"
    and p: "\<exists>x \<in> set (census_obs census). is_primary_data x"
  shows "\<exists>nb. finddups L census = Inr nb"
proof -
  from hashing_cell_obs_df [OF h] obtain hs
    where len: "length hs = length (census_obs census)"
      and o: "the_obs_df h = obs_frame (zip (census_obs census) hs)" by blast
  let ?xs = "zip (census_obs census) hs"
  let ?P = "\<lparr>index_names = [Some (Str ''hash'')],
           columns = pivot_columns ?xs,
           body = map (\<lambda>a. ([a],
                    map (\<lambda>b. Num (of_nat (count_list (hash_keys ?xs) [a, b]))) (pivot_columns ?xs)))
                    (pivot_index ?xs)\<rparr>"
  have px: "\<exists>xh \<in> set ?xs. is_primary_data (fst xh)" using zip_primary [OF len p] .
  have d: "the_datasets_df h = datasets_frame (census_datasets census)"
    using datasets_df_shape [OF h] .
  have piv: "hash_primary_pivot_cell (obs_frame ?xs) = (Inr ?P :: 'e pyerr + frame)"
    by (rule hash_primary_pivot_obs_frame)
  let ?t = "\<lambda>v. v = Num 0 \<and> v \<noteq> NaN"
  have test: "\<And>s. series_eq s (Num 0) = map (\<lambda>kv. (fst kv, Bool (?t (snd kv)))) s"
    by (simp add: series_eq_def case_prod_unfold)
  from px select_by_hash_obs_frame [of "\<lambda>s. series_eq s (Num 0)" ?t ?xs, OF test, where ?'e = 'e]
  obtain ms where m: "obs_missing_primary_cell (obs_frame ?xs) ?P
       = (Inr (obs_frame ms) :: 'e pyerr + frame)"
    unfolding obs_missing_primary_cell_def by simp
  from px obs_duplicate_primary_obs_frame [of ?xs, where ?'e = 'e]
  obtain dups where dp: "obs_duplicate_primary_cell (obs_frame ?xs) ?P
       = (Inr (obs_frame dups) :: 'e pyerr + frame)"
    by simp
  show ?thesis
    unfolding finddups_def h sum.case o d piv m dp datasets_with_cell_obs_frame
    by (rule exI, rule refl)
qed

lemma obs_row_cells:
  "snd (obs_row xh) ! 0 = Str (snd xh)"
  "snd (obs_row xh) ! 2 = Bool (is_primary_data (fst xh))"
  by (simp_all add: obs_row_def eval_nat_numeral)

lemma primary_count_obs_frame:
  "primary_count (obs_frame xs) (Str h) = primary_copies xs h"
  unfolding primary_count_def primary_copies_def
  by (simp add: obs_frame_def filter_map o_def obs_row_cells)

lemma finddups_obs_frame:
  fixes L :: "('v, 'e) hashlib"
  assumes "finddups L census = Inr nb"
  shows "\<exists>xs. nb_obs_df nb = obs_frame xs \<and> map fst xs = census_obs census \<and>
           (\<exists>xh \<in> set xs. is_primary_data (fst xh)) \<and>
           hash_primary_pivot nb = \<lparr>index_names = [Some (Str ''hash'')],
             columns = pivot_columns xs,
             body = map (\<lambda>a. ([a],
                    map (\<lambda>b. Num (of_nat (count_list (hash_keys xs) [a, b]))) (pivot_columns xs)))
                    (pivot_index xs)\<rparr> \<and>
           obs_duplicate_primary nb = obs_frame (filter (\<lambda>xh. is_primary_data (fst xh))
              (concat (map (\<lambda>a. filter (\<lambda>xh. Str (snd xh) = a) xs)
                 (filter (\<lambda>a. case Num (of_nat (count_list (hash_keys xs) [a, Bool True])) of
                               Num q \<Rightarrow> 1 < q | _ \<Rightarrow> False) (pivot_index xs)))))"
proof -
  from finddups_Inr [OF assms] obtain h where h: "hashing_cell L census = Inr h"
    and o: "nb_obs_df nb = the_obs_df h"
    and piv: "hash_primary_pivot_cell (the_obs_df h) = (Inr (hash_primary_pivot nb) :: 'e pyerr + frame)"
    and dp: "obs_duplicate_primary_cell (the_obs_df h) (hash_primary_pivot nb)
             = (Inr (obs_duplicate_primary nb) :: 'e pyerr + frame)"
    by blast
  from hashing_cell_obs_df [OF h] obtain hs
    where len: "length hs = length (census_obs census)"
      and f: "the_obs_df h = obs_frame (zip (census_obs census) hs)" by blast
  let ?xs = "zip (census_obs census) hs"
  let ?P = "\<lparr>index_names = [Some (Str ''hash'')],
           columns = pivot_columns ?xs,
           body = map (\<lambda>a. ([a],
                    map (\<lambda>b. Num (of_nat (count_list (hash_keys ?xs) [a, b]))) (pivot_columns ?xs)))
                    (pivot_index ?xs)\<rparr>"
  from piv have P: "hash_primary_pivot nb = ?P"
    unfolding f hash_primary_pivot_obs_frame by simp
  note d = obs_duplicate_primary_obs_frame [of ?xs, where ?'e = 'e]
  from dp have dp': "obs_duplicate_primary_cell (obs_frame ?xs) ?P
             = (Inr (obs_duplicate_primary nb) :: 'e pyerr + frame)"
    unfolding f P .
  have px: "\<exists>xh \<in> set ?xs. is_primary_data (fst xh)"
  proof (rule ccontr)
    assume "\<not> ?thesis"
    with d dp' show False by simp
  qed
  with d dp' have D: "obs_duplicate_primary nb = obs_frame (filter (\<lambda>xh. is_primary_data (fst xh))
              (concat (map (\<lambda>a. filter (\<lambda>xh. Str (snd xh) = a) ?xs)
                 (filter (\<lambda>a. case Num (of_nat (count_list (hash_keys ?xs) [a, Bool True])) of
                               Num q \<Rightarrow> 1 < q | _ \<Rightarrow> False) (pivot_index ?xs)))))"
    by simp
  from len have m: "map fst ?xs = census_obs census" by simp
  from o f have o': "nb_obs_df nb = obs_frame ?xs" by simp
  show ?thesis
    apply (rule exI [of _ ?xs])
    using o' m px P D by (intro conjI)
qed

lemma body_obs_frame: "body (obs_frame xs) = map obs_row xs"
  by (simp add: obs_frame_def)

lemma report_rows:
  "body (obs_frame (filter (\<lambda>xh. is_primary_data (fst xh) \<and> 1 < primary_copies xs (snd xh)) xs))
   = filter (\<lambda>row. snd row ! 2 = Bool True \<and> 1 < primary_count (obs_frame xs) (snd row ! 0))
        (body (obs_frame xs))"
proof -
  have "(\<lambda>row. snd row ! 2 = Bool True \<and> 1 < primary_count (obs_frame xs) (snd row ! 0)) \<circ> obs_row
      = (\<lambda>xh. is_primary_data (fst xh) \<and> 1 < primary_copies xs (snd xh))"
    by (rule ext) (simp add: obs_row_cells primary_count_obs_frame)
  then show ?thesis
    unfolding body_obs_frame filter_map by simp
qed

subsection \<open>The small census, hashed\<close>

lemma small_census_hashed:
  "\<exists>h. hashing_cell small_hashlib small_census = Inr h \<and>
       the_obs_df h = \<lparr>index_names = [Some (Str ''soma_joinid'')],
          columns = [Str ''hash'', Str ''dataset_id'', Str ''is_primary_data''],
          body = [([Num 0], [Str ''1202'', Str ''d1'', Bool True]),
                  ([Num 1], [Str ''1202'', Str ''d1'', Bool False]),
                  ([Num 2], [Str ''1202'', Str ''d1'', Bool True]),
                  ([Num 3], [Str ''201'', Str ''d1'', Bool True])]\<rparr> \<and>
       trace (the_loop_state h) = [Hashed 0 ''1202'', Hashed 1 ''1202'', Progress,
                                   Hashed 2 ''1202'', Hashed 3 ''201'', Progress]"
  by (simp add: hashing_cell_def small_hashlib_def small_census_def drop_column_def to_pandas_def
     datasets_columns_def datasets_cells_def
     set_index_def obs_columns_def obs_cells_def range_index_def drop_nth_def index_def
     getrow_def py_slice_def row_hash_def series_set_at_def joinid_label_def insert_column_def
     align_def insert_nth_def)

subsection \<open>The rows of a per-dataset report\<close>

lemma count_dataset_keys:
  "count_list (map (\<lambda>xh. [Str (obs_dataset_id (fst xh))]) ys) [Str d]
     = length (filter (\<lambda>xh. obs_dataset_id (fst xh) = d) ys)"
  by (induction ys) simp_all

lemma datasets_with_cell_columns:
  assumes "datasets_with_cell (obs_frame ys) (datasets_frame ds) = (Inr D :: 'e pyerr + frame)"
  shows "index_names D = [None] \<and>
         columns D = [Str ''dataset_id'', Num 0, Str ''collection_id'', Str ''collection_name'',
                      Str ''collection_doi'', Str ''dataset_title'', Str ''dataset_h5ad_path'',
                      Str ''dataset_total_cell_count'']"
  using assms unfolding datasets_with_cell_obs_frame by auto

lemma datasets_with_cell_body:
  fixes ys :: "(obs_rec \<times> string) list" and ds :: "dataset_rec list"
  assumes D: "datasets_with_cell (obs_frame ys) (datasets_frame ds) = (Inr D :: 'e pyerr + frame)"
  shows "set (map snd (body D)) =
     (\<Union>xh \<in> set ys.
        (\<lambda>m. Str (obs_dataset_id (fst xh)) #
              Num (of_nat (length (filter (\<lambda>y. obs_dataset_id (fst y) = obs_dataset_id (fst xh)) ys))) # m) `
        (if filter (\<lambda>r. dataset_id r = obs_dataset_id (fst xh)) ds = [] then {replicate 6 NaN}
         else dataset_metadata ` set (filter (\<lambda>r. dataset_id r = obs_dataset_id (fst xh)) ds)))"
proof -
  define keys where "keys = map (\<lambda>xh. [Str (obs_dataset_id (fst xh))]) ys"
  define f where "f = (\<lambda>kn :: label \<times> nat.
             if filter (\<lambda>d. [Str (dataset_id d)] = [fst kn ! 0]) ds = []
             then [(fst kn, [Num (of_nat (snd kn))] @ replicate 6 NaN)]
             else map (\<lambda>d. (fst kn, [Num (of_nat (snd kn))] @ dataset_metadata d))
                    (filter (\<lambda>d. [Str (dataset_id d)] = [fst kn ! 0]) ds))"
  define joined where "joined = concat (map f (key_counts keys))"
  from D have b: "body D = zip (range_index (length joined)) (map (\<lambda>(k, cells). k @ cells) joined)"
    unfolding datasets_with_cell_obs_frame joined_def f_def keys_def by auto
  have m: "map snd (body D) = map (\<lambda>(k, cells). k @ cells) joined"
    unfolding b by simp
  have j: "set joined = (\<Union>k \<in> set keys. set (f (k, count_list keys k)))"
    unfolding joined_def set_concat set_map key_counts_set by blast
  have k: "set keys = (\<lambda>xh. [Str (obs_dataset_id (fst xh))]) ` set ys"
    unfolding keys_def by simp
  have c: "count_list keys [Str d] = length (filter (\<lambda>y. obs_dataset_id (fst y) = d) ys)" for d
    unfolding keys_def by (rule count_dataset_keys)
  have fk: "(\<lambda>(k, cells). k @ cells) ` set (f ([Str d], n)) =
        (\<lambda>m. Str d # Num (of_nat n) # m) `
        (if filter (\<lambda>r. dataset_id r = d) ds = [] then {replicate 6 NaN}
         else dataset_metadata ` set (filter (\<lambda>r. dataset_id r = d) ds))" for d n
    unfolding f_def by (simp add: image_image)
  have "set (map snd (body D)) = (\<lambda>(k, cells). k @ cells) ` set joined"
    unfolding m by simp
  also have "\<dots> = (\<Union>k \<in> set keys. (\<lambda>(k, cells). k @ cells) ` set (f (k, count_list keys k)))"
    unfolding j by blast
  also have "\<dots> = (\<Union>xh \<in> set ys. (\<lambda>(k, cells). k @ cells) `
       set (f ([Str (obs_dataset_id (fst xh))], count_list keys [Str (obs_dataset_id (fst xh))])))"
    unfolding k by blast
  finally show ?thesis unfolding fk c .
qed

lemma datasets_with_cell_rows:
  fixes ys :: "(obs_rec \<times> string) list" and ds :: "dataset_rec list"
  assumes D: "datasets_with_cell (obs_frame ys) (datasets_frame ds) = (Inr D :: 'e pyerr + frame)"
    and row: "row \<in> set (body D)"
  shows "\<exists>d m. snd row = Str d # Num (of_nat (length (filter (\<lambda>xh. obs_dataset_id (fst xh) = d) ys))) # m \<and>
           (\<exists>xh \<in> set ys. obs_dataset_id (fst xh) = d) \<and>
           ((\<forall>r \<in> set ds. dataset_id r \<noteq> d) \<and> m = replicate 6 NaN \<or>
            (\<exists>r \<in> set ds. dataset_id r = d \<and> m = dataset_metadata r))"
proof -
  from row have "snd row \<in> set (map snd (body D))" by simp
  then obtain xh m where xh: "xh \<in> set ys"
    and r: "snd row = Str (obs_dataset_id (fst xh)) #
              Num (of_nat (length (filter (\<lambda>y. obs_dataset_id (fst y) = obs_dataset_id (fst xh)) ys))) # m"
    and m: "m \<in> (if filter (\<lambda>r. dataset_id r = obs_dataset_id (fst xh)) ds = [] then {replicate 6 NaN}
         else dataset_metadata ` set (filter (\<lambda>r. dataset_id r = obs_dataset_id (fst xh)) ds))"
    unfolding datasets_with_cell_body [OF D] by blast
  let ?d = "obs_dataset_id (fst xh)"
  have "(\<forall>r \<in> set ds. dataset_id r \<noteq> ?d) \<and> m = replicate 6 NaN \<or>
            (\<exists>r \<in> set ds. dataset_id r = ?d \<and> m = dataset_metadata r)"
  proof (cases "filter (\<lambda>r. dataset_id r = ?d) ds = []")
    case True
    with m have "m = replicate 6 NaN" by simp
    moreover from True have "\<forall>r \<in> set ds. dataset_id r \<noteq> ?d"
      by (simp add: filter_empty_conv)
    ultimately show ?thesis by blast
  next
    case False
    with m have "m \<in> dataset_metadata ` set (filter (\<lambda>r. dataset_id r = ?d) ds)" by simp
    then show ?thesis by auto
  qed
  with r xh show ?thesis by blast
qed

lemma datasets_with_cell_covers:
  fixes ys :: "(obs_rec \<times> string) list" and ds :: "dataset_rec list"
  assumes D: "datasets_with_cell (obs_frame ys) (datasets_frame ds) = (Inr D :: 'e pyerr + frame)"
    and xh: "xh \<in> set ys"
  shows "\<exists>row \<in> set (body D). snd row ! 0 = Str (obs_dataset_id (fst xh))"
proof -
  let ?d = "obs_dataset_id (fst xh)"
  let ?M = "(if filter (\<lambda>r. dataset_id r = ?d) ds = [] then {replicate 6 NaN}
         else dataset_metadata ` set (filter (\<lambda>r. dataset_id r = ?d) ds))"
  have "?M \<noteq> {}" by (auto simp: filter_empty_conv)
  then obtain m where "m \<in> ?M" by blast
  with xh have "Str ?d # Num (of_nat (length (filter (\<lambda>y. obs_dataset_id (fst y) = ?d) ys))) # m
      \<in> set (map snd (body D))"
    unfolding datasets_with_cell_body [OF D] by blast
  then obtain row where r: "row \<in> set (body D)"
    and s: "snd row = Str ?d # Num (of_nat (length (filter (\<lambda>y. obs_dataset_id (fst y) = ?d) ys))) # m"
    by auto
  from s have "snd row ! 0 = Str ?d" by simp
  from this r show ?thesis by (rule bexI)
qed

subsection \<open>All reports of a run\<close>

lemma set_concat_filter_subset:
  "set (concat (map (\<lambda>a. filter (P a) xs) ks)) \<subseteq> set xs"
  by auto

lemma finddups_reports:
  fixes L :: "('v, 'e) hashlib"
  assumes "finddups L census = Inr nb"
  shows "\<exists>xs ms dups.
           nb_obs_df nb = obs_frame xs \<and> map fst xs = census_obs census \<and>
           nb_datasets_df nb = datasets_frame (census_datasets census) \<and>
           hash_primary_pivot nb = \<lparr>index_names = [Some (Str ''hash'')],
             columns = pivot_columns xs,
             body = map (\<lambda>a. ([a],
                    map (\<lambda>b. Num (of_nat (count_list (hash_keys xs) [a, b]))) (pivot_columns xs)))
                    (pivot_index xs)\<rparr> \<and>
           obs_missing_primary nb = obs_frame ms \<and> set ms \<subseteq> set xs \<and>
           obs_duplicate_primary nb = obs_frame dups \<and> set dups \<subseteq> set xs \<and>
           datasets_with_cell (obs_frame ms) (datasets_frame (census_datasets census))
             = (Inr (datasets_with_missing_primary nb) :: 'e pyerr + frame) \<and>
           datasets_with_cell (obs_frame dups) (datasets_frame (census_datasets census))
             = (Inr (datasets_with_dup_primary nb) :: 'e pyerr + frame)"
proof -
  from finddups_Inr [OF assms] obtain h where h: "hashing_cell L census = Inr h"
    and o: "nb_obs_df nb = the_obs_df h" and d: "nb_datasets_df nb = the_datasets_df h"
    and mp: "obs_missing_primary_cell (the_obs_df h) (hash_primary_pivot nb)
             = (Inr (obs_missing_primary nb) :: 'e pyerr + frame)"
    and dm: "datasets_with_cell (obs_missing_primary nb) (the_datasets_df h)
             = (Inr (datasets_with_missing_primary nb) :: 'e pyerr + frame)"
    and dd: "datasets_with_cell (obs_duplicate_primary nb) (the_datasets_df h)
             = (Inr (datasets_with_dup_primary nb) :: 'e pyerr + frame)"
    by blast
  from finddups_obs_frame [OF assms] obtain xs
    where ox: "nb_obs_df nb = obs_frame xs" and m: "map fst xs = census_obs census"
      and px: "\<exists>xh \<in> set xs. is_primary_data (fst xh)"
      and P: "hash_primary_pivot nb = \<lparr>index_names = [Some (Str ''hash'')],
             columns = pivot_columns xs,
             body = map (\<lambda>a. ([a],
                    map (\<lambda>b. Num (of_nat (count_list (hash_keys xs) [a, b]))) (pivot_columns xs)))
                    (pivot_index xs)\<rparr>"
      and D: "obs_duplicate_primary nb = obs_frame (filter (\<lambda>xh. is_primary_data (fst xh))
              (concat (map (\<lambda>a. filter (\<lambda>xh. Str (snd xh) = a) xs)
                 (filter (\<lambda>a. case Num (of_nat (count_list (hash_keys xs) [a, Bool True])) of
                               Num q \<Rightarrow> 1 < q | _ \<Rightarrow> False) (pivot_index xs)))))"
    by blast
  let ?dups = "filter (\<lambda>xh. is_primary_data (fst xh))
              (concat (map (\<lambda>a. filter (\<lambda>xh. Str (snd xh) = a) xs)
                 (filter (\<lambda>a. case Num (of_nat (count_list (hash_keys xs) [a, Bool True])) of
                               Num q \<Rightarrow> 1 < q | _ \<Rightarrow> False) (pivot_index xs))))"
  let ?t = "\<lambda>v. v = Num 0 \<and> v \<noteq> NaN"
  let ?ms = "concat (map (\<lambda>a. filter (\<lambda>xh. Str (snd xh) = a) xs)
                  (filter (\<lambda>a. ?t (Num (of_nat (count_list (hash_keys xs) [a, Bool True]))))
                     (pivot_index xs)))"
  have test: "\<And>s. series_eq s (Num 0) = map (\<lambda>kv. (fst kv, Bool (?t (snd kv)))) s"
    by (simp add: series_eq_def case_prod_unfold)
  from o ox have f: "the_obs_df h = obs_frame xs" by simp
  from px select_by_hash_obs_frame [of "\<lambda>s. series_eq s (Num 0)" ?t xs, OF test, where ?'e = 'e]
  have "obs_missing_primary_cell (obs_frame xs) (hash_primary_pivot nb)
       = (Inr (obs_frame ?ms) :: 'e pyerr + frame)"
    unfolding obs_missing_primary_cell_def P by simp
  with mp have M: "obs_missing_primary nb = obs_frame ?ms"
    unfolding f by simp
  have sm: "set ?ms \<subseteq> set xs" by (rule set_concat_filter_subset)
  have sd: "set ?dups \<subseteq> set xs" by auto
  from datasets_df_shape [OF h] d
  have dsf: "nb_datasets_df nb = datasets_frame (census_datasets census)"
    and dsh: "the_datasets_df h = datasets_frame (census_datasets census)" by simp_all
  from dm have dm': "datasets_with_cell (obs_frame ?ms) (datasets_frame (census_datasets census))
             = (Inr (datasets_with_missing_primary nb) :: 'e pyerr + frame)"
    unfolding M dsh .
  from dd have dd': "datasets_with_cell (obs_frame ?dups) (datasets_frame (census_datasets census))
             = (Inr (datasets_with_dup_primary nb) :: 'e pyerr + frame)"
    unfolding D dsh .
  show ?thesis
    apply (rule exI [of _ xs], rule exI [of _ ?ms], rule exI [of _ ?dups])
    using ox m dsf P M sm D sd dm' dd' by (intro conjI)
qed

subsection \<open>The two steps of the hashing cell\<close>

lemma hashing_cell_Inr:
  fixes L :: "('v, 'e) hashlib"
  assumes "hashing_cell L census = Inr h"
  shows "hashing_loop L (X_sparse_iter census row_stride)
           \<lparr>hashes = map (\<lambda>x. (joinid_label (soma_joinid x), Str '''')) (census_obs census),
            prog_value = 0, trace = []\<rparr> = Inr (the_loop_state h) \<and>
         insert_column 0 (Str ''hash'') (hashes (the_loop_state h))
           \<lparr>index_names = [Some (Str ''soma_joinid'')],
            columns = [Str ''dataset_id'', Str ''is_primary_data''],
            body = map (\<lambda>x. (joinid_label (soma_joinid x),
                     [Str (obs_dataset_id x), Bool (is_primary_data x)])) (census_obs census)\<rparr>
           = (Inr (the_obs_df h) :: 'e pyerr + frame)"
proof -
  let ?obs = "census_obs census"
  let ?odf = "\<lparr>index_names = [Some (Str ''soma_joinid'')],
           columns = [Str ''dataset_id'', Str ''is_primary_data''],
           body = map (\<lambda>x. (joinid_label (soma_joinid x),
                     [Str (obs_dataset_id x), Bool (is_primary_data x)])) ?obs\<rparr>"
  let ?s0 = "\<lparr>hashes = map (\<lambda>x. (joinid_label (soma_joinid x), Str '''')) ?obs,
            prog_value = 0, trace = []\<rparr>"
  have s0: "\<lparr>hashes = map (\<lambda>k. (k, Str '''')) (index ?odf), prog_value = 0, trace = []\<rparr> = ?s0"
    by (simp add: index_def o_def)
  obtain ds where ds: "drop_column (Str ''soma_joinid'')
      (to_pandas datasets_columns (map datasets_cells (census_datasets census)))
      = (Inr ds :: 'e pyerr + frame)"
    using assms unfolding hashing_cell_def
    by (cases "drop_column (Str ''soma_joinid'')
      (to_pandas datasets_columns (map datasets_cells (census_datasets census))) :: 'e pyerr + frame")
      simp_all
  have odf: "set_index (Str ''soma_joinid'') (to_pandas obs_columns (map obs_cells ?obs))
      = (Inr ?odf :: 'e pyerr + frame)"
    by (rule obs_df_before_insert)
  obtain s where loop: "hashing_loop L (X_sparse_iter census row_stride) ?s0 = Inr s"
    using assms unfolding hashing_cell_def ds odf sum.case s0
    by (cases "hashing_loop L (X_sparse_iter census row_stride) ?s0") simp_all
  obtain f where ins: "insert_column 0 (Str ''hash'') (hashes s) ?odf = (Inr f :: 'e pyerr + frame)"
    using assms unfolding hashing_cell_def ds odf sum.case s0 loop
    by (cases "insert_column 0 (Str ''hash'') (hashes s) ?odf :: 'e pyerr + frame") simp_all
  from assms have "h = \<lparr>the_datasets_df = ds, the_obs_df = f, the_loop_state = s\<rparr>"
    unfolding hashing_cell_def ds odf sum.case s0 loop ins by simp
  with loop ins show ?thesis by simp
qed

lemma pivot_columns_subset: "set (pivot_columns xs) \<subseteq> {Bool False, Bool True}"
  by (auto simp: pivot_columns_def)

section \<open>Properties of the notebook text\<close>

lemma uses_obs_df:
  "concat (map (uses ''obs_df'') finddups_notebook) =
     [''__len__'', ''index'', ''insert'', ''value_counts'', ''reset_index'', ''reset_index'']"
  by (simp add: finddups_notebook_def)

lemma bound_finddups:
  "concat (map bound finddups_notebook) =
     [''census_version'', ''experiment'', ''row_stride'', ''census'', ''datasets_df'', ''exp'',
      ''query'', ''prog'', ''obs_df'', ''hashes'', ''obs_soma_joinids_chunk'', ''_'', ''X_chunk'',
      ''r'', ''row_soma_joinid'', ''X_row'', ''hash'', ''hash_primary_pivot'',
      ''hash_primary_pivot'', ''obs_missing_primary'', ''datasets_with_missing_primary'',
      ''obs_duplicate_primary'', ''obs_duplicate_primary'', ''datasets_with_dup_primary'',
      ''overlapping_dup_datasets'', ''d'']"
  by (simp add: finddups_notebook_def)

section \<open>The report of duplicated primary cells\<close>

text \<open>
  C3. When the notebook runs to its end, \<open>obs_duplicate_primary\<close> has the index and the
  columns of \<open>obs_df\<close>, and its rows are exactly the rows of \<open>obs_df\<close> whose
  \<open>is_primary_data\<close> (column 2) is \<open>True\<close> and whose hash (column 0) is the hash of more
  than one row of \<open>obs_df\<close> marked primary, each as often as \<open>obs_df\<close> has it. That number
  of primary rows is the cell of \<open>hash_primary_pivot\<close> at the hash and the column \<open>True\<close>.
  A row that is not primary is therefore not in the report, whatever its hash.
\<close>

theorem obs_duplicate_primary_exact:
  fixes L :: "('v, 'e) hashlib"
  assumes "finddups L census = Inr nb"
  shows "index_names (obs_duplicate_primary nb) = index_names (nb_obs_df nb) \<and>
         columns (obs_duplicate_primary nb) = columns (nb_obs_df nb) \<and>
         columns (nb_obs_df nb) = [Str ''hash'', Str ''dataset_id'', Str ''is_primary_data''] \<and>
         mset (body (obs_duplicate_primary nb))
           = mset (filter (\<lambda>row. snd row ! 2 = Bool True \<and>
                                  1 < primary_count (nb_obs_df nb) (snd row ! 0))
                     (body (nb_obs_df nb))) \<and>
         (\<forall>row \<in> set (body (nb_obs_df nb)).
            pivot_at (hash_primary_pivot nb) (snd row ! 0) (Bool True)
              = Some (Num (of_nat (primary_count (nb_obs_df nb) (snd row ! 0)))))"
proof -
  from finddups_obs_frame [OF assms] obtain xs
    where o: "nb_obs_df nb = obs_frame xs"
      and px: "\<exists>xh \<in> set xs. is_primary_data (fst xh)"
      and P: "hash_primary_pivot nb = \<lparr>index_names = [Some (Str ''hash'')],
             columns = pivot_columns xs,
             body = map (\<lambda>a. ([a],
                    map (\<lambda>b. Num (of_nat (count_list (hash_keys xs) [a, b]))) (pivot_columns xs)))
                    (pivot_index xs)\<rparr>"
      and D: "obs_duplicate_primary nb = obs_frame (filter (\<lambda>xh. is_primary_data (fst xh))
              (concat (map (\<lambda>a. filter (\<lambda>xh. Str (snd xh) = a) xs)
                 (filter (\<lambda>a. case Num (of_nat (count_list (hash_keys xs) [a, Bool True])) of
                               Num q \<Rightarrow> 1 < q | _ \<Rightarrow> False) (pivot_index xs)))))"
    by blast
  have a: "index_names (obs_duplicate_primary nb) = index_names (nb_obs_df nb)"
    unfolding o D by (simp add: obs_frame_def)
  have b: "columns (obs_duplicate_primary nb) = columns (nb_obs_df nb)"
    unfolding o D by (simp add: obs_frame_def)
  have c: "columns (nb_obs_df nb) = [Str ''hash'', Str ''dataset_id'', Str ''is_primary_data'']"
    unfolding o by (simp add: obs_frame_def)
  have "mset (body (obs_duplicate_primary nb))
      = image_mset obs_row (mset (filter (\<lambda>xh. is_primary_data (fst xh))
              (concat (map (\<lambda>a. filter (\<lambda>xh. Str (snd xh) = a) xs)
                 (filter (\<lambda>a. case Num (of_nat (count_list (hash_keys xs) [a, Bool True])) of
                               Num q \<Rightarrow> 1 < q | _ \<Rightarrow> False) (pivot_index xs))))))"
    unfolding D body_obs_frame by simp
  also have "\<dots> = image_mset obs_row
        (mset (filter (\<lambda>xh. is_primary_data (fst xh) \<and> 1 < primary_copies xs (snd xh)) xs))"
    unfolding duplicate_primary_rows ..
  also have "\<dots> = mset (body (obs_frame
        (filter (\<lambda>xh. is_primary_data (fst xh) \<and> 1 < primary_copies xs (snd xh)) xs)))"
    unfolding body_obs_frame by simp
  finally have d: "mset (body (obs_duplicate_primary nb))
           = mset (filter (\<lambda>row. snd row ! 2 = Bool True \<and>
                                  1 < primary_count (nb_obs_df nb) (snd row ! 0))
                     (body (nb_obs_df nb)))"
    unfolding report_rows o .
  have e: "\<forall>row \<in> set (body (nb_obs_df nb)).
            pivot_at (hash_primary_pivot nb) (snd row ! 0) (Bool True)
              = Some (Num (of_nat (primary_count (nb_obs_df nb) (snd row ! 0))))"
  proof
    fix row assume "row \<in> set (body (nb_obs_df nb))"
    then obtain xh where xh: "xh \<in> set xs" and r: "row = obs_row xh"
      unfolding o body_obs_frame by auto
    show "pivot_at (hash_primary_pivot nb) (snd row ! 0) (Bool True)
              = Some (Num (of_nat (primary_count (nb_obs_df nb) (snd row ! 0))))"
      unfolding r obs_row_cells o primary_count_obs_frame P
      using pivot_at_primary [OF xh px] .
  qed
  from a b c d e show ?thesis by (intro conjI)
qed

text \<open>
  On the small census: cells 0, 1 and 2 share a hash and cell 1 is not primary, cell 3 is
  primary with a hash of its own. The report holds cells 0 and 2.
\<close>

theorem obs_duplicate_primary_exact_witness:
  "\<exists>nb. finddups small_hashlib small_census = Inr nb \<and>
     body (nb_obs_df nb) = [([Num 0], [Str ''1202'', Str ''d1'', Bool True]),
                            ([Num 1], [Str ''1202'', Str ''d1'', Bool False]),
                            ([Num 2], [Str ''1202'', Str ''d1'', Bool True]),
                            ([Num 3], [Str ''201'', Str ''d1'', Bool True])] \<and>
     mset (body (obs_duplicate_primary nb))
       = mset [([Num 0], [Str ''1202'', Str ''d1'', Bool True]),
               ([Num 2], [Str ''1202'', Str ''d1'', Bool True])] \<and>
     pivot_at (hash_primary_pivot nb) (Str ''1202'') (Bool True) = Some (Num 2) \<and>
     pivot_at (hash_primary_pivot nb) (Str ''201'') (Bool True) = Some (Num 1)"
proof -
  from small_census_hashed obtain h
    where h: "hashing_cell small_hashlib small_census = Inr h"
      and f: "body (the_obs_df h) = [([Num 0], [Str ''1202'', Str ''d1'', Bool True]),
                            ([Num 1], [Str ''1202'', Str ''d1'', Bool False]),
                            ([Num 2], [Str ''1202'', Str ''d1'', Bool True]),
                            ([Num 3], [Str ''201'', Str ''d1'', Bool True])]"
    by auto
  have "\<exists>x \<in> set (census_obs small_census). is_primary_data x"
    by (simp add: small_census_def)
  from finddups_total [OF h this] obtain nb
    where nb: "finddups small_hashlib small_census = Inr nb" ..
  from finddups_Inr [OF nb] h have o: "nb_obs_df nb = the_obs_df h" by auto
  note t = obs_duplicate_primary_exact [OF nb, unfolded o f]
  have c2: "primary_count (the_obs_df h) (Str ''1202'') = 2"
    by (simp add: primary_count_def f)
  have c1: "primary_count (the_obs_df h) (Str ''201'') = 1"
    by (simp add: primary_count_def f)
  have m: "mset (body (obs_duplicate_primary nb))
       = mset [([Num 0], [Str ''1202'', Str ''d1'', Bool True]),
               ([Num 2], [Str ''1202'', Str ''d1'', Bool True])]"
    using t [THEN conjunct2, THEN conjunct2, THEN conjunct2, THEN conjunct1]
    by (simp add: c1 c2)
  have p2: "pivot_at (hash_primary_pivot nb) (Str ''1202'') (Bool True) = Some (Num 2)"
    using t [THEN conjunct2, THEN conjunct2, THEN conjunct2, THEN conjunct2] by (simp add: c2)
  have p1: "pivot_at (hash_primary_pivot nb) (Str ''201'') (Bool True) = Some (Num 1)"
    using t [THEN conjunct2, THEN conjunct2, THEN conjunct2, THEN conjunct2] by (simp add: c1)
  from nb o f m p1 p2 show ?thesis by auto
qed

section \<open>The table of cells after the hashing cell\<close>

text \<open>
  C6. When the hashing cell ends, \<open>obs_df\<close> has the index \<open>soma_joinid\<close> and exactly
  the columns \<open>hash\<close>, \<open>dataset_id\<close>, \<open>is_primary_data\<close>, in this order: it is the
  \<open>obs\<close> table of the axis query, indexed by \<open>soma_joinid\<close> and with the columns
  \<open>dataset_id\<close> and \<open>is_primary_data\<close>, into which the cell inserts the Series of
  hashes as the column \<open>hash\<close> at position 0. It has one row per \<open>obs\<close> row, in their
  order, each of three cells.

  In a run that reaches its end, \<open>obs_df\<close> is at the end the frame that the hashing
  cell left. The pivot is computed from it alone; it is indexed by \<open>hash\<close> and its
  columns are among \<open>False\<close> and \<open>True\<close>. The two reports of cells are computed from
  it and the pivot; they have its index name and its columns, and their rows are rows of
  it. The two reports of datasets are computed from a report of cells and \<open>datasets_df\<close>;
  their columns are \<open>dataset_id\<close>, the count (named \<open>0\<close>) and the columns of
  \<open>datasets_df\<close> other than \<open>dataset_id\<close>.

  In the text of the notebook \<open>obs_df\<close> is bound once, and what is applied to it is
  \<open>len\<close>, \<open>index\<close>, \<open>insert\<close>, \<open>value_counts\<close> and, twice, \<open>reset_index\<close>;
  of these only \<open>insert\<close>, in the hashing cell, changes the frame it is called on.
\<close>

theorem obs_df_three_columns:
  fixes L :: "('v, 'e) hashlib"
  assumes "hashing_cell L census = Inr h"
  shows "index_names (the_obs_df h) = [Some (Str ''soma_joinid'')] \<and>
         columns (the_obs_df h) = [Str ''hash'', Str ''dataset_id'', Str ''is_primary_data''] \<and>
         (\<exists>obs_df.
            set_index (Str ''soma_joinid'')
              (to_pandas obs_columns (map obs_cells (census_obs census)))
              = (Inr obs_df :: 'e pyerr + frame) \<and>
            columns obs_df = [Str ''dataset_id'', Str ''is_primary_data''] \<and>
            insert_column 0 (Str ''hash'') (hashes (the_loop_state h)) obs_df
              = (Inr (the_obs_df h) :: 'e pyerr + frame)) \<and>
         map fst (body (the_obs_df h))
           = map (\<lambda>x. joinid_label (soma_joinid x)) (census_obs census) \<and>
         (\<forall>row \<in> set (body (the_obs_df h)). length (snd row) = 3) \<and>
         (\<forall>nb. finddups L census = Inr nb \<longrightarrow>
            nb_obs_df nb = the_obs_df h \<and>
            hash_primary_pivot_cell (the_obs_df h)
              = (Inr (hash_primary_pivot nb) :: 'e pyerr + frame) \<and>
            index_names (hash_primary_pivot nb) = [Some (Str ''hash'')] \<and>
            set (columns (hash_primary_pivot nb)) \<subseteq> {Bool False, Bool True} \<and>
            obs_missing_primary_cell (the_obs_df h) (hash_primary_pivot nb)
              = (Inr (obs_missing_primary nb) :: 'e pyerr + frame) \<and>
            index_names (obs_missing_primary nb) = index_names (the_obs_df h) \<and>
            columns (obs_missing_primary nb) = columns (the_obs_df h) \<and>
            set (body (obs_missing_primary nb)) \<subseteq> set (body (the_obs_df h)) \<and>
            obs_duplicate_primary_cell (the_obs_df h) (hash_primary_pivot nb)
              = (Inr (obs_duplicate_primary nb) :: 'e pyerr + frame) \<and>
            index_names (obs_duplicate_primary nb) = index_names (the_obs_df h) \<and>
            columns (obs_duplicate_primary nb) = columns (the_obs_df h) \<and>
            set (body (obs_duplicate_primary nb)) \<subseteq> set (body (the_obs_df h)) \<and>
            datasets_with_cell (obs_missing_primary nb) (the_datasets_df h)
              = (Inr (datasets_with_missing_primary nb) :: 'e pyerr + frame) \<and>
            datasets_with_cell (obs_duplicate_primary nb) (the_datasets_df h)
              = (Inr (datasets_with_dup_primary nb) :: 'e pyerr + frame) \<and>
            columns (datasets_with_missing_primary nb)
              = [Str ''dataset_id'', Num 0] @ drop_nth 3 (columns (the_datasets_df h)) \<and>
            columns (datasets_with_dup_primary nb)
              = [Str ''dataset_id'', Num 0] @ drop_nth 3 (columns (the_datasets_df h))) \<and>
         concat (map (uses ''obs_df'') finddups_notebook)
           = [''__len__'', ''index'', ''insert'', ''value_counts'', ''reset_index'', ''reset_index''] \<and>
         filter (\<lambda>x. x = ''obs_df'') (concat (map bound finddups_notebook)) = [''obs_df'']"
proof -
  from hashing_cell_obs_df [OF assms] obtain hs
    where len: "length hs = length (census_obs census)"
      and f: "the_obs_df h = obs_frame (zip (census_obs census) hs)" by blast
  let ?xs = "zip (census_obs census) hs"
  have a: "index_names (the_obs_df h) = [Some (Str ''soma_joinid'')]"
    unfolding f by (simp add: obs_frame_def)
  have b: "columns (the_obs_df h) = [Str ''hash'', Str ''dataset_id'', Str ''is_primary_data'']"
    unfolding f by (simp add: obs_frame_def)
  have c: "\<exists>obs_df.
            set_index (Str ''soma_joinid'')
              (to_pandas obs_columns (map obs_cells (census_obs census)))
              = (Inr obs_df :: 'e pyerr + frame) \<and>
            columns obs_df = [Str ''dataset_id'', Str ''is_primary_data''] \<and>
            insert_column 0 (Str ''hash'') (hashes (the_loop_state h)) obs_df
              = (Inr (the_obs_df h) :: 'e pyerr + frame)"
    using obs_df_before_insert [of "census_obs census", where ?'e = 'e]
      hashing_cell_Inr [OF assms, THEN conjunct2]
    by (intro exI conjI) simp_all
  have "map fst (map obs_row ?xs) = map (\<lambda>x. joinid_label (soma_joinid x)) (map fst ?xs)"
    by (simp add: obs_row_def o_def)
  with len have d: "map fst (body (the_obs_df h))
           = map (\<lambda>x. joinid_label (soma_joinid x)) (census_obs census)"
    unfolding f body_obs_frame by simp
  have e: "\<forall>row \<in> set (body (the_obs_df h)). length (snd row) = 3"
    unfolding f body_obs_frame by (auto simp: obs_row_def)
  have dsh: "the_datasets_df h = datasets_frame (census_datasets census)"
    by (rule datasets_df_shape [OF assms])
  have dcols: "[Str ''dataset_id'', Num 0] @ drop_nth 3 (columns (the_datasets_df h))
      = [Str ''dataset_id'', Num 0, Str ''collection_id'', Str ''collection_name'',
                      Str ''collection_doi'', Str ''dataset_title'', Str ''dataset_h5ad_path'',
                      Str ''dataset_total_cell_count'']"
    unfolding dsh by (simp add: datasets_frame_def drop_nth_def)
  have g: "\<forall>nb. finddups L census = Inr nb \<longrightarrow>
            nb_obs_df nb = the_obs_df h \<and>
            hash_primary_pivot_cell (the_obs_df h)
              = (Inr (hash_primary_pivot nb) :: 'e pyerr + frame) \<and>
            index_names (hash_primary_pivot nb) = [Some (Str ''hash'')] \<and>
            set (columns (hash_primary_pivot nb)) \<subseteq> {Bool False, Bool True} \<and>
            obs_missing_primary_cell (the_obs_df h) (hash_primary_pivot nb)
              = (Inr (obs_missing_primary nb) :: 'e pyerr + frame) \<and>
            index_names (obs_missing_primary nb) = index_names (the_obs_df h) \<and>
            columns (obs_missing_primary nb) = columns (the_obs_df h) \<and>
            set (body (obs_missing_primary nb)) \<subseteq> set (body (the_obs_df h)) \<and>
            obs_duplicate_primary_cell (the_obs_df h) (hash_primary_pivot nb)
              = (Inr (obs_duplicate_primary nb) :: 'e pyerr + frame) \<and>
            index_names (obs_duplicate_primary nb) = index_names (the_obs_df h) \<and>
            columns (obs_duplicate_primary nb) = columns (the_obs_df h) \<and>
            set (body (obs_duplicate_primary nb)) \<subseteq> set (body (the_obs_df h)) \<and>
            datasets_with_cell (obs_missing_primary nb) (the_datasets_df h)
              = (Inr (datasets_with_missing_primary nb) :: 'e pyerr + frame) \<and>
            datasets_with_cell (obs_duplicate_primary nb) (the_datasets_df h)
              = (Inr (datasets_with_dup_primary nb) :: 'e pyerr + frame) \<and>
            columns (datasets_with_missing_primary nb)
              = [Str ''dataset_id'', Num 0] @ drop_nth 3 (columns (the_datasets_df h)) \<and>
            columns (datasets_with_dup_primary nb)
              = [Str ''dataset_id'', Num 0] @ drop_nth 3 (columns (the_datasets_df h))"
  proof (intro allI impI)
    fix nb assume nb: "finddups L census = Inr nb"
    from finddups_Inr [OF nb] assms
    have o: "nb_obs_df nb = the_obs_df h"
      and piv: "hash_primary_pivot_cell (the_obs_df h)
              = (Inr (hash_primary_pivot nb) :: 'e pyerr + frame)"
      and mp: "obs_missing_primary_cell (the_obs_df h) (hash_primary_pivot nb)
             = (Inr (obs_missing_primary nb) :: 'e pyerr + frame)"
      and dp: "obs_duplicate_primary_cell (the_obs_df h) (hash_primary_pivot nb)
             = (Inr (obs_duplicate_primary nb) :: 'e pyerr + frame)"
      and dm: "datasets_with_cell (obs_missing_primary nb) (the_datasets_df h)
             = (Inr (datasets_with_missing_primary nb) :: 'e pyerr + frame)"
      and dd: "datasets_with_cell (obs_duplicate_primary nb) (the_datasets_df h)
             = (Inr (datasets_with_dup_primary nb) :: 'e pyerr + frame)"
      by auto
    from finddups_reports [OF nb] obtain xs ms dups
      where ox: "nb_obs_df nb = obs_frame xs"
        and P: "hash_primary_pivot nb = \<lparr>index_names = [Some (Str ''hash'')],
             columns = pivot_columns xs,
             body = map (\<lambda>a. ([a],
                    map (\<lambda>b. Num (of_nat (count_list (hash_keys xs) [a, b]))) (pivot_columns xs)))
                    (pivot_index xs)\<rparr>"
        and M: "obs_missing_primary nb = obs_frame ms" and sm: "set ms \<subseteq> set xs"
        and D: "obs_duplicate_primary nb = obs_frame dups" and sd: "set dups \<subseteq> set xs"
        and dm': "datasets_with_cell (obs_frame ms) (datasets_frame (census_datasets census))
             = (Inr (datasets_with_missing_primary nb) :: 'e pyerr + frame)"
        and dd': "datasets_with_cell (obs_frame dups) (datasets_frame (census_datasets census))
             = (Inr (datasets_with_dup_primary nb) :: 'e pyerr + frame)"
      by blast
    from o ox have fx: "the_obs_df h = obs_frame xs" by simp
    have p1: "index_names (hash_primary_pivot nb) = [Some (Str ''hash'')]"
      unfolding P by simp
    have p2: "set (columns (hash_primary_pivot nb)) \<subseteq> {Bool False, Bool True}"
      unfolding P using pivot_columns_subset [of xs] by simp
    have m1: "index_names (obs_missing_primary nb) = index_names (the_obs_df h)"
      unfolding M fx by (simp add: obs_frame_def)
    have m2: "columns (obs_missing_primary nb) = columns (the_obs_df h)"
      unfolding M fx by (simp add: obs_frame_def)
    have m3: "set (body (obs_missing_primary nb)) \<subseteq> set (body (the_obs_df h))"
      unfolding M fx body_obs_frame using sm by auto
    have d1: "index_names (obs_duplicate_primary nb) = index_names (the_obs_df h)"
      unfolding D fx by (simp add: obs_frame_def)
    have d2: "columns (obs_duplicate_primary nb) = columns (the_obs_df h)"
      unfolding D fx by (simp add: obs_frame_def)
    have d3: "set (body (obs_duplicate_primary nb)) \<subseteq> set (body (the_obs_df h))"
      unfolding D fx body_obs_frame using sd by auto
    have c1: "columns (datasets_with_missing_primary nb)
              = [Str ''dataset_id'', Num 0] @ drop_nth 3 (columns (the_datasets_df h))"
      unfolding dcols using datasets_with_cell_columns [OF dm'] by simp
    have c2: "columns (datasets_with_dup_primary nb)
              = [Str ''dataset_id'', Num 0] @ drop_nth 3 (columns (the_datasets_df h))"
      unfolding dcols using datasets_with_cell_columns [OF dd'] by simp
    from o piv p1 p2 mp m1 m2 m3 dp d1 d2 d3 dm dd c1 c2
    show "nb_obs_df nb = the_obs_df h \<and>
            hash_primary_pivot_cell (the_obs_df h)
              = (Inr (hash_primary_pivot nb) :: 'e pyerr + frame) \<and>
            index_names (hash_primary_pivot nb) = [Some (Str ''hash'')] \<and>
            set (columns (hash_primary_pivot nb)) \<subseteq> {Bool False, Bool True} \<and>
            obs_missing_primary_cell (the_obs_df h) (hash_primary_pivot nb)
              = (Inr (obs_missing_primary nb) :: 'e pyerr + frame) \<and>
            index_names (obs_missing_primary nb) = index_names (the_obs_df h) \<and>
            columns (obs_missing_primary nb) = columns (the_obs_df h) \<and>
            set (body (obs_missing_primary nb)) \<subseteq> set (body (the_obs_df h)) \<and>
            obs_duplicate_primary_cell (the_obs_df h) (hash_primary_pivot nb)
              = (Inr (obs_duplicate_primary nb) :: 'e pyerr + frame) \<and>
            index_names (obs_duplicate_primary nb) = index_names (the_obs_df h) \<and>
            columns (obs_duplicate_primary nb) = columns (the_obs_df h) \<and>
            set (body (obs_duplicate_primary nb)) \<subseteq> set (body (the_obs_df h)) \<and>
            datasets_with_cell (obs_missing_primary nb) (the_datasets_df h)
              = (Inr (datasets_with_missing_primary nb) :: 'e pyerr + frame) \<and>
            datasets_with_cell (obs_duplicate_primary nb) (the_datasets_df h)
              = (Inr (datasets_with_dup_primary nb) :: 'e pyerr + frame) \<and>
            columns (datasets_with_missing_primary nb)
              = [Str ''dataset_id'', Num 0] @ drop_nth 3 (columns (the_datasets_df h)) \<and>
            columns (datasets_with_dup_primary nb)
              = [Str ''dataset_id'', Num 0] @ drop_nth 3 (columns (the_datasets_df h))"
      by (intro conjI)
  qed
  have u: "concat (map (uses ''obs_df'') finddups_notebook)
           = [''__len__'', ''index'', ''insert'', ''value_counts'', ''reset_index'', ''reset_index'']"
    by (rule uses_obs_df)
  have v: "filter (\<lambda>x. x = ''obs_df'') (concat (map bound finddups_notebook)) = [''obs_df'']"
    unfolding bound_finddups by simp
  from a b c d e g u v show ?thesis by (intro conjI)
qed

text \<open>On the small census, whose run reaches its end.\<close>

theorem obs_df_three_columns_witness:
  "\<exists>h nb. hashing_cell small_hashlib small_census = Inr h \<and>
     finddups small_hashlib small_census = Inr nb \<and>
     index_names (the_obs_df h) = [Some (Str ''soma_joinid'')] \<and>
     columns (the_obs_df h) = [Str ''hash'', Str ''dataset_id'', Str ''is_primary_data''] \<and>
     body (the_obs_df h) = [([Num 0], [Str ''1202'', Str ''d1'', Bool True]),
                            ([Num 1], [Str ''1202'', Str ''d1'', Bool False]),
                            ([Num 2], [Str ''1202'', Str ''d1'', Bool True]),
                            ([Num 3], [Str ''201'', Str ''d1'', Bool True])] \<and>
     nb_obs_df nb = the_obs_df h \<and>
     columns (obs_missing_primary nb) = [Str ''hash'', Str ''dataset_id'', Str ''is_primary_data''] \<and>
     columns (obs_duplicate_primary nb)
       = [Str ''hash'', Str ''dataset_id'', Str ''is_primary_data''] \<and>
     columns (datasets_with_dup_primary nb)
       = [Str ''dataset_id'', Num 0, Str ''collection_id'', Str ''collection_name'',
          Str ''collection_doi'', Str ''dataset_title'', Str ''dataset_h5ad_path'',
          Str ''dataset_total_cell_count'']"
proof -
  from small_census_hashed obtain h
    where h: "hashing_cell small_hashlib small_census = Inr h"
      and f: "body (the_obs_df h) = [([Num 0], [Str ''1202'', Str ''d1'', Bool True]),
                            ([Num 1], [Str ''1202'', Str ''d1'', Bool False]),
                            ([Num 2], [Str ''1202'', Str ''d1'', Bool True]),
                            ([Num 3], [Str ''201'', Str ''d1'', Bool True])]"
    by auto
  have "\<exists>x \<in> set (census_obs small_census). is_primary_data x"
    by (simp add: small_census_def)
  from finddups_total [OF h this] obtain nb
    where nb: "finddups small_hashlib small_census = Inr nb" ..
  note t = obs_df_three_columns [OF h]
  from t have a: "index_names (the_obs_df h) = [Some (Str ''soma_joinid'')]"
    and b: "columns (the_obs_df h) = [Str ''hash'', Str ''dataset_id'', Str ''is_primary_data'']"
    by simp_all
  from t nb have o: "nb_obs_df nb = the_obs_df h"
    and m: "columns (obs_missing_primary nb) = columns (the_obs_df h)"
    and d: "columns (obs_duplicate_primary nb) = columns (the_obs_df h)"
    and c: "columns (datasets_with_dup_primary nb)
              = [Str ''dataset_id'', Num 0] @ drop_nth 3 (columns (the_datasets_df h))"
    by blast+
  have "drop_nth 3 (columns (the_datasets_df h))
      = [Str ''collection_id'', Str ''collection_name'',
          Str ''collection_doi'', Str ''dataset_title'', Str ''dataset_h5ad_path'',
          Str ''dataset_total_cell_count'']"
    unfolding datasets_df_shape [OF h] by (simp add: datasets_frame_def drop_nth_def)
  with c have c': "columns (datasets_with_dup_primary nb)
       = [Str ''dataset_id'', Num 0, Str ''collection_id'', Str ''collection_name'',
          Str ''collection_doi'', Str ''dataset_title'', Str ''dataset_h5ad_path'',
          Str ''dataset_total_cell_count'']"
    by simp
  from h nb a b f o m d c' show ?thesis
    by (intro exI conjI) simp_all
qed

section \<open>Properties of the CI workflow\<close>

lemma run_steps_iff:
  "run_steps E os ss \<longleftrightarrow> (\<forall>s \<in> set ss. step_if s os \<longrightarrow> step_succeeds E s)"
  by (induction ss) auto

lemma pytest_python_api:
  "job_succeeds E os unit_tests_python_api \<Longrightarrow>
   \<forall>c \<in> set (pytest_invocations unit_tests_python_api). exits_zero E c"
  by (simp add: job_succeeds_def pytest_invocations_def script_lines_def
      unit_tests_python_api_def step_succeeds_def)

lemma pytest_builder:
  "job_succeeds E os unit_tests_builder \<Longrightarrow>
   \<forall>c \<in> set (pytest_invocations unit_tests_builder). exits_zero E c"
  by (simp add: job_succeeds_def pytest_invocations_def script_lines_def
      unit_tests_builder_def step_succeeds_def)

lemma pytest_codecoverage:
  "pytest_invocations submit_codecoverage = []"
  by (simp add: pytest_invocations_def script_lines_def submit_codecoverage_def)

text \<open>
  Claim C4, as amended. A job of the workflow exits zero exactly when every step it
  runs succeeds: the checkout, the Python setup, the installation of the dependencies,
  the pytest invocations and the upload or submission of the coverage. So in a job that
  succeeds every pytest invocation among its steps has succeeded.
\<close>

theorem job_succeeds_iff_steps:
  "(job_succeeds E os j \<longleftrightarrow> (\<forall>s \<in> set (steps j). step_if s os \<longrightarrow> step_succeeds E s)) \<and>
   (j \<in> set workflow_jobs \<and> job_succeeds E os j \<longrightarrow>
      (\<forall>c \<in> set (pytest_invocations j). exits_zero E c))"
proof -
  have a: "job_succeeds E os j \<longleftrightarrow> (\<forall>s \<in> set (steps j). step_if s os \<longrightarrow> step_succeeds E s)"
    by (simp add: job_succeeds_def run_steps_iff)
  have b: "j \<in> set workflow_jobs \<and> job_succeeds E os j \<longrightarrow>
      (\<forall>c \<in> set (pytest_invocations j). exits_zero E c)"
  proof
    assume h: "j \<in> set workflow_jobs \<and> job_succeeds E os j"
    then consider "j = unit_tests_python_api" | "j = unit_tests_builder" | "j = submit_codecoverage"
      by (auto simp: workflow_jobs_def)
    then show "\<forall>c \<in> set (pytest_invocations j). exits_zero E c"
    proof cases
      case 1
      with h pytest_python_api [of E os] show ?thesis by blast
    next
      case 2
      with h pytest_builder [of E os] show ?thesis by blast
    next
      case 3
      then show ?thesis by (simp add: pytest_codecoverage)
    qed
  qed
  from a b show ?thesis by blast
qed

text \<open>
  The API job on the macOS runner, in a run where every command exits zero and the
  upload action would fail: the upload step is skipped there, and the job succeeds.
\<close>

theorem job_succeeds_iff_steps_witness:
  "job_succeeds
     \<lparr>exits_zero = (\<lambda>c. True), action_succeeds = (\<lambda>a. a \<noteq> ''actions/upload-artifact@v3'')\<rparr>
     macos_latest unit_tests_python_api \<and>
   list_all
     (exits_zero
       \<lparr>exits_zero = (\<lambda>c. True), action_succeeds = (\<lambda>a. a \<noteq> ''actions/upload-artifact@v3'')\<rparr>)
     (pytest_invocations unit_tests_python_api)"
proof -
  let ?E = "\<lparr>exits_zero = (\<lambda>c. True),
             action_succeeds = (\<lambda>a. a \<noteq> ''actions/upload-artifact@v3'')\<rparr>"
  note t = job_succeeds_iff_steps [of ?E macos_latest unit_tests_python_api]
  have "\<forall>s \<in> set (steps unit_tests_python_api). step_if s macos_latest \<longrightarrow> step_succeeds ?E s"
    by (simp add: unit_tests_python_api_def step_succeeds_def)
  with t have ok: "job_succeeds ?E macos_latest unit_tests_python_api"
    by blast
  have "unit_tests_python_api \<in> set workflow_jobs"
    by (simp add: workflow_jobs_def)
  with t ok have "\<forall>c \<in> set (pytest_invocations unit_tests_python_api). exits_zero ?E c"
    by blast
  with ok show ?thesis by (simp add: list_all_iff)
qed

text \<open>
  Claim C4 as stated fails for the builder job in a run where every command exits
  zero, the pytest invocation included, and the upload of the coverage file fails:
  the job fails.
\<close>

theorem job_fails_with_passing_tests_counterexample:
  "\<not> (job_succeeds
         \<lparr>exits_zero = (\<lambda>c. True), action_succeeds = (\<lambda>a. a \<noteq> ''actions/upload-artifact@v3'')\<rparr>
         ubuntu_latest unit_tests_builder
       \<longleftrightarrow>
       list_all
         (exits_zero
           \<lparr>exits_zero = (\<lambda>c. True), action_succeeds = (\<lambda>a. a \<noteq> ''actions/upload-artifact@v3'')\<rparr>)
         (pytest_invocations unit_tests_builder))"
  by (simp add: job_succeeds_def unit_tests_builder_def step_succeeds_def list_all_iff)

section \<open>Properties of the library calls\<close>

lemma census_api_finddups:
  "census_api_calls finddups_calls =
     [\<lparr>lib = cellxgene_census, callee = ''open_soma''\<rparr>,
      \<lparr>lib = tiledbsoma, callee = ''__enter__''\<rparr>,
      \<lparr>lib = tiledbsoma, callee = ''__getitem__''\<rparr>,
      \<lparr>lib = tiledbsoma, callee = ''__getitem__''\<rparr>,
      \<lparr>lib = tiledbsoma, callee = ''read''\<rparr>,
      \<lparr>lib = tiledbsoma, callee = ''concat''\<rparr>,
      \<lparr>lib = tiledbsoma, callee = ''__getitem__''\<rparr>,
      \<lparr>lib = tiledbsoma, callee = ''__getitem__''\<rparr>,
      \<lparr>lib = tiledbsoma, callee = ''axis_query''\<rparr>,
      \<lparr>lib = tiledbsoma, callee = ''__enter__''\<rparr>,
      \<lparr>lib = tiledbsoma, callee = ''n_obs''\<rparr>,
      \<lparr>lib = tiledbsoma, callee = ''obs''\<rparr>,
      \<lparr>lib = tiledbsoma, callee = ''concat''\<rparr>,
      \<lparr>lib = cellxgene_census, callee = ''X_sparse_iter''\<rparr>,
      \<lparr>lib = cellxgene_census, callee = ''__iter__''\<rparr>,
      \<lparr>lib = cellxgene_census, callee = ''__next__''\<rparr>,
      \<lparr>lib = tiledbsoma, callee = ''__exit__''\<rparr>,
      \<lparr>lib = tiledbsoma, callee = ''__exit__''\<rparr>]"
  by (simp add: census_api_calls_def finddups_calls_def finddups_notebook_def)

lemma census_api_pytorch:
  "census_api_calls pytorch_calls =
     [\<lparr>lib = cellxgene_census, callee = ''open_soma''\<rparr>,
      \<lparr>lib = tiledbsoma, callee = ''__getitem__''\<rparr>,
      \<lparr>lib = tiledbsoma, callee = ''__getitem__''\<rparr>,
      \<lparr>lib = tiledbsoma, callee = ''AxisQuery''\<rparr>,
      \<lparr>lib = cellxgene_census, callee = ''ExperimentDataPipe''\<rparr>,
      \<lparr>lib = cellxgene_census, callee = ''shape''\<rparr>,
      \<lparr>lib = cellxgene_census, callee = ''experiment_dataloader''\<rparr>,
      \<lparr>lib = cellxgene_census, callee = ''shape''\<rparr>,
      \<lparr>lib = cellxgene_census, callee = ''obs_encoders''\<rparr>,
      \<lparr>lib = cellxgene_census, callee = ''experiment_dataloader''\<rparr>,
      \<lparr>lib = cellxgene_census, callee = ''obs_encoders''\<rparr>]"
  by (simp add: census_api_calls_def pytorch_calls_def pytorch_notebook_def)

lemma entry_points_finddups:
  "entry_points finddups_calls =
     [''open_soma'', ''read'', ''__getitem__'', ''axis_query'', ''__enter__'', ''n_obs'', ''obs'',
      ''concat'', ''X_sparse_iter'', ''__iter__'', ''__next__'', ''__exit__'']"
  unfolding entry_points_def census_api_finddups by simp

lemma entry_points_pytorch:
  "entry_points pytorch_calls =
     [''open_soma'', ''__getitem__'', ''AxisQuery'', ''ExperimentDataPipe'', ''shape'',
      ''experiment_dataloader'', ''obs_encoders'']"
  unfolding entry_points_def census_api_pytorch by simp

text \<open>
  Claim C5, as amended. The calls of the two notebooks into the Census and SOMA API
  are the four entry points \<open>open_soma\<close>, \<open>axis_query\<close>, \<open>ExperimentDataPipe\<close>
  and \<open>experiment_dataloader\<close>, the function \<open>X_sparse_iter\<close>, the constructor
  \<open>AxisQuery\<close>, and operations on the objects these return: the entry and the exit of
  the two \<open>with\<close> statements (\<open>__enter__\<close>, \<open>__exit__\<close>), the iteration of what
  \<open>X_sparse_iter\<close> returns (\<open>__iter__\<close>, \<open>__next__\<close>), the subscript of a
  collection, and the read accessors \<open>read\<close>, \<open>concat\<close>, \<open>obs\<close>, \<open>n_obs\<close>,
  \<open>shape\<close> and \<open>obs_encoders\<close>. Each of them is called, and no other is.
\<close>

theorem notebooks_entry_points:
  "set (entry_points finddups_calls) \<union> set (entry_points pytorch_calls) =
     set documented_entry_points \<union>
     {''X_sparse_iter'', ''AxisQuery'', ''__enter__'', ''__exit__'', ''__iter__'', ''__next__'',
      ''__getitem__'', ''read'', ''concat'', ''obs'', ''n_obs'', ''shape'', ''obs_encoders''}"
  unfolding entry_points_finddups entry_points_pytorch documented_entry_points_def
  by (simp add: insert_commute)

text \<open>
  Claim C5 as stated fails: the find-duplicate-cells notebook calls \<open>X_sparse_iter\<close>,
  which is none of the four entry points.
\<close>

theorem entry_points_counterexample:
  "\<lparr>lib = cellxgene_census, callee = ''X_sparse_iter''\<rparr> \<in> set (census_api_calls finddups_calls) \<and>
   ''X_sparse_iter'' \<notin> set documented_entry_points \<and>
   \<not> list_all (\<lambda>c. callee c \<in> set documented_entry_points)
        (census_api_calls finddups_calls @ census_api_calls pytorch_calls)"
  unfolding census_api_finddups census_api_pytorch
  by (simp add: documented_entry_points_def)

end
